(* ===== verification/Proxy_Errors.thy ===== *)
theory Proxy_Errors
  imports Proxy_Prelude
begin

section \<open>Errors (\<open>src/error.rs\<close>)\<close>

text \<open>
  \<open>ProxyError\<close> with its constructors. \<open>std::io::Error\<close> and \<open>hyper::Error\<close> appear through
  their \<open>Display\<close> text, the only thing the program does with them. The \<open>#[error(...)]\<close>
  attributes are \<open>proxy_error_to_string\<close>.
\<close>

datatype proxy_error =
    IoError string
  | HyperError string
  | ConfigError string
  | NoRoute string
  | UpstreamConnect string
  | TimeoutError string
  | PluginError string
  | TlsError string
  | AcmeError string
  | UpstreamUnhealthy string

fun proxy_error_to_string :: "proxy_error \<Rightarrow> string" where
  "proxy_error_to_string (IoError m) = ''io: '' @ m"
| "proxy_error_to_string (HyperError m) = ''http: '' @ m"
| "proxy_error_to_string (ConfigError m) = ''config: '' @ m"
| "proxy_error_to_string (NoRoute m) = ''no route for path: '' @ m"
| "proxy_error_to_string (UpstreamConnect m) = ''upstream: '' @ m"
| "proxy_error_to_string (TimeoutError m) = ''timeout: '' @ m"
| "proxy_error_to_string (PluginError m) = ''plugin: '' @ m"
| "proxy_error_to_string (TlsError m) = ''tls: '' @ m"
| "proxy_error_to_string (AcmeError m) = ''acme: '' @ m"
| "proxy_error_to_string (UpstreamUnhealthy m) = ''upstream unhealthy: '' @ m"

end
