(* ===== verification/Rust_Net.thy ===== *)
theory Rust_Net
  imports Proxy_Prelude "HOL-Library.Monad_Syntax"
begin

section \<open>Socket addresses (\<open>std::net\<close>)\<close>

text \<open>
  The part of \<open>std::net\<close> the proxy calls: \<open>str::parse::<SocketAddr>()\<close> (the configuration's
  listen and upstream addresses, the redirect port) and \<open>IpAddr::to_string\<close>
  (\<open>x-forwarded-for\<close>). A parser of the standard library either consumes a prefix of the input
  or leaves it untouched, so it is a function into an option of a value and the rest.
\<close>

datatype ip_addr = IpV4 u8 u8 u8 u8 | IpV6 "u16 list"

record socket_addr =
  sa_ip :: ip_addr
  sa_port :: u16
  sa_scope_id :: u32

subsection \<open>Reading numbers\<close>

definition to_digit :: "nat \<Rightarrow> char \<Rightarrow> nat option" where
  "to_digit radix c =
     (let n = (of_char c :: nat);
          v = (if 48 \<le> n \<and> n \<le> 57 then n - 48
               else if 97 \<le> n \<and> n \<le> 122 then n - 87
               else if 65 \<le> n \<and> n \<le> 90 then n - 55
               else radix)
      in if v < radix then Some v else None)"

fun read_digits :: "nat \<Rightarrow> string \<Rightarrow> nat list \<times> string" where
  "read_digits radix [] = ([], [])"
| "read_digits radix (c # s) =
     (case to_digit radix c of
        None \<Rightarrow> ([], c # s)
      | Some d \<Rightarrow> (let (ds, t) = read_digits radix s in (d # ds, t)))"

text \<open>
  \<open>read_number\<close>: the longest run of digits; refused when it is empty, longer than the limit,
  has a leading zero where none is allowed, or does not fit the integer type.
\<close>

definition read_number :: "nat \<Rightarrow> nat option \<Rightarrow> bool \<Rightarrow> nat \<Rightarrow> string \<Rightarrow> (nat \<times> string) option" where
  "read_number radix max_digits allow_zero_prefix type_max s =
     (let (ds, t) = read_digits radix s; v = digits_value radix ds
      in if ds = [] then None
         else if (case max_digits of None \<Rightarrow> False | Some m \<Rightarrow> m < length ds) then None
         else if \<not> allow_zero_prefix \<and> hd ds = 0 \<and> 1 < length ds then None
         else if type_max < v then None
         else Some (v, t))"

definition read_given_char :: "char \<Rightarrow> string \<Rightarrow> (unit \<times> string) option" where
  "read_given_char c s =
     (case s of [] \<Rightarrow> None | x # t \<Rightarrow> if x = c then Some ((), t) else None)"

definition read_separator ::
  "char \<Rightarrow> nat \<Rightarrow> (string \<Rightarrow> ('a \<times> string) option) \<Rightarrow> string \<Rightarrow> ('a \<times> string) option" where
  "read_separator sep i inner s =
     (if 0 < i then do { (_, t) \<leftarrow> read_given_char sep s; inner t } else inner s)"

subsection \<open>Reading addresses\<close>

definition read_octet :: "string \<Rightarrow> (nat \<times> string) option" where
  "read_octet = read_number 10 (Some 3) False 255"

definition read_ipv4_addr :: "string \<Rightarrow> ((u8 \<times> u8 \<times> u8 \<times> u8) \<times> string) option" where
  "read_ipv4_addr s = do {
     (a, s1) \<leftarrow> read_separator (CHR ''.'') 0 read_octet s;
     (b, s2) \<leftarrow> read_separator (CHR ''.'') 1 read_octet s1;
     (c, s3) \<leftarrow> read_separator (CHR ''.'') 2 read_octet s2;
     (d, s4) \<leftarrow> read_separator (CHR ''.'') 3 read_octet s3;
     Some ((of_nat a, of_nat b, of_nat c, of_nat d), s4) }"

definition be_u16 :: "u8 \<Rightarrow> u8 \<Rightarrow> u16" where
  "be_u16 hi lo = of_nat (unat hi * 256 + unat lo)"

text \<open>
  \<open>read_groups\<close>: \<open>n\<close> slots left, the next one has index \<open>i\<close>. A trailing IPv4 address takes two
  slots, so it is tried only while at least two are left.
\<close>

fun read_groups :: "nat \<Rightarrow> nat \<Rightarrow> string \<Rightarrow> u16 list \<times> bool \<times> string" where
  "read_groups 0 i s = ([], False, s)"
| "read_groups (Suc n) i s =
     (case (if 0 < n then read_separator (CHR '':'') i read_ipv4_addr s else None) of
        Some ((a, b, c, d), t) \<Rightarrow> ([be_u16 a b, be_u16 c d], True, t)
      | None \<Rightarrow>
          (case read_separator (CHR '':'') i (read_number 16 (Some 4) True 65535) s of
             None \<Rightarrow> ([], False, s)
           | Some (g, t) \<Rightarrow>
               (let (gs, v4, u) = read_groups n (Suc i) t in (of_nat g # gs, v4, u))))"

definition read_ipv6_addr :: "string \<Rightarrow> (u16 list \<times> string) option" where
  "read_ipv6_addr s =
     (let (hd_groups, hd_ipv4, t) = read_groups 8 0 s
      in if length hd_groups = 8 then Some (hd_groups, t)
         else if hd_ipv4 then None
         else do {
           (_, t1) \<leftarrow> read_given_char (CHR '':'') t;
           (_, t2) \<leftarrow> read_given_char (CHR '':'') t1;
           let (tl_groups, _, u) = read_groups (8 - (length hd_groups + 1)) 0 t2;
           Some (hd_groups @ replicate (8 - (length hd_groups + length tl_groups)) 0 @ tl_groups, u) })"

definition read_port :: "string \<Rightarrow> (nat \<times> string) option" where
  "read_port s = do { (_, t) \<leftarrow> read_given_char (CHR '':'') s; read_number 10 None True 65535 t }"

definition read_scope_id :: "string \<Rightarrow> (nat \<times> string) option" where
  "read_scope_id s =
     do { (_, t) \<leftarrow> read_given_char (CHR ''%'') s; read_number 10 None True 4294967295 t }"

definition read_socket_addr_v4 :: "string \<Rightarrow> (socket_addr \<times> string) option" where
  "read_socket_addr_v4 s = do {
     ((a, b, c, d), t) \<leftarrow> read_ipv4_addr s;
     (p, u) \<leftarrow> read_port t;
     Some (\<lparr>sa_ip = IpV4 a b c d, sa_port = of_nat p, sa_scope_id = 0\<rparr>, u) }"

definition read_socket_addr_v6 :: "string \<Rightarrow> (socket_addr \<times> string) option" where
  "read_socket_addr_v6 s = do {
     (_, s1) \<leftarrow> read_given_char (CHR ''['') s;
     (gs, s2) \<leftarrow> read_ipv6_addr s1;
     let (scope, s3) = (case read_scope_id s2 of None \<Rightarrow> (0, s2) | Some r \<Rightarrow> r);
     (_, s4) \<leftarrow> read_given_char (CHR '']'') s3;
     (p, s5) \<leftarrow> read_port s4;
     Some (\<lparr>sa_ip = IpV6 gs, sa_port = of_nat p, sa_scope_id = of_nat scope\<rparr>, s5) }"

definition read_socket_addr :: "string \<Rightarrow> (socket_addr \<times> string) option" where
  "read_socket_addr s =
     (case read_socket_addr_v4 s of Some r \<Rightarrow> Some r | None \<Rightarrow> read_socket_addr_v6 s)"

text \<open>\<open>SocketAddr::from_str\<close>: the whole input must be consumed; the error has one text.\<close>

definition parse_socket_addr :: "string \<Rightarrow> string + socket_addr" where
  "parse_socket_addr s =
     (case read_socket_addr s of
        Some (a, []) \<Rightarrow> Ok a
      | _ \<Rightarrow> Err ''invalid socket address syntax'')"

subsection \<open>Printing addresses\<close>

definition hex_char :: "nat \<Rightarrow> char" where
  "hex_char d = (if d < 10 then char_of (48 + d) else char_of (87 + d))"

fun hex :: "nat \<Rightarrow> string" where
  "hex n = (if n < 16 then [hex_char n] else hex (n div 16) @ [hex_char (n mod 16)])"

declare hex.simps [simp del]

text \<open>The first longest run of zero segments, as (start, length).\<close>

fun longest_zeroes :: "nat \<Rightarrow> u16 list \<Rightarrow> nat \<times> nat \<Rightarrow> nat \<times> nat \<Rightarrow> nat \<times> nat" where
  "longest_zeroes i [] current longest = longest"
| "longest_zeroes i (g # gs) current longest =
     (if g = 0 then
        (let cur = (if snd current = 0 then i else fst current, Suc (snd current))
         in longest_zeroes (Suc i) gs cur (if snd longest < snd cur then cur else longest))
      else longest_zeroes (Suc i) gs (0, 0) longest)"

fun fmt_subslice :: "u16 list \<Rightarrow> string" where
  "fmt_subslice [] = []"
| "fmt_subslice [g] = hex (unat g)"
| "fmt_subslice (g # gs) = hex (unat g) @ '':'' @ fmt_subslice gs"

definition ipv4_to_string :: "nat \<Rightarrow> nat \<Rightarrow> nat \<Rightarrow> nat \<Rightarrow> string" where
  "ipv4_to_string a b c d = dec a @ ''.'' @ dec b @ ''.'' @ dec c @ ''.'' @ dec d"

definition ipv6_to_string :: "u16 list \<Rightarrow> string" where
  "ipv6_to_string gs =
     (if length gs = 8 \<and> take 6 gs = [0, 0, 0, 0, 0, 65535] then
        ''::ffff:'' @ ipv4_to_string (unat (gs ! 6) div 256) (unat (gs ! 6) mod 256)
                        (unat (gs ! 7) div 256) (unat (gs ! 7) mod 256)
      else
        (let (start, len) = longest_zeroes 0 gs (0, 0) (0, 0)
         in if 1 < len
            then fmt_subslice (take start gs) @ ''::'' @ fmt_subslice (drop (start + len) gs)
            else fmt_subslice gs))"

fun ip_to_string :: "ip_addr \<Rightarrow> string" where
  "ip_to_string (IpV4 a b c d) = ipv4_to_string (unat a) (unat b) (unat c) (unat d)"
| "ip_to_string (IpV6 gs) = ipv6_to_string gs"

subsection \<open>What is printed parses back\<close>

lemma to_digit_digit_char [simp]: "d < 10 \<Longrightarrow> to_digit 10 (digit_char d) = Some d"
  by (simp add: to_digit_def of_char_digit)

lemma to_digit_10: "to_digit 10 c = (if is_digit c then Some (digit_val c) else None)"
proof -
  have "\<not> (of_char c :: nat) - 87 < 10" if "97 \<le> (of_char c :: nat)" using that by arith
  moreover have "\<not> (of_char c :: nat) - 55 < 10" if "65 \<le> (of_char c :: nat)" using that by arith
  moreover have "(of_char c :: nat) - 48 < 10" if "(of_char c :: nat) \<le> 57" using that by arith
  ultimately show ?thesis
    by (auto simp: to_digit_def is_digit_def digit_val_def Let_def)
qed

lemma read_digits_run:
  assumes "list_all is_digit s" and "t = [] \<or> \<not> is_digit (hd t)"
  shows "read_digits 10 (s @ t) = (map digit_val s, t)"
  using assms(1)
proof (induction s)
  case Nil
  then show ?case using assms(2) by (cases t) (auto simp: to_digit_10)
next
  case (Cons c s)
  then show ?case by (simp add: to_digit_10)
qed

lemma dec_leading_zero:
  assumes "digit_val (hd (dec n)) = 0"
  shows "length (dec n) = 1"
proof -
  have "is_digit (hd (dec n))" by (rule dec_digits [of _ n]) simp
  then obtain k where k: "(of_char (hd (dec n)) :: nat) = 48 + k"
    unfolding is_digit_def by (metis le_Suc_ex)
  with assms have "k = 0" by (simp add: digit_val_def)
  with k have "hd (dec n) = digit_char 0" by (metis char_of_char digit_char_def)
  then have "n = 0" by (rule hd_dec_zero)
  then show ?thesis by (simp add: length_dec_1)
qed

lemma read_number_dec:
  assumes "n \<le> type_max"
    and "case max_digits of None \<Rightarrow> True | Some m \<Rightarrow> length (dec n) \<le> m"
    and "t = [] \<or> \<not> is_digit (hd t)"
  shows "read_number 10 max_digits z type_max (dec n @ t) = Some (n, t)"
proof -
  have "read_digits 10 (dec n @ t) = (map digit_val (dec n), t)"
    by (rule read_digits_run) (auto simp: list_all_iff dec_digits assms(3))
  moreover have "\<not> (hd (map digit_val (dec n)) = 0 \<and> 1 < length (map digit_val (dec n)))"
    using dec_leading_zero [of n] by (auto simp: hd_map)
  ultimately show ?thesis
    using assms(1,2) by (auto simp: read_number_def dec_value split: option.splits)
qed

lemma read_octet_dec:
  "t = [] \<or> \<not> is_digit (hd t) \<Longrightarrow> read_octet (dec (unat (a :: u8)) @ t) = Some (unat a, t)"
proof -
  assume t: "t = [] \<or> \<not> is_digit (hd t)"
  have a: "unat a < 2 ^ 8" by (rule unat_lt_8)
  then have "length (dec (unat a)) \<le> Suc 2" by (intro length_dec_le) simp
  with a t show ?thesis by (simp add: read_octet_def read_number_dec)
qed

lemma not_digit_dot_colon [simp]: "\<not> is_digit (CHR ''.'')" "\<not> is_digit (CHR '':'')"
  by (simp_all add: is_digit_def)

lemma read_ipv4_addr_print:
  assumes "t = [] \<or> \<not> is_digit (hd t)"
  shows "read_ipv4_addr (ipv4_to_string (unat a) (unat b) (unat c) (unat d) @ t) =
         Some ((a, b, c, d), t)"
  using assms
  by (simp add: read_ipv4_addr_def ipv4_to_string_def read_separator_def read_octet_dec
      read_given_char_def)

text \<open>\<open>SocketAddr\<close> prints an IPv4 address as \<open>ip:port\<close>; parsing gives the address back.\<close>

lemma parse_socket_addr_print_v4:
  "parse_socket_addr (ip_to_string (IpV4 a b c d) @ '':'' @ dec (unat p)) =
     Ok \<lparr>sa_ip = IpV4 a b c d, sa_port = p, sa_scope_id = 0\<rparr>"
proof -
  have "unat p \<le> 65535" using unat_lt_16 [of p] by simp
  then have "read_port ('':'' @ dec (unat p)) = Some (unat p, [])"
    using read_number_dec [of "unat p" 65535 None "[]" True]
    by (simp add: read_port_def read_given_char_def)
  moreover have "read_ipv4_addr (ip_to_string (IpV4 a b c d) @ '':'' @ dec (unat p)) =
      Some ((a, b, c, d), '':'' @ dec (unat p))"
    using read_ipv4_addr_print [of "'':'' @ dec (unat p)"] by simp
  ultimately have "read_socket_addr (ip_to_string (IpV4 a b c d) @ '':'' @ dec (unat p)) =
      Some (\<lparr>sa_ip = IpV4 a b c d, sa_port = p, sa_scope_id = 0\<rparr>, [])"
    by (simp add: read_socket_addr_def read_socket_addr_v4_def)
  then show ?thesis by (simp add: parse_socket_addr_def)
qed

subsection \<open>A printed address is a valid header value\<close>

lemma visible_ascii_hex [simp]: "visible_ascii (hex n)"
proof (induction n rule: hex.induct)
  case (1 n)
  have "visible_ascii [hex_char d]" if "d < 16" for d
    using that by (simp add: visible_ascii_Cons hex_char_def)
  with 1 show ?case by (cases "n < 16") (auto simp: hex.simps [of n])
qed

lemma visible_ascii_fmt_subslice [simp]: "visible_ascii (fmt_subslice gs)"
  by (induction gs rule: fmt_subslice.induct) (auto simp: visible_ascii_Cons)

lemma visible_ascii_ipv4 [simp]: "visible_ascii (ipv4_to_string a b c d)"
  by (simp add: ipv4_to_string_def visible_ascii_Cons)

lemma visible_ascii_ip [simp]: "visible_ascii (ip_to_string ip)"
  by (cases ip) (auto simp: ipv6_to_string_def visible_ascii_Cons Let_def split: prod.splits)

end
