(* ===== verification/Rust_Fs.thy ===== *)
theory Rust_Fs
  imports Proxy_Prelude
begin

section \<open>Files (\<open>std::fs\<close>, \<open>std::path\<close>)\<close>

text \<open>
  The file operations the program calls, over a store from paths to contents. Any call may fail
  for a reason of the system (permissions, a full disk, a non-UTF-8 file): the argument
  \<open>faults\<close> says which calls do and with what message. A failed write may leave a partial file:
  \<open>fault_residue\<close> is what it left, \<open>None\<close> when the file is untouched. A rename is atomic: it
  takes effect or it does not. Two spellings of one file (\<open>certs/a\<close>, \<open>./certs/a\<close>) are not
  identified; the program spells every file of its cache directory with the same prefix.
\<close>

type_synonym path = string
type_synonym files = "path \<rightharpoonup> string"

datatype fs_op =
    FsRead path
  | FsStat path
  | FsWrite path string
  | FsRename path path
  | FsRemove path
  | FsMkdir path

record io_fault =
  fault_error :: string
  fault_residue :: "string option"

type_synonym faults = "fs_op \<rightharpoonup> io_fault"

definition no_such_file :: string where
  "no_such_file = ''No such file or directory (os error 2)''"

definition fs_read :: "faults \<Rightarrow> files \<Rightarrow> path \<Rightarrow> string + string" where
  "fs_read faults fs p =
     (case faults (FsRead p) of
        Some f \<Rightarrow> Err (fault_error f)
      | None \<Rightarrow> ok_or no_such_file (fs p))"

text \<open>\<open>Path::exists\<close> answers \<open>false\<close> when the file cannot be examined.\<close>

definition fs_exists :: "faults \<Rightarrow> files \<Rightarrow> path \<Rightarrow> bool" where
  "fs_exists faults fs p \<longleftrightarrow> faults (FsStat p) = None \<and> fs p \<noteq> None"

definition fs_write :: "faults \<Rightarrow> files \<Rightarrow> path \<Rightarrow> string \<Rightarrow> (string + unit) \<times> files" where
  "fs_write faults fs p c =
     (case faults (FsWrite p c) of
        None \<Rightarrow> (Ok (), fs(p \<mapsto> c))
      | Some f \<Rightarrow> (Err (fault_error f),
                   case fault_residue f of None \<Rightarrow> fs | Some r \<Rightarrow> fs(p \<mapsto> r)))"

definition fs_rename :: "faults \<Rightarrow> files \<Rightarrow> path \<Rightarrow> path \<Rightarrow> (string + unit) \<times> files" where
  "fs_rename faults fs a b =
     (case faults (FsRename a b) of
        Some f \<Rightarrow> (Err (fault_error f), fs)
      | None \<Rightarrow>
          (case fs a of
             None \<Rightarrow> (Err no_such_file, fs)
           | Some c \<Rightarrow> (Ok (), (fs(a := None))(b \<mapsto> c))))"

definition fs_remove :: "faults \<Rightarrow> files \<Rightarrow> path \<Rightarrow> (string + unit) \<times> files" where
  "fs_remove faults fs p =
     (case faults (FsRemove p) of
        Some f \<Rightarrow> (Err (fault_error f), fs)
      | None \<Rightarrow> (case fs p of None \<Rightarrow> (Err no_such_file, fs) | Some _ \<Rightarrow> (Ok (), fs(p := None))))"

definition fs_create_dir_all :: "faults \<Rightarrow> files \<Rightarrow> path \<Rightarrow> string + unit" where
  "fs_create_dir_all faults fs p =
     (case faults (FsMkdir p) of Some f \<Rightarrow> Err (fault_error f) | None \<Rightarrow> Ok ())"

text \<open>\<open>Path::join\<close>: an absolute argument replaces the path; a separator is added when needed.\<close>

definition path_join :: "path \<Rightarrow> path \<Rightarrow> path" where
  "path_join d a =
     (if starts_with ''/'' a then a
      else if d = [] \<or> last d = CHR ''/'' then d @ a
      else d @ ''/'' @ a)"

lemma path_join_inject [simp]:
  "\<not> starts_with ''/'' a \<Longrightarrow> \<not> starts_with ''/'' b \<Longrightarrow> path_join d a = path_join d b \<longleftrightarrow> a = b"
  by (simp add: path_join_def)

text \<open>An operation changes only the files it names.\<close>

lemma fs_write_frame: "fs_write fl fs p c = (r, fs') \<Longrightarrow> q \<noteq> p \<Longrightarrow> fs' q = fs q"
  by (auto simp: fs_write_def split: option.splits)

lemma fs_write_Ok: "fs_write fl fs p c = (Inr u, fs') \<Longrightarrow> fs' = fs(p \<mapsto> c)"
  by (auto simp: fs_write_def split: option.splits)

lemma fs_rename_frame:
  "fs_rename fl fs a b = (r, fs') \<Longrightarrow> q \<noteq> a \<Longrightarrow> q \<noteq> b \<Longrightarrow> fs' q = fs q"
  by (auto simp: fs_rename_def split: option.splits)

lemma fs_rename_Err: "fs_rename fl fs a b = (Inl e, fs') \<Longrightarrow> fs' = fs"
  by (auto simp: fs_rename_def split: option.splits)

lemma fs_rename_Ok:
  "fs_rename fl fs a b = (Inr u, fs') \<Longrightarrow> \<exists>c. fs a = Some c \<and> fs' = (fs(a := None))(b \<mapsto> c)"
  by (auto simp: fs_rename_def split: option.splits)

lemma fs_remove_frame: "fs_remove fl fs p = (r, fs') \<Longrightarrow> q \<noteq> p \<Longrightarrow> fs' q = fs q"
  by (auto simp: fs_remove_def split: option.splits)

lemma fs_remove_gone: "fl (FsRemove p) = None \<Longrightarrow> snd (fs_remove fl fs p) p = None"
  by (auto simp: fs_remove_def split: option.splits)

lemmas fs_frames = fs_write_frame fs_rename_frame fs_remove_frame

end
