(* ===== verification/Proxy_Config.thy ===== *)
theory Proxy_Config
  imports Proxy_Errors Rust_Net Rust_Fs
begin

section \<open>Configuration (\<open>src/config.rs\<close>)\<close>

text \<open>
  The configuration structs, the defaults of missing keys, reading a configuration file and
  \<open>Config::validate\<close>. The TOML deserialiser is not part of the repository: it is the argument
  \<open>toml_from_str\<close>, which gives the document's tables, with a key that \<open>#[serde(default)]\<close> allows
  to be missing as an \<open>option\<close>, or the deserialiser's message.
\<close>

subsection \<open>The structs and their defaults\<close>

record server_config =
  listen :: string
  max_idle_connections :: nat
  timeout_ms :: u64
  http_challenge_listen :: "string option"

record route_config =
  path_prefix :: string
  upstream :: string
  route_plugins :: "string list"

record tls_config =
  acme_email :: string
  acme_directory :: string
  cache_dir :: string
  domains :: "string list"

record config =
  server :: server_config
  routes :: "route_config list"
  tls :: "tls_config option"

definition default_max_idle :: nat where
  "default_max_idle = 10"

definition default_timeout_ms :: u64 where
  "default_timeout_ms = 30000"

definition default_acme_directory :: string where
  "default_acme_directory = ''https://acme-v02.api.letsencrypt.org/directory''"

text \<open>A parsed document: the keys with a default may be missing.\<close>

record raw_server =
  raw_listen :: string
  raw_max_idle_connections :: "nat option"
  raw_timeout_ms :: "u64 option"
  raw_http_challenge_listen :: "string option"

record raw_route =
  raw_path_prefix :: string
  raw_upstream :: string
  raw_plugins :: "string list option"

record raw_tls =
  raw_acme_email :: string
  raw_acme_directory :: "string option"
  raw_cache_dir :: string
  raw_domains :: "string list"

record raw_config =
  raw_server_table :: raw_server
  raw_routes :: "raw_route list option"
  raw_tls_table :: "raw_tls option"

definition or_default :: "'a \<Rightarrow> 'a option \<Rightarrow> 'a" where
  "or_default d m = (case m of None \<Rightarrow> d | Some x \<Rightarrow> x)"

definition server_of_raw :: "raw_server \<Rightarrow> server_config" where
  "server_of_raw r =
     \<lparr>listen = raw_listen r,
      max_idle_connections = or_default default_max_idle (raw_max_idle_connections r),
      timeout_ms = or_default default_timeout_ms (raw_timeout_ms r),
      http_challenge_listen = raw_http_challenge_listen r\<rparr>"

definition route_of_raw :: "raw_route \<Rightarrow> route_config" where
  "route_of_raw r =
     \<lparr>path_prefix = raw_path_prefix r,
      upstream = raw_upstream r,
      route_plugins = or_default [] (raw_plugins r)\<rparr>"

definition tls_of_raw :: "raw_tls \<Rightarrow> tls_config" where
  "tls_of_raw r =
     \<lparr>acme_email = raw_acme_email r,
      acme_directory = or_default default_acme_directory (raw_acme_directory r),
      cache_dir = raw_cache_dir r,
      domains = raw_domains r\<rparr>"

definition config_of_raw :: "raw_config \<Rightarrow> config" where
  "config_of_raw r =
     \<lparr>server = server_of_raw (raw_server_table r),
      routes = map route_of_raw (or_default [] (raw_routes r)),
      tls = map_option tls_of_raw (raw_tls_table r)\<rparr>"

subsection \<open>Reading\<close>

type_synonym toml = "string \<Rightarrow> string + raw_config"

definition config_parse :: "toml \<Rightarrow> string \<Rightarrow> proxy_error + config" where
  "config_parse toml_from_str s =
     map_err (\<lambda>e. ConfigError (''parse: '' @ e)) (result_bind (toml_from_str s) (\<lambda>r. Ok (config_of_raw r)))"

definition config_from_file :: "toml \<Rightarrow> faults \<Rightarrow> files \<Rightarrow> path \<Rightarrow> proxy_error + config" where
  "config_from_file toml_from_str faults fs p =
     result_bind (map_err (\<lambda>e. ConfigError (''read: '' @ e)) (fs_read faults fs p))
       (config_parse toml_from_str)"

subsection \<open>Validation\<close>

text \<open>The texts of the errors.\<close>

definition route_tag :: "nat \<Rightarrow> string" where
  "route_tag i = ''route['' @ dec i @ '']: ''"

definition duplicate_prefix_error :: "nat \<Rightarrow> string \<Rightarrow> proxy_error" where
  "duplicate_prefix_error i p = ConfigError (route_tag i @ ''duplicate path_prefix '' @ quoted p)"

definition bad_prefix_error :: "nat \<Rightarrow> string \<Rightarrow> proxy_error" where
  "bad_prefix_error i p =
     ConfigError (route_tag i @ ''path_prefix must start with '' @ quoted ''/'' @ '', got '' @ quoted p)"

definition bad_upstream_error :: "nat \<Rightarrow> string \<Rightarrow> string \<Rightarrow> proxy_error" where
  "bad_upstream_error i u e =
     ConfigError (route_tag i @ ''invalid upstream address '' @ quoted u @ '': '' @ e)"

text \<open>The loop over the routes: index, prefixes seen so far, routes left.\<close>

fun validate_routes :: "nat \<Rightarrow> string set \<Rightarrow> route_config list \<Rightarrow> proxy_error + unit" where
  "validate_routes i seen [] = Ok ()"
| "validate_routes i seen (r # rs) =
     (if path_prefix r \<in> seen then Err (duplicate_prefix_error i (path_prefix r))
      else if path_prefix r = [] \<or> \<not> starts_with ''/'' (path_prefix r)
        then Err (bad_prefix_error i (path_prefix r))
      else
        result_bind (map_err (bad_upstream_error i (upstream r)) (parse_socket_addr (upstream r)))
          (\<lambda>_. validate_routes (Suc i) (insert (path_prefix r) seen) rs))"

definition validate :: "config \<Rightarrow> proxy_error + unit" where
  "validate c =
     result_bind
       (map_err (\<lambda>e. ConfigError (''invalid listen address '' @ quoted (listen (server c)) @ '': '' @ e))
         (parse_socket_addr (listen (server c))))
       (\<lambda>_. if tls c \<noteq> None \<and> http_challenge_listen (server c) = None
            then Err (ConfigError ''http_challenge_listen is required when [tls] is configured'')
            else validate_routes 0 {} (routes c))"

subsection \<open>What a validated configuration satisfies\<close>

definition route_ok :: "route_config \<Rightarrow> bool" where
  "route_ok r \<longleftrightarrow> starts_with ''/'' (path_prefix r) \<and> is_ok (parse_socket_addr (upstream r))"

definition routes_ok :: "route_config list \<Rightarrow> bool" where
  "routes_ok rs \<longleftrightarrow> distinct (map path_prefix rs) \<and> list_all route_ok rs"

definition challenge_ok :: "config \<Rightarrow> bool" where
  "challenge_ok c \<longleftrightarrow> tls c = None \<or> http_challenge_listen (server c) \<noteq> None"

definition config_ok :: "config \<Rightarrow> bool" where
  "config_ok c \<longleftrightarrow>
     is_ok (parse_socket_addr (listen (server c))) \<and> challenge_ok c \<and> routes_ok (routes c)"

lemma validate_routes_Ok:
  "validate_routes i seen rs = Ok () \<longleftrightarrow> routes_ok rs \<and> path_prefix ` set rs \<inter> seen = {}"
  by (induction rs arbitrary: i seen)
    (auto simp: routes_ok_def route_ok_def result_simps split: if_splits)

lemma validate_accepts:
  "validate c = Ok () \<longleftrightarrow> config_ok c"
  by (auto simp: validate_def config_ok_def challenge_ok_def validate_routes_Ok result_simps)

lemma routes_ok_Cons:
  "routes_ok (r # rs) \<longleftrightarrow> route_ok r \<and> path_prefix r \<notin> path_prefix ` set rs \<and> routes_ok rs"
  by (auto simp: routes_ok_def)

lemma routes_ok_take: "routes_ok rs \<Longrightarrow> routes_ok (take n rs)"
  by (auto simp: routes_ok_def list_all_iff distinct_take take_map [symmetric] dest: in_set_takeD)

definition names_route :: "nat \<Rightarrow> proxy_error \<Rightarrow> bool" where
  "names_route i e \<longleftrightarrow> (\<exists>m. e = ConfigError (route_tag i @ m))"

lemma names_route_errors [simp]:
  "names_route i (duplicate_prefix_error i p)"
  "names_route i (bad_prefix_error i p)"
  "names_route i (bad_upstream_error i p m)"
  by (simp_all add: names_route_def duplicate_prefix_error_def bad_prefix_error_def
      bad_upstream_error_def)

text \<open>The loop stops at the first route that breaks the configuration.\<close>

lemma validate_routes_Err:
  "validate_routes i seen rs = Err e \<Longrightarrow>
   \<exists>k < length rs. names_route (i + k) e \<and>
     (routes_ok (take k rs) \<and> path_prefix ` set (take k rs) \<inter> seen = {}) \<and>
     \<not> (routes_ok (take (Suc k) rs) \<and> path_prefix ` set (take (Suc k) rs) \<inter> seen = {})"
proof (induction rs arbitrary: i seen)
  case Nil
  then show ?case by simp
next
  case (Cons r rs)
  let ?bad = "path_prefix r \<in> seen \<or> \<not> route_ok r"
  show ?case
  proof (cases ?bad)
    case True
    with Cons.prems have "names_route i e"
      by (auto simp: route_ok_def result_simps split: if_splits)
    with True show ?thesis by (intro exI [of _ 0]) (auto simp: routes_ok_def)
  next
    case False
    with Cons.prems have "validate_routes (Suc i) (insert (path_prefix r) seen) rs = Err e"
      by (auto simp: route_ok_def result_simps split: if_splits)
    from Cons.IH [OF this] obtain k where k: "k < length rs" "names_route (Suc i + k) e"
      "routes_ok (take k rs) \<and> path_prefix ` set (take k rs) \<inter> insert (path_prefix r) seen = {}"
      "\<not> (routes_ok (take (Suc k) rs) \<and>
          path_prefix ` set (take (Suc k) rs) \<inter> insert (path_prefix r) seen = {})"
      by blast
    with False show ?thesis
      by (intro exI [of _ "Suc k"]) (auto simp: routes_ok_Cons)
  qed
qed

lemma validate_Err_route:
  assumes "is_ok (parse_socket_addr (listen (server c)))" "challenge_ok c" "validate c = Err e"
  shows "\<exists>k < length (routes c). names_route k e \<and>
           config_ok (c\<lparr>routes := take k (routes c)\<rparr>) \<and>
           \<not> config_ok (c\<lparr>routes := take (Suc k) (routes c)\<rparr>)"
proof -
  from assms have "validate_routes 0 {} (routes c) = Err e"
    by (auto simp: validate_def challenge_ok_def result_simps split: if_splits)
  from validate_routes_Err [OF this] assms(1,2) show ?thesis
    by (auto simp: config_ok_def challenge_ok_def)
qed

subsection \<open>Properties\<close>

text \<open>
  \<open>validate\<close> accepts a configuration exactly when the listen address and every upstream parse as
  socket addresses, a TLS section comes with a challenge address, every prefix starts with a slash
  and no two routes have the same prefix.
\<close>
theorem validate_accepts_exactly: "validate c = Ok () \<longleftrightarrow> config_ok c"
  by (rule validate_accepts)

text \<open>
  When the server part is right, a rejected configuration is rejected for its first bad route:
  the error names it, the routes before it are acceptable, and with it they are not.
\<close>
theorem validate_names_first_bad_route:
  assumes "is_ok (parse_socket_addr (listen (server c)))" "challenge_ok c" "validate c = Err e"
  shows "\<exists>k < length (routes c). names_route k e \<and>
           config_ok (c\<lparr>routes := take k (routes c)\<rparr>) \<and>
           \<not> config_ok (c\<lparr>routes := take (Suc k) (routes c)\<rparr>)"
  using assms by (rule validate_Err_route)

definition example_server :: server_config where
  "example_server = \<lparr>listen = ''127.0.0.1:8080'', max_idle_connections = 10, timeout_ms = 5000,
     http_challenge_listen = None\<rparr>"

definition example_route :: "string \<Rightarrow> string \<Rightarrow> route_config" where
  "example_route p u = \<lparr>path_prefix = p, upstream = u, route_plugins = []\<rparr>"

definition example_duplicate :: config where
  "example_duplicate = \<lparr>server = example_server,
     routes = [example_route ''/api'' ''127.0.0.1:3000'', example_route ''/api'' ''127.0.0.1:4000''],
     tls = None\<rparr>"

theorem validate_names_first_bad_route_witness:
  "\<exists>k < length (routes example_duplicate). names_route k (duplicate_prefix_error 1 ''/api'') \<and>
     config_ok (example_duplicate\<lparr>routes := take k (routes example_duplicate)\<rparr>) \<and>
     \<not> config_ok (example_duplicate\<lparr>routes := take (Suc k) (routes example_duplicate)\<rparr>)"
proof (rule validate_names_first_bad_route)
  show "is_ok (parse_socket_addr (listen (server example_duplicate)))" by code_simp
  show "challenge_ok example_duplicate" by code_simp
  show "validate example_duplicate = Err (duplicate_prefix_error 1 ''/api'')" by code_simp
qed

text \<open>
  C20: \<open>validate\<close> accepts a configuration exactly when the listen address and every upstream parse as
  socket addresses, a TLS section comes with a challenge address, every prefix starts with a slash and
  no two routes have the same prefix; what it rejects for its routes it rejects for the first bad one,
  which the error names.
\<close>
theorem validate_accepts_or_names_first_bad:
  "(validate c = Ok () \<longleftrightarrow> config_ok c) \<and>
   (\<forall>e. is_ok (parse_socket_addr (listen (server c))) \<and> challenge_ok c \<and> validate c = Err e \<longrightarrow>
      (\<exists>k < length (routes c). names_route k e \<and> config_ok (c\<lparr>routes := take k (routes c)\<rparr>) \<and>
         \<not> config_ok (c\<lparr>routes := take (Suc k) (routes c)\<rparr>)))"
  using validate_accepts validate_Err_route by blast

theorem validate_accepts_or_names_first_bad_witness:
  "\<exists>k < length (routes example_duplicate). names_route k (duplicate_prefix_error 1 ''/api'') \<and>
     config_ok (example_duplicate\<lparr>routes := take k (routes example_duplicate)\<rparr>) \<and>
     \<not> config_ok (example_duplicate\<lparr>routes := take (Suc k) (routes example_duplicate)\<rparr>)"
proof -
  have "is_ok (parse_socket_addr (listen (server example_duplicate)))" "challenge_ok example_duplicate"
    "validate example_duplicate = Err (duplicate_prefix_error 1 ''/api'')" by code_simp+
  then show ?thesis using validate_accepts_or_names_first_bad [of example_duplicate] by blast
qed

definition printed_addr :: "u8 \<times> u8 \<times> u8 \<times> u8 \<times> u16 \<Rightarrow> string" where
  "printed_addr x = (case x of (a, b, c, d, p) \<Rightarrow> ip_to_string (IpV4 a b c d) @ '':'' @ dec (unat p))"

lemma parse_printed_addr: "is_ok (parse_socket_addr (printed_addr x))"
  unfolding printed_addr_def by (cases x) (simp only: prod.case parse_socket_addr_print_v4 is_ok.simps)

text \<open>
  Every IPv4 socket address as it is printed is accepted wherever an address is expected: a
  configuration written with printed addresses and slash-prefixed paths is valid exactly when its
  paths are distinct.
\<close>
theorem validate_printed_addresses:
  "validate \<lparr>server = \<lparr>listen = printed_addr x, max_idle_connections = n, timeout_ms = t,
                        http_challenge_listen = l\<rparr>,
             routes = map (\<lambda>(p, y). \<lparr>path_prefix = CHR ''/'' # p, upstream = printed_addr y, route_plugins = []\<rparr>) rs,
             tls = None\<rparr> = Ok () \<longleftrightarrow> distinct (map fst rs)"
proof -
  have "list_all route_ok
      (map (\<lambda>(p, y). \<lparr>path_prefix = CHR ''/'' # p, upstream = printed_addr y, route_plugins = []\<rparr>) rs)"
    by (auto simp: list_all_iff route_ok_def parse_printed_addr)
  moreover have "distinct (map path_prefix
      (map (\<lambda>(p, y). \<lparr>path_prefix = CHR ''/'' # p, upstream = printed_addr y, route_plugins = []\<rparr>) rs)) \<longleftrightarrow>
      distinct (map fst rs)"
    by (induction rs) force+
  ultimately show ?thesis
    by (simp add: validate_accepts config_ok_def challenge_ok_def routes_ok_def parse_printed_addr)
qed

end
