(* ===== verification/Tls_State.thy ===== *)
theory Tls_State
  imports Proxy_Config
begin

section \<open>TLS state (\<open>src/tls.rs\<close>)\<close>

text \<open>
  Building the acceptor from PEM texts. \<open>rustls\<close> and \<open>rustls_pemfile\<close> are the argument
  \<open>tls_api\<close>: the items of the certificate PEM one by one, the private key if there is one, the
  server configuration for a chain and a key, and the acceptor of a configuration with its ALPN list.
\<close>

record ('cert, 'key, 'srv, 'acc) tls_api =
  pem_certs :: "string \<Rightarrow> (string + 'cert) list"
  pem_private_key :: "string \<Rightarrow> string + 'key option"
  with_single_cert :: "'cert list \<Rightarrow> 'key \<Rightarrow> string + 'srv"
  tls_acceptor :: "'srv \<Rightarrow> string list \<Rightarrow> 'acc"

record 'acc tls_state =
  acceptor :: 'acc
  tls_domains :: "string list"

text \<open>\<open>collect::<Result<Vec<_>, _>>()\<close>: the first error, or all values.\<close>

fun collect_results :: "('e + 'a) list \<Rightarrow> 'e + 'a list" where
  "collect_results [] = Ok []"
| "collect_results (r # rs) =
     result_bind r (\<lambda>x. result_bind (collect_results rs) (\<lambda>xs. Ok (x # xs)))"

definition alpn_protocols :: "string list" where
  "alpn_protocols = [''h2'', ''http/1.1'']"

definition build_tls_state ::
  "('cert, 'key, 'srv, 'acc) tls_api \<Rightarrow> tls_config \<Rightarrow> string \<Rightarrow> string \<Rightarrow> proxy_error + 'acc tls_state" where
  "build_tls_state api tc cert_pem key_pem =
     result_bind
       (map_err (\<lambda>e. TlsError (''parse cert chain: '' @ e)) (collect_results (pem_certs api cert_pem)))
       (\<lambda>certs.
         if certs = [] then Err (TlsError ''no certificates found in PEM'')
         else
           result_bind
             (map_err (\<lambda>e. TlsError (''parse private key: '' @ e)) (pem_private_key api key_pem))
             (\<lambda>mkey.
               result_bind (ok_or (TlsError ''no private key found in PEM'') mkey)
               (\<lambda>key.
                 result_bind
                   (map_err (\<lambda>e. TlsError (''build server config: '' @ e)) (with_single_cert api certs key))
                   (\<lambda>srv. Ok \<lparr>acceptor = tls_acceptor api srv alpn_protocols,
                              tls_domains = domains tc\<rparr>))))"

lemma collect_results_Ok:
  "collect_results rs = Inr xs \<longleftrightarrow> rs = map Inr xs"
proof (induction rs arbitrary: xs)
  case Nil
  then show ?case by auto
next
  case (Cons r rs)
  then show ?case by (cases xs) (auto simp: result_simps)
qed

lemma build_tls_state_Ok:
  "build_tls_state api tc cert_pem key_pem = Inr ts \<longleftrightarrow>
   (\<exists>certs key srv. pem_certs api cert_pem = map Inr certs \<and> certs \<noteq> [] \<and>
      pem_private_key api key_pem = Inr (Some key) \<and> with_single_cert api certs key = Inr srv \<and>
      ts = \<lparr>acceptor = tls_acceptor api srv alpn_protocols, tls_domains = domains tc\<rparr>)"
  by (auto simp: build_tls_state_def result_simps collect_results_Ok split: if_splits)

lemma build_tls_state_Err:
  "build_tls_state api tc cert_pem key_pem = Inl e \<Longrightarrow> \<exists>m. e = TlsError m"
  by (auto simp: build_tls_state_def result_simps split: if_splits)

end
