(* ===== verification/Plugin.thy ===== *)
theory Plugin
  imports Proxy_Errors Rust_Fs
begin

section \<open>WASM plugins (\<open>src/plugin.rs\<close>)\<close>

text \<open>
  A route's chain of plugins, and running it on a request. The engine is \<open>wasmtime\<close>, which is not
  part of the repository: \<open>wasm_api\<close> has the calls the code makes, on compiled modules \<open>'m\<close> and
  instances with their store \<open>'s\<close>. \<open>wasm_read\<close> (bytes of the exported memory) is not called by
  the code: \<open>wasm_laws\<close> uses it to state the documented effect of \<open>Memory::write\<close>.
\<close>

type_synonym i32 = "32 word"

record ('m, 's) wasm_api =
  wasm_compile :: "path \<Rightarrow> string + 'm"
  wasm_instantiate :: "'m \<Rightarrow> string + 's"
  wasm_has_memory :: "'s \<Rightarrow> bool"
  wasm_write :: "'s \<Rightarrow> nat \<Rightarrow> string \<Rightarrow> string + 's"
  wasm_read :: "'s \<Rightarrow> nat \<Rightarrow> nat \<Rightarrow> string"
  wasm_get_on_request :: "'s \<Rightarrow> string + unit"
  wasm_call :: "'s \<Rightarrow> i32 \<times> i32 \<times> i32 \<times> i32 \<Rightarrow> string + i32"

text \<open>\<open>Memory::write\<close> copies the bytes to the offset or fails, and touches nothing else.\<close>

definition wasm_laws :: "('m, 's) wasm_api \<Rightarrow> bool" where
  "wasm_laws api \<longleftrightarrow>
     (\<forall>s off bs s'. wasm_write api s off bs = Inr s' \<longrightarrow>
        wasm_read api s' off (length bs) = bs \<and>
        (\<forall>a n. a + n \<le> off \<or> off + length bs \<le> a \<longrightarrow> wasm_read api s' a n = wasm_read api s a n))"

subsection \<open>Plugins and their names\<close>

record 'm plugin =
  plugin_name :: string
  plugin_module :: 'm

text \<open>\<open>Path::file_stem\<close>: the last normal component up to its last dot.\<close>

fun split_path :: "path \<Rightarrow> string list" where
  "split_path [] = [[]]"
| "split_path (c # s) =
     (if c = CHR ''/'' then [] # split_path s
      else (case split_path s of [] \<Rightarrow> [[c]] | p # ps \<Rightarrow> (c # p) # ps))"

definition file_name :: "path \<Rightarrow> string option" where
  "file_name p =
     (let comps = filter (\<lambda>c. c \<noteq> [] \<and> c \<noteq> ''.'') (split_path p)
      in if comps = [] \<or> last comps = ''..'' then None else Some (last comps))"

definition before_last_dot :: "string \<Rightarrow> string" where
  "before_last_dot n = rev (drop 1 (dropWhile (\<lambda>c. c \<noteq> CHR ''.'') (rev n)))"

definition file_stem :: "path \<Rightarrow> string option" where
  "file_stem p =
     map_option (\<lambda>n. if before_last_dot n = [] then n else before_last_dot n) (file_name p)"

definition plugin_from_file :: "('m, 's) wasm_api \<Rightarrow> path \<Rightarrow> proxy_error + 'm plugin" where
  "plugin_from_file api p =
     (let name = (case file_stem p of None \<Rightarrow> ''unknown'' | Some n \<Rightarrow> n)
      in result_bind
           (map_err (\<lambda>e. PluginError (''compile '' @ quoted p @ '': '' @ e)) (wasm_compile api p))
           (\<lambda>m. Ok \<lparr>plugin_name = name, plugin_module = m\<rparr>))"

definition plugin_from_module :: "string \<Rightarrow> 'm \<Rightarrow> 'm plugin" where
  "plugin_from_module name m = \<lparr>plugin_name = name, plugin_module = m\<rparr>"

subsection \<open>The runtime of a route\<close>

record 'm plugin_runtime =
  plugins :: "'m plugin list"

definition plugin_runtime_new :: "proxy_error + 'm plugin_runtime" where
  "plugin_runtime_new = Ok \<lparr>plugins = []\<rparr>"

definition plugin_load ::
  "('m, 's) wasm_api \<Rightarrow> path \<Rightarrow> 'm plugin_runtime \<Rightarrow> proxy_error + 'm plugin_runtime" where
  "plugin_load api p rt =
     result_bind (plugin_from_file api p) (\<lambda>pl. Ok (rt\<lparr>plugins := plugins rt @ [pl]\<rparr>))"

definition push_module :: "string \<Rightarrow> 'm \<Rightarrow> 'm plugin_runtime \<Rightarrow> 'm plugin_runtime" where
  "push_module name m rt = rt\<lparr>plugins := plugins rt @ [plugin_from_module name m]\<rparr>"

subsection \<open>Running the chain\<close>

text \<open>The body of the loop for one plugin; the result says whether it blocked.\<close>

definition run_plugin ::
  "('m, 's) wasm_api \<Rightarrow> string \<Rightarrow> string \<Rightarrow> 'm plugin \<Rightarrow> proxy_error + bool" where
  "run_plugin api meth path pl =
     (if 256 < length meth then
        Err (PluginError (quoted (plugin_name pl) @ '': method too long ('' @ dec (length meth) @
               '' bytes, max 256)''))
      else
        result_bind
          (map_err (\<lambda>e. PluginError (''instantiate '' @ quoted (plugin_name pl) @ '': '' @ e))
            (wasm_instantiate api (plugin_module pl))) (\<lambda>s0.
        result_bind
          (if wasm_has_memory api s0 then Ok ()
           else Err (PluginError (quoted (plugin_name pl) @ '' missing '' @ quoted ''memory'' @ '' export''))) (\<lambda>_.
        result_bind
          (map_err (\<lambda>e. PluginError (''write method for '' @ quoted (plugin_name pl) @ '': '' @ e))
            (wasm_write api s0 0 meth)) (\<lambda>s1.
        result_bind
          (map_err (\<lambda>e. PluginError (''write path for '' @ quoted (plugin_name pl) @ '': '' @ e))
            (wasm_write api s1 256 path)) (\<lambda>s2.
        result_bind
          (map_err (\<lambda>e. PluginError (quoted (plugin_name pl) @ '' missing '' @ quoted ''on_request'' @
                          '' export: '' @ e))
            (wasm_get_on_request api s2)) (\<lambda>_.
        result_bind
          (map_err (\<lambda>e. PluginError (quoted (plugin_name pl) @ '' on_request trap: '' @ e))
            (wasm_call api s2 (0, of_nat (length meth), 256, of_nat (length path)))) (\<lambda>result.
        Ok (result \<noteq> 0))))))))"

fun run_plugins ::
  "('m, 's) wasm_api \<Rightarrow> string \<Rightarrow> string \<Rightarrow> 'm plugin list \<Rightarrow> proxy_error + bool" where
  "run_plugins api meth path [] = Ok False"
| "run_plugins api meth path (pl # pls) =
     result_bind (run_plugin api meth path pl)
       (\<lambda>blocked. if blocked then Ok True else run_plugins api meth path pls)"

definition run_on_request ::
  "('m, 's) wasm_api \<Rightarrow> 'm plugin_runtime \<Rightarrow> string \<Rightarrow> string \<Rightarrow> proxy_error + bool" where
  "run_on_request api rt meth path = run_plugins api meth path (plugins rt)"

subsection \<open>The chain's verdict\<close>

text \<open>The plugins before the first that does not pass.\<close>

definition passes :: "('m, 's) wasm_api \<Rightarrow> string \<Rightarrow> string \<Rightarrow> 'm plugin \<Rightarrow> bool" where
  "passes api meth path pl \<longleftrightarrow> run_plugin api meth path pl = Inr False"

lemma run_plugins_passing:
  "list_all (passes api meth path) pls \<Longrightarrow>
   run_plugins api meth path (pls @ qs) = run_plugins api meth path qs"
  by (induction pls) (auto simp: passes_def)

lemma run_plugins_False:
  "run_plugins api meth path pls = Inr False \<longleftrightarrow> list_all (passes api meth path) pls"
  by (induction pls) (auto simp: passes_def result_simps)

lemma run_plugins_stops:
  "run_plugins api meth path pls = r \<Longrightarrow> r \<noteq> Inr False \<Longrightarrow>
   \<exists>ps pl qs. pls = ps @ pl # qs \<and> list_all (passes api meth path) ps \<and> run_plugin api meth path pl = r"
proof (induction pls)
  case Nil
  then show ?case by simp
next
  case (Cons pl pls)
  show ?case
  proof (cases "run_plugin api meth path pl = Inr False")
    case True
    with Cons obtain ps p qs where "pls = ps @ p # qs" "list_all (passes api meth path) ps"
      "run_plugin api meth path p = r" by auto
    with True have "pl # pls = (pl # ps) @ p # qs \<and> list_all (passes api meth path) (pl # ps) \<and>
        run_plugin api meth path p = r"
      by (simp add: passes_def)
    then show ?thesis by blast
  next
    case False
    then have "run_plugins api meth path (pl # pls) = run_plugin api meth path pl"
      by (cases "run_plugin api meth path pl") auto
    with Cons.prems have "pl # pls = [] @ pl # pls \<and> list_all (passes api meth path) [] \<and>
        run_plugin api meth path pl = r" by simp
    then show ?thesis by blast
  qed
qed

lemma run_plugins_first:
  "list_all (passes api meth path) ps \<Longrightarrow> run_plugin api meth path pl = r \<Longrightarrow> r \<noteq> Inr False \<Longrightarrow>
   run_plugins api meth path (ps @ pl # qs) = r"
  by (simp add: run_plugins_passing) (cases r; auto)

subsection \<open>What a plugin sees\<close>

lemma run_plugin_memory:
  assumes laws: "wasm_laws api" and run: "run_plugin api meth path pl = Inr blocked"
  shows "\<exists>s result. wasm_call api s (0, of_nat (length meth), 256, of_nat (length path)) = Inr result \<and>
           blocked = (result \<noteq> 0) \<and>
           wasm_read api s 0 (length meth) = meth \<and> wasm_read api s 256 (length path) = path"
proof -
  from run obtain s0 s1 s2 result where
    len: "length meth \<le> 256" and
    w1: "wasm_write api s0 0 meth = Inr s1" and w2: "wasm_write api s1 256 path = Inr s2" and
    call: "wasm_call api s2 (0, of_nat (length meth), 256, of_nat (length path)) = Inr result" and
    blocked: "blocked = (result \<noteq> 0)"
    by (auto simp: run_plugin_def result_simps split: if_splits)
  from laws w1 have "wasm_read api s1 0 (length meth) = meth"
    unfolding wasm_laws_def by blast
  moreover from laws w2 len have "wasm_read api s2 0 (length meth) = wasm_read api s1 0 (length meth)"
    unfolding wasm_laws_def by (metis add_0)
  moreover from laws w2 have "wasm_read api s2 256 (length path) = path"
    unfolding wasm_laws_def by blast
  ultimately show ?thesis using call blocked by metis
qed

lemma run_plugin_error: "run_plugin api meth path pl = Inl e \<Longrightarrow> \<exists>m. e = PluginError m"
  by (auto simp: run_plugin_def result_simps split: if_splits)

lemma run_on_request_error: "run_on_request api rt meth path = Inl e \<Longrightarrow> \<exists>m. e = PluginError m"
  using run_plugins_stops [of api meth path "plugins rt" "Inl e"]
  by (auto simp: run_on_request_def dest: run_plugin_error)

subsection \<open>Example modules\<close>

text \<open>
  An engine for examples: a module is the function its \<open>on_request\<close> computes, an instance is the
  module with a memory of 64 KiB.
\<close>

type_synonym example_module = "string \<Rightarrow> string \<Rightarrow> string + i32"
type_synonym example_instance = "example_module \<times> (nat \<Rightarrow> char)"

definition mem_read :: "(nat \<Rightarrow> char) \<Rightarrow> nat \<Rightarrow> nat \<Rightarrow> string" where
  "mem_read mem a n = map mem [a..<a + n]"

definition mem_write :: "(nat \<Rightarrow> char) \<Rightarrow> nat \<Rightarrow> string \<Rightarrow> string + (nat \<Rightarrow> char)" where
  "mem_write mem off bs =
     (if off + length bs \<le> 65536 then
        Ok (\<lambda>a. if off \<le> a \<and> a < off + length bs then bs ! (a - off) else mem a)
      else Err ''out of bounds memory access'')"

fun example_compile :: "path \<Rightarrow> string + example_module" where
  "example_compile p =
     (if p = ''plugins/pass.wasm'' then Ok (\<lambda>meth path. Ok 0)
      else if p = ''plugins/block_admin.wasm'' then
        Ok (\<lambda>meth path. Ok (if starts_with ''/admin'' path then 1 else 0))
      else if p = ''plugins/trap.wasm'' then Ok (\<lambda>meth path. Err ''unreachable'')
      else Err ''no such file'')"

definition example_wasm :: "(example_module, example_instance) wasm_api" where
  "example_wasm =
     \<lparr>wasm_compile = example_compile,
      wasm_instantiate = (\<lambda>m. Ok (m, \<lambda>_. CHR 0x00)),
      wasm_has_memory = (\<lambda>s. True),
      wasm_write = (\<lambda>s off bs. map_sum id (Pair (fst s)) (mem_write (snd s) off bs)),
      wasm_read = (\<lambda>s a n. mem_read (snd s) a n),
      wasm_get_on_request = (\<lambda>s. Ok ()),
      wasm_call = (\<lambda>(m, mem) (mp, ml, pp, pl). m (mem_read mem (unat mp) (unat ml)) (mem_read mem (unat pp) (unat pl)))\<rparr>"

lemma mem_read_written:
  "mem_write mem off bs = Inr mem' \<Longrightarrow> mem_read mem' off (length bs) = bs"
  unfolding mem_write_def mem_read_def by (rule nth_equalityI) (auto split: if_split_asm)

lemma mem_read_elsewhere:
  "mem_write mem off bs = Inr mem' \<Longrightarrow> a + n \<le> off \<or> off + length bs \<le> a \<Longrightarrow>
   mem_read mem' a n = mem_read mem a n"
  by (auto simp: mem_write_def mem_read_def split: if_splits)

lemma example_wasm_laws: "wasm_laws example_wasm"
proof -
  have "wasm_read example_wasm s' off (length bs) = bs \<and>
      (\<forall>a n. a + n \<le> off \<or> off + length bs \<le> a \<longrightarrow> wasm_read example_wasm s' a n = wasm_read example_wasm s a n)"
    if w: "wasm_write example_wasm s off bs = Inr s'" for s off bs s'
  proof -
    from w obtain mem' where "mem_write (snd s) off bs = Inr mem'" "s' = (fst s, mem')"
      by (cases "mem_write (snd s) off bs") (auto simp: example_wasm_def)
    with mem_read_written mem_read_elsewhere show ?thesis by (simp add: example_wasm_def)
  qed
  then show ?thesis unfolding wasm_laws_def by blast
qed

definition example_plugin :: "path \<Rightarrow> example_module plugin" where
  "example_plugin p = (case plugin_from_file example_wasm p of Inr pl \<Rightarrow> pl)"

subsection \<open>Properties\<close>

text \<open>
  C22: the chain lets a request pass exactly when every plugin does; otherwise its verdict, blocked or
  an error, is that of the first plugin that does not let it pass, and the plugins after it are not
  asked.
\<close>
theorem chain_verdict:
  "run_on_request api rt meth path = r \<longleftrightarrow>
     (if r = Ok False then list_all (passes api meth path) (plugins rt)
      else \<exists>ps pl qs. plugins rt = ps @ pl # qs \<and> list_all (passes api meth path) ps \<and>
             run_plugin api meth path pl = r)"
proof (cases "r = Ok False")
  case True
  then show ?thesis by (simp add: run_on_request_def run_plugins_False)
next
  case False
  have "(\<exists>ps pl qs. plugins rt = ps @ pl # qs \<and> list_all (passes api meth path) ps \<and>
      run_plugin api meth path pl = r) \<Longrightarrow> run_on_request api rt meth path = r"
    using run_plugins_first [OF _ _ False] unfolding run_on_request_def by metis
  with False run_plugins_stops [of api meth path "plugins rt" r] show ?thesis
    by (auto simp: run_on_request_def)
qed

text \<open>
  C23: a plugin that gives a verdict was called with the request in its memory: the method at address
  0 and the path at address 256, with their lengths as arguments; it blocks exactly when it returns
  a number other than 0.
\<close>
theorem plugin_sees_request:
  assumes "wasm_laws api" "run_plugin api meth path pl = Ok blocked"
  shows "\<exists>s result. wasm_call api s (0, of_nat (length meth), 256, of_nat (length path)) = Ok result \<and>
           blocked = (result \<noteq> 0) \<and>
           wasm_read api s 0 (length meth) = meth \<and> wasm_read api s 256 (length path) = path"
  using assms by (rule run_plugin_memory)

theorem plugin_sees_request_witness:
  "\<exists>s result. wasm_call example_wasm s (0, of_nat (length ''GET''), 256, of_nat (length ''/admin/x'')) = Ok result \<and>
     True = (result \<noteq> 0) \<and>
     wasm_read example_wasm s 0 (length ''GET'') = ''GET'' \<and>
     wasm_read example_wasm s 256 (length ''/admin/x'') = ''/admin/x''"
proof -
  have "run_plugin example_wasm ''GET'' ''/admin/x'' (example_plugin ''plugins/block_admin.wasm'') = Ok True"
    by code_simp
  then show ?thesis by (rule plugin_sees_request [OF example_wasm_laws])
qed

end
