(* ===== verification/Http_Types.thy ===== *)
theory Http_Types
  imports Proxy_Prelude
begin

section \<open>HTTP messages and the network\<close>

text \<open>
  What the proxy takes from \<open>http\<close>, \<open>hyper\<close> and \<open>tokio::net\<close>, none of which is part of the
  repository. Requests and responses are the values the code builds and reads; the type of header
  maps, of bodies still to be received, of connections and of the outside world are parameters.
  \<^item> \<open>header_api\<close>: the operations of \<open>http::HeaderMap\<close> the code calls, on lower-case names, and
    whether \<open>HeaderValue::from_str\<close> accepts a text, and \<open>HeaderValue::to_str\<close>. \<open>header_laws\<close> states
    their documentation.
  \<^item> \<open>net\<close>: connecting, the HTTP/1 handshake, sending a request, receiving a body. Each takes
    and returns the world, so nothing is assumed about what an upstream does.
\<close>

subsection \<open>Messages\<close>

text \<open>The two observations the code makes of a \<open>Uri\<close>: \<open>path()\<close> and its \<open>Display\<close> text.\<close>

record uri =
  uri_path :: string
  uri_text :: string

record ('h, 'b) request =
  req_method :: string
  req_uri :: uri
  req_headers :: 'h
  req_body :: 'b

record ('h, 'b) response =
  resp_status :: u16
  resp_headers :: 'h
  resp_body :: 'b

text \<open>\<open>StatusCode::is_success\<close>: within 200 to 299.\<close>

definition status_is_success :: "u16 \<Rightarrow> bool" where
  "status_is_success s \<longleftrightarrow> 200 \<le> s \<and> s \<le> 299"

subsection \<open>Header maps\<close>

record 'h header_api =
  hm_empty :: 'h
  hm_get_all :: "'h \<Rightarrow> string \<Rightarrow> string list"
  hm_insert :: "string \<Rightarrow> string \<Rightarrow> 'h \<Rightarrow> 'h"
  hm_append :: "string \<Rightarrow> string \<Rightarrow> 'h \<Rightarrow> 'h"
  hm_remove :: "string \<Rightarrow> 'h \<Rightarrow> 'h"
  hm_iter :: "'h \<Rightarrow> (string \<times> string) list"
  hv_from_str :: "string \<Rightarrow> bool"
  hv_to_str :: "string \<Rightarrow> string option"

text \<open>\<open>HeaderMap::get\<close>: the first value of the name.\<close>

definition hm_get :: "'h header_api \<Rightarrow> 'h \<Rightarrow> string \<Rightarrow> string option" where
  "hm_get api h k = (case hm_get_all api h k of [] \<Rightarrow> None | v # _ \<Rightarrow> Some v)"

definition values_of :: "string \<Rightarrow> (string \<times> string) list \<Rightarrow> string list" where
  "values_of k kvs = map snd (filter (\<lambda>kv. fst kv = k) kvs)"

lemma values_of_simps [simp]:
  "values_of k [] = []"
  "values_of k (kv # kvs) = (if fst kv = k then snd kv # values_of k kvs else values_of k kvs)"
  "values_of k (kvs @ kvs') = values_of k kvs @ values_of k kvs'"
  by (simp_all add: values_of_def)

text \<open>
  The documented behaviour: \<open>insert\<close> replaces all values of its name, \<open>append\<close> adds one,
  \<open>remove\<close> removes all, the iterator yields every pair with the values of one name in order, and
  a text of visible ASCII is a valid value that \<open>to_str\<close> gives back, as it does no other text.
\<close>

definition header_laws :: "'h header_api \<Rightarrow> bool" where
  "header_laws api \<longleftrightarrow>
     (\<forall>k. hm_get_all api (hm_empty api) k = []) \<and>
     (\<forall>n v h k. hm_get_all api (hm_insert api n v h) k = (if k = n then [v] else hm_get_all api h k)) \<and>
     (\<forall>n v h k. hm_get_all api (hm_append api n v h) k =
        (if k = n then hm_get_all api h k @ [v] else hm_get_all api h k)) \<and>
     (\<forall>n h k. hm_get_all api (hm_remove api n h) k = (if k = n then [] else hm_get_all api h k)) \<and>
     (\<forall>h k. values_of k (hm_iter api h) = hm_get_all api h k) \<and>
     (\<forall>s. visible_ascii s \<longrightarrow> hv_from_str api s \<and> hv_to_str api s = Some s) \<and>
     (\<forall>s t. hv_to_str api s = Some t \<longrightarrow> t = s)"

named_theorems header_simps \<open>the laws of header maps as rewrite rules\<close>

lemma get_all_empty [header_simps]:
  "header_laws api \<Longrightarrow> hm_get_all api (hm_empty api) k = []"
  by (simp add: header_laws_def)

lemma get_all_insert [header_simps]:
  "header_laws api \<Longrightarrow>
   hm_get_all api (hm_insert api n v h) k = (if k = n then [v] else hm_get_all api h k)"
  by (simp add: header_laws_def)

lemma get_all_append [header_simps]:
  "header_laws api \<Longrightarrow>
   hm_get_all api (hm_append api n v h) k =
     (if k = n then hm_get_all api h k @ [v] else hm_get_all api h k)"
  by (simp add: header_laws_def)

lemma get_all_remove [header_simps]:
  "header_laws api \<Longrightarrow>
   hm_get_all api (hm_remove api n h) k = (if k = n then [] else hm_get_all api h k)"
  by (simp add: header_laws_def)

lemma values_of_iter [header_simps]:
  "header_laws api \<Longrightarrow> values_of k (hm_iter api h) = hm_get_all api h k"
  by (simp add: header_laws_def)

lemma hv_from_str_visible [header_simps]:
  "header_laws api \<Longrightarrow> visible_ascii s \<Longrightarrow> hv_from_str api s"
  by (simp add: header_laws_def)

lemma hv_to_str_visible [header_simps]:
  "header_laws api \<Longrightarrow> visible_ascii s \<Longrightarrow> hv_to_str api s = Some s"
  by (simp add: header_laws_def)

lemma hv_to_str_same: "header_laws api \<Longrightarrow> hv_to_str api s = Some t \<Longrightarrow> t = s"
  by (simp add: header_laws_def)

lemma get_all_remove_list:
  "header_laws api \<Longrightarrow>
   hm_get_all api (fold (hm_remove api) ns h) k = (if k \<in> set ns then [] else hm_get_all api h k)"
  by (induction ns arbitrary: h) (auto simp: header_simps)

lemma get_all_append_list:
  "header_laws api \<Longrightarrow>
   hm_get_all api (fold (\<lambda>(n, v). hm_append api n v) kvs h) k = hm_get_all api h k @ values_of k kvs"
  by (induction kvs arbitrary: h) (auto simp: header_simps)

text \<open>A multimap as a list of pairs satisfies the laws.\<close>

definition list_headers :: "(string \<times> string) list header_api" where
  "list_headers =
     \<lparr>hm_empty = [],
      hm_get_all = (\<lambda>h k. values_of k h),
      hm_insert = (\<lambda>n v h. filter (\<lambda>kv. fst kv \<noteq> n) h @ [(n, v)]),
      hm_append = (\<lambda>n v h. h @ [(n, v)]),
      hm_remove = (\<lambda>n h. filter (\<lambda>kv. fst kv \<noteq> n) h),
      hm_iter = (\<lambda>h. h),
      hv_from_str = visible_ascii,
      hv_to_str = (\<lambda>s. if visible_ascii s then Some s else None)\<rparr>"

lemma values_of_filter:
  "values_of k (filter (\<lambda>kv. fst kv \<noteq> n) h) = (if k = n then [] else values_of k h)"
  by (induction h) auto

lemma list_headers_laws: "header_laws list_headers"
  by (simp add: header_laws_def list_headers_def values_of_filter)

subsection \<open>The network\<close>

record ('w, 'io, 'c, 'h, 'b) net =
  tcp_connect :: "string \<Rightarrow> 'w \<Rightarrow> (string + 'io) \<times> 'w"
  http1_handshake :: "'io \<Rightarrow> 'w \<Rightarrow> (string + 'c) \<times> 'w"
  send_request :: "'c \<Rightarrow> ('h, string) request \<Rightarrow> 'w \<Rightarrow> (string + ('h, 'b) response) \<times> 'w"
  collect_body :: "'b \<Rightarrow> 'w \<Rightarrow> (string + string) \<times> 'w"

end
