(* ===== verification/Health_Check.thy ===== *)
theory Health_Check
  imports Http_Types "HOL-Library.Sublist"
begin

section \<open>Upstream health checks (\<open>src/health_check.rs\<close>)\<close>

text \<open>
  One background loop per route polls its upstream and owns two 32-bit counters; it sets the
  route's shared flag. \<open>upstream_health_step\<close> is one turn of the loop for a given ping result,
  \<open>ping\<close> the poll itself. The abstract specification \<open>hysteresis\<close> reads the status off the history
  of results: the last run of results long enough to decide. The loop implements it
  (\<open>health_run_refines\<close>), for histories of less than \<open>2 ^ 32\<close> polls (over a thousand years), after
  which a counter may wrap around.
\<close>

subsection \<open>The flag cells\<close>

text \<open>\<open>Arc<AtomicBool>\<close>: cells shared by address, in the order they were allocated.\<close>

type_synonym flag_heap = "bool list"

definition flag_load :: "flag_heap \<Rightarrow> nat \<Rightarrow> bool" where
  "flag_load hp a \<longleftrightarrow> a < length hp \<and> hp ! a"

definition flag_store :: "flag_heap \<Rightarrow> nat \<Rightarrow> bool \<Rightarrow> flag_heap" where
  "flag_store hp a b = hp[a := b]"

definition flag_alloc :: "flag_heap \<Rightarrow> bool \<Rightarrow> nat \<times> flag_heap" where
  "flag_alloc hp b = (length hp, hp @ [b])"

lemma flag_load_store:
  "flag_load (flag_store hp a b) c = (if c = a \<and> a < length hp then b else flag_load hp c)"
  by (auto simp: flag_load_def flag_store_def nth_list_update)

lemma flag_store_down [simp]: "\<not> flag_load (flag_store hp a False) a"
  by (auto simp: flag_load_def flag_store_def)

text \<open>Stores into other cells do not show.\<close>

lemma stores_elsewhere:
  assumes "\<forall>a \<in> fst ` set stores. a \<noteq> x"
  shows "flag_load (fold (\<lambda>(a, b) h. flag_store h a b) stores hp) x = flag_load hp x"
  using assms by (induction stores arbitrary: hp) (auto simp: flag_load_store)

lemma length_flag_store [simp]: "length (flag_store hp a b) = length hp"
  by (simp add: flag_store_def)

subsection \<open>One poll\<close>

text \<open>
  What a poll takes from \<open>tokio\<close> and \<open>hyper\<close>: \<open>None\<close> is the five-second timeout. The request is a
  \<open>GET\<close> of \<open>/health\<close>, whose builder fails when the address is not a valid header value.
\<close>

record ('w, 'io, 'c, 'h, 'b) probe_net =
  probe_connect :: "string \<Rightarrow> 'w \<Rightarrow> (string + 'io) option \<times> 'w"
  probe_handshake :: "'io \<Rightarrow> 'w \<Rightarrow> (string + 'c) \<times> 'w"
  probe_send :: "'c \<Rightarrow> ('h, string) request \<Rightarrow> 'w \<Rightarrow> (string + ('h, 'b) response) option \<times> 'w"

definition health_request :: "'h header_api \<Rightarrow> string \<Rightarrow> ('h, string) request option" where
  "health_request api addr =
     (if hv_from_str api addr then
        Some \<lparr>req_method = ''GET'', req_uri = \<lparr>uri_path = ''/health'', uri_text = ''/health''\<rparr>,
              req_headers = hm_append api ''host'' addr (hm_empty api), req_body = []\<rparr>
      else None)"

definition ping ::
  "'h header_api \<Rightarrow> ('w, 'io, 'c, 'h, 'b) probe_net \<Rightarrow> string \<Rightarrow> 'w \<Rightarrow> bool \<times> 'w" where
  "ping api net addr w =
     (case probe_connect net addr w of
        (Some (Inr io), w1) \<Rightarrow>
          (case probe_handshake net io w1 of
             (Inr c, w2) \<Rightarrow>
               (case health_request api addr of
                  None \<Rightarrow> (False, w2)
                | Some req \<Rightarrow>
                    (case probe_send net c req w2 of
                       (Some (Inr resp), w3) \<Rightarrow> (status_is_success (resp_status resp), w3)
                     | (_, w3) \<Rightarrow> (False, w3)))
           | (Inl _, w2) \<Rightarrow> (False, w2))
      | (_, w1) \<Rightarrow> (False, w1))"

subsection \<open>One turn of the loop\<close>

record health =
  consecutive_failures :: u32
  consecutive_successes :: u32

definition health_init :: health where
  "health_init = \<lparr>consecutive_failures = 0, consecutive_successes = 0\<rparr>"

definition upstream_health_step ::
  "u32 \<Rightarrow> u32 \<Rightarrow> bool \<Rightarrow> health \<times> bool \<Rightarrow> health \<times> bool" where
  "upstream_health_step fail_threshold recover_threshold ok hs =
     (case hs of (st, healthy) \<Rightarrow>
        (if ok then
           (let st' = st\<lparr>consecutive_failures := 0, consecutive_successes := consecutive_successes st + 1\<rparr>
            in (st', if \<not> healthy \<and> recover_threshold \<le> consecutive_successes st' then True else healthy))
         else
           (let st' = st\<lparr>consecutive_successes := 0, consecutive_failures := consecutive_failures st + 1\<rparr>
            in (st', if healthy \<and> fail_threshold \<le> consecutive_failures st' then False else healthy))))"

text \<open>
  A turn of the task polling \<open>addr\<close> for the flag cell \<open>a\<close>: poll, read the flag, store it if it changes.
\<close>

definition upstream_health_tick ::
  "'h header_api \<Rightarrow> ('w, 'io, 'c, 'h, 'b) probe_net \<Rightarrow> u32 \<Rightarrow> u32 \<Rightarrow> string \<Rightarrow> nat \<Rightarrow>
   health \<times> flag_heap \<times> 'w \<Rightarrow> health \<times> flag_heap \<times> 'w" where
  "upstream_health_tick api net fail_threshold recover_threshold addr a s =
     (case s of (st, hp, w) \<Rightarrow>
        (case ping api net addr w of
           (ok, w1) \<Rightarrow>
             (case upstream_health_step fail_threshold recover_threshold ok (st, flag_load hp a) of
                (st1, b) \<Rightarrow> (st1, if b = flag_load hp a then hp else flag_store hp a b, w1))))"

primrec upstream_health_loop ::
  "'h header_api \<Rightarrow> ('w, 'io, 'c, 'h, 'b) probe_net \<Rightarrow> u32 \<Rightarrow> u32 \<Rightarrow> string \<Rightarrow> nat \<Rightarrow> nat \<Rightarrow>
   health \<times> flag_heap \<times> 'w \<Rightarrow> health \<times> flag_heap \<times> 'w" where
  "upstream_health_loop api net ft rt addr a 0 s = s"
| "upstream_health_loop api net ft rt addr a (Suc n) s =
     upstream_health_loop api net ft rt addr a n (upstream_health_tick api net ft rt addr a s)"

text \<open>The results of successive polls.\<close>

primrec poll_results ::
  "'h header_api \<Rightarrow> ('w, 'io, 'c, 'h, 'b) probe_net \<Rightarrow> string \<Rightarrow> nat \<Rightarrow> 'w \<Rightarrow> bool list" where
  "poll_results api net addr 0 w = []"
| "poll_results api net addr (Suc n) w =
     (case ping api net addr w of (ok, w1) \<Rightarrow> ok # poll_results api net addr n w1)"

lemma length_poll_results [simp]: "length (poll_results api net addr n w) = n"
  by (induction n arbitrary: w) (simp_all split: prod.split)

definition health_run :: "u32 \<Rightarrow> u32 \<Rightarrow> bool list \<Rightarrow> health \<times> bool \<Rightarrow> health \<times> bool" where
  "health_run ft rt oks hs = fold (upstream_health_step ft rt) oks hs"

lemma health_run_simps [simp]:
  "health_run ft rt [] hs = hs"
  "health_run ft rt (ok # oks) hs = health_run ft rt oks (upstream_health_step ft rt ok hs)"
  "health_run ft rt (oks @ [ok]) hs = upstream_health_step ft rt ok (health_run ft rt oks hs)"
  by (simp_all add: health_run_def)

subsection \<open>The specification: hysteresis over the history\<close>

text \<open>The history is newest first; \<open>run_len b\<close> is how many of the newest results are \<open>b\<close>.\<close>

definition run_len :: "bool \<Rightarrow> bool list \<Rightarrow> nat" where
  "run_len b h = length (takeWhile (\<lambda>x. x = b) h)"

lemma run_len_simps [simp]:
  "run_len b [] = 0"
  "run_len b (x # h) = (if x = b then Suc (run_len b h) else 0)"
  by (simp_all add: run_len_def)

lemma run_len_le: "run_len b h \<le> length h"
  by (simp add: run_len_def length_takeWhile_le)

fun hysteresis :: "nat \<Rightarrow> nat \<Rightarrow> bool \<Rightarrow> bool list \<Rightarrow> bool" where
  "hysteresis ft rt b [] = b"
| "hysteresis ft rt b (ok # h) =
     (if ok \<and> rt \<le> run_len True (ok # h) then True
      else if \<not> ok \<and> ft \<le> run_len False (ok # h) then False
      else hysteresis ft rt b h)"

lemma of_nat_Suc_le_u32:
  "Suc n < 2 ^ 32 \<Longrightarrow> (t :: u32) \<le> 1 + of_nat n \<longleftrightarrow> unat t \<le> Suc n"
proof -
  assume n: "Suc n < 2 ^ 32"
  then have "unat (of_nat (Suc n) :: u32) = Suc n" by (simp add: unat_of_nat del: of_nat_Suc)
  moreover have "1 + of_nat n = (of_nat (Suc n) :: u32)" by simp
  ultimately show ?thesis by (simp only: word_le_nat_alt)
qed

text \<open>
  The simulation: the counters are the lengths of the newest runs and the flag is the specified
  status.
\<close>

lemma health_run_refines:
  assumes "length oks < 2 ^ 32"
  shows "health_run ft rt oks (health_init, b) =
     (\<lparr>consecutive_failures = of_nat (run_len False (rev oks)),
       consecutive_successes = of_nat (run_len True (rev oks))\<rparr>,
      hysteresis (unat ft) (unat rt) b (rev oks))"
  using assms
proof (induction oks rule: rev_induct)
  case Nil
  then show ?case by (simp add: health_init_def)
next
  case (snoc ok oks)
  have "run_len b (rev oks) < 2 ^ 32 - 1" for b
    using run_len_le [of b "rev oks"] snoc.prems by simp
  then have le: "(t :: u32) \<le> 1 + of_nat (run_len b (rev oks)) \<longleftrightarrow> unat t \<le> Suc (run_len b (rev oks))" for t b
    by (intro of_nat_Suc_le_u32) (metis Suc_eq_plus1 less_diff_conv)
  from snoc show ?case
    by (cases ok) (simp_all add: upstream_health_step_def le add.commute)
qed

subsection \<open>What the thresholds mean\<close>

lemma hysteresis_run:
  "0 < n \<Longrightarrow> run_len b h = n \<Longrightarrow> (if b then rt else ft) \<le> n \<Longrightarrow> hysteresis ft rt b0 h = b"
  by (cases h) (auto split: if_splits)

lemma run_len_sublist: "n \<le> run_len b h \<Longrightarrow> sublist (replicate n b) h"
proof -
  let ?run = "takeWhile (\<lambda>x. x = b) h"
  assume "n \<le> run_len b h"
  then have n: "n \<le> length ?run" by (simp add: run_len_def)
  then have "take n ?run = replicate n b" by (intro replicate_eqI) (auto dest!: in_set_takeD set_takeWhileD)
  moreover have "take n ?run = take n h" using n by (metis append_eq_conv_conj takeWhile_dropWhile_id take_append
      take_take min.absorb1 append_Nil2 diff_is_0_eq' take0)
  ultimately show ?thesis by (metis sublist_take)
qed

lemma hysteresis_no_long_run:
  assumes "\<not> sublist (replicate (if b then ft else rt) (\<not> b)) h"
  shows "hysteresis ft rt b h = b"
  using assms
proof (induction h)
  case Nil
  then show ?case by simp
next
  case (Cons ok h)
  let ?n = "if b then ft else rt"
  from Cons.prems have "\<not> sublist (replicate ?n (\<not> b)) h"
    by (meson sublist_Cons_right)
  then have IH: "hysteresis ft rt b h = b" by (rule Cons.IH)
  have "run_len (\<not> b) (ok # h) < ?n" using Cons.prems run_len_sublist by (metis linorder_not_less)
  with IH show ?case by (cases b; cases ok) auto
qed

text \<open>Once down, the status stays down while no long enough run of successes comes.\<close>

lemma run_len_stops: "run_len True (h @ False # h') = run_len True h"
  by (induction h) auto

lemma hysteresis_stays_down:
  assumes "0 < n" "ft \<le> n" "\<not> sublist (replicate rt True) h"
  shows "hysteresis ft rt b (h @ replicate n False @ old) = False"
  using assms(3)
proof (induction h)
  case Nil
  have "n \<le> run_len False (replicate n False @ old)" by (simp add: run_len_def takeWhile_append)
  with assms(1,2) hysteresis_run [of "run_len False (replicate n False @ old)" False "replicate n False @ old" rt ft b]
  show ?case by simp
next
  case (Cons ok h)
  obtain m where n: "n = Suc m" using assms(1) by (cases n) simp_all
  have "run_len True (ok # h @ replicate n False @ old) = run_len True (ok # h)"
    using run_len_stops [of "ok # h" "replicate m False @ old"] by (simp add: n)
  moreover have "run_len True (ok # h) < rt" using Cons.prems run_len_sublist by (metis linorder_not_less)
  moreover have "hysteresis ft rt b (h @ replicate n False @ old) = False"
    using Cons by (meson sublist_Cons_right)
  ultimately show ?case by auto
qed

locale thresholds =
  fixes ft rt :: u32
  assumes ft_pos: "0 < ft" and rt_pos: "0 < rt"
begin

text \<open>Enough failures in a row at the end mark the upstream unhealthy, whatever came before.\<close>

lemma marks_unhealthy:
  assumes "length (oks @ replicate n False) < 2 ^ 32" "unat ft \<le> n"
  shows "snd (health_run ft rt (oks @ replicate n False) (health_init, b)) = False"
proof -
  have pos: "0 < n" using assms(2) ft_pos by (metis gr0I le_zero_eq unat_gt_0 less_irrefl)
  have run: "n \<le> run_len False (replicate n False @ rev oks)"
    by (simp add: run_len_def takeWhile_append)
  show ?thesis
    using hysteresis_run [of "run_len False (replicate n False @ rev oks)" False
        "replicate n False @ rev oks" "unat rt" "unat ft" b]
      pos run assms by (simp add: health_run_refines)
qed

text \<open>And it stays so until enough successes in a row.\<close>

lemma stays_unhealthy:
  assumes "length (oks @ replicate n False @ later) < 2 ^ 32" "unat ft \<le> n"
    and "\<not> sublist (replicate (unat rt) True) later"
  shows "snd (health_run ft rt (oks @ replicate n False @ later) (health_init, b)) = False"
proof -
  have pos: "0 < n" using assms(2) ft_pos by (metis gr0I le_zero_eq unat_gt_0 less_irrefl)
  have "\<not> sublist (replicate (unat rt) True) (rev later)"
    using assms(3) by (metis rev_replicate rev_rev_ident sublist_rev)
  from hysteresis_stays_down [OF pos assms(2) this, of b "rev oks"] show ?thesis
    by (simp add: health_run_refines [OF assms(1)] del: health_run_simps)
qed

lemma recovers:
  assumes "length (oks @ replicate n True) < 2 ^ 32" "unat rt \<le> n"
  shows "snd (health_run ft rt (oks @ replicate n True) (health_init, b)) = True"
proof -
  have pos: "0 < n" using assms(2) rt_pos by (metis gr0I le_zero_eq unat_gt_0 less_irrefl)
  have run: "n \<le> run_len True (replicate n True @ rev oks)"
    by (simp add: run_len_def takeWhile_append)
  show ?thesis
    using hysteresis_run [of "run_len True (replicate n True @ rev oks)" True
        "replicate n True @ rev oks" "unat rt" "unat ft" b]
      pos run assms by (simp add: health_run_refines)
qed

text \<open>Without a long enough run of contrary results the status never changes.\<close>

lemma keeps_status:
  assumes "length oks < 2 ^ 32" "\<not> sublist (replicate (unat (if b then ft else rt)) (\<not> b)) oks"
  shows "snd (health_run ft rt oks (health_init, b)) = b"
proof -
  have "\<not> sublist (replicate (if b then unat ft else unat rt) (\<not> b)) (rev oks)"
  proof
    assume "sublist (replicate (if b then unat ft else unat rt) (\<not> b)) (rev oks)"
    then have "sublist (rev (replicate (if b then unat ft else unat rt) (\<not> b))) oks"
      by (metis rev_rev_ident sublist_rev)
    with assms(2) show False by (auto split: if_splits)
  qed
  from hysteresis_no_long_run [OF this] assms(1) show ?thesis by (simp add: health_run_refines)
qed

end

text \<open>The constants of \<open>src/server.rs\<close>: three failures, two successes.\<close>

definition fail_threshold :: u32 where "fail_threshold = 3"

definition recover_threshold :: u32 where "recover_threshold = 2"

interpretation hc: thresholds fail_threshold recover_threshold
  by unfold_locales (simp_all add: fail_threshold_def recover_threshold_def)

subsection \<open>Properties\<close>

text \<open>The loop on the shared flag is \<open>health_run\<close> on the results of its polls.\<close>

lemma upstream_health_loop_run:
  assumes "a < length hp"
  shows "\<exists>w'. upstream_health_loop api net ft rt addr a n (st, hp, w) =
     (case health_run ft rt (poll_results api net addr n w) (st, flag_load hp a) of
        (st', b) \<Rightarrow> (st', flag_store hp a b, w'))"
  using assms
proof (induction n arbitrary: st hp w)
  case 0
  then show ?case by (simp add: flag_load_def flag_store_def)
next
  case (Suc n)
  obtain ok w1 where poll: "ping api net addr w = (ok, w1)" by force
  obtain st1 b where step: "upstream_health_step ft rt ok (st, flag_load hp a) = (st1, b)" by force
  let ?hp = "if b = flag_load hp a then hp else flag_store hp a b"
  have "a < length ?hp" "flag_load ?hp a = b" "flag_store ?hp a c = flag_store hp a c" for c
    using Suc.prems by (simp_all add: flag_load_store) (simp add: flag_store_def)
  with Suc.IH [of ?hp st1 w1] poll step show ?case
    by (simp add: upstream_health_tick_def split: prod.splits)
qed

text \<open>
  C10: after any number of polls the route's flag is what the hysteresis specification says of the
  history of their results, and no other flag has changed.
\<close>
theorem health_loop_implements_hysteresis:
  assumes "a < length hp" "n < 2 ^ 32"
  shows "\<exists>st w'. upstream_health_loop api net ft rt addr a n (health_init, hp, w) =
     (st, flag_store hp a (hysteresis (unat ft) (unat rt) (flag_load hp a) (rev (poll_results api net addr n w))), w')"
proof -
  have "length (poll_results api net addr n w) < 2 ^ 32" using assms(2) by simp
  from upstream_health_loop_run [OF assms(1), of api net ft rt addr n health_init w]
    health_run_refines [OF this, of ft rt "flag_load hp a"]
  show ?thesis by auto
qed

text \<open>An upstream for examples: it answers polls for a while, then refuses connections.\<close>

definition fading_probe :: "(nat, unit, unit, (string \<times> string) list, unit) probe_net" where
  "fading_probe =
     \<lparr>probe_connect = (\<lambda>a w. (if w < 2 then Some (Ok ()) else if w < 4 then Some (Err ''refused'') else None, Suc w)),
      probe_handshake = (\<lambda>io w. (Ok (), w)),
      probe_send = (\<lambda>c req w. (Some (Ok \<lparr>resp_status = 204, resp_headers = [], resp_body = ()\<rparr>), w))\<rparr>"

theorem health_loop_implements_hysteresis_witness:
  "\<exists>st w'. upstream_health_loop list_headers fading_probe 3 2 ''10.0.0.1:80'' 1 5 (health_init, [True, True], 0) =
     (st, [True, False], w')"
proof -
  have "flag_store [True, True] 1 (hysteresis (unat (3 :: u32)) (unat (2 :: u32)) (flag_load [True, True] 1)
      (rev (poll_results list_headers fading_probe ''10.0.0.1:80'' 5 0))) = [True, False]" by code_simp
  then show ?thesis
    using health_loop_implements_hysteresis [of 1 "[True, True]" 5 list_headers fading_probe 3 2 "''10.0.0.1:80''" 0]
    by simp
qed

text \<open>
  With the server's thresholds an upstream is marked unhealthy by any three failures in a row,
  recovers by any two successes in a row, and is never marked unhealthy without three failures in
  a row.
\<close>
theorem health_flag_thresholds:
  assumes "length oks + 3 < 2 ^ 32"
  shows "snd (health_run fail_threshold recover_threshold (oks @ [False, False, False]) (health_init, b)) = False \<and>
    snd (health_run fail_threshold recover_threshold (oks @ [True, True]) (health_init, b)) = True \<and>
    (\<not> sublist [False, False, False] oks \<longrightarrow>
      snd (health_run fail_threshold recover_threshold oks (health_init, True)) = True)"
proof (intro conjI impI)
  have three: "replicate 3 False = [False, False, False]" "replicate 2 True = [True, True]"
    by (simp_all add: numeral_3_eq_3 numeral_2_eq_2)
  show "snd (health_run fail_threshold recover_threshold (oks @ [False, False, False]) (health_init, b)) = False"
    using hc.marks_unhealthy [of oks 3 b] assms by (simp add: three fail_threshold_def del: health_run_simps)
  show "snd (health_run fail_threshold recover_threshold (oks @ [True, True]) (health_init, b)) = True"
    using hc.recovers [of oks 2 b] assms by (simp add: three recover_threshold_def del: health_run_simps)
  show "snd (health_run fail_threshold recover_threshold oks (health_init, True)) = True"
    if "\<not> sublist [False, False, False] oks"
    using hc.keeps_status [of oks True] assms that by (simp add: three fail_threshold_def)
qed

theorem health_flag_thresholds_witness:
  "snd (health_run fail_threshold recover_threshold [True, False, False, False] (health_init, True)) = False \<and>
   snd (health_run fail_threshold recover_threshold [False, False, True, False, False] (health_init, True)) = True"
proof
  show "snd (health_run fail_threshold recover_threshold [True, False, False, False] (health_init, True)) = False"
    using health_flag_thresholds [of "[True]" True] by simp
  have "\<not> sublist [False, False, False] [False, False, True, False, False]" by (simp add: sublist_code)
  then show "snd (health_run fail_threshold recover_threshold [False, False, True, False, False] (health_init, True)) = True"
    using health_flag_thresholds [of "[False, False, True, False, False]"] by simp
qed

end
