(* ===== verification/App_State.thy ===== *)
theory App_State
  imports Tls_State Plugin Health_Check
begin

section \<open>Application state (\<open>src/state.rs\<close>)\<close>

text \<open>
  \<open>build_state\<close> turns a configuration into the state the handlers read: the routes with their
  compiled plugins and a fresh health flag each, and the TLS state if the certificate files are in
  the cache. The health flag is a shared cell, so a route holds its address and building allocates
  it in the flag heap, which is threaded through.
\<close>

record 'm route_state =
  rs_route :: route_config
  rs_runtime :: "'m plugin_runtime"
  rs_healthy :: nat

record ('m, 'acc) app_state =
  app_timeout_ms :: u64
  app_routes :: "'m route_state list"
  app_tls :: "'acc tls_state option"

text \<open>The inner loop: load the plugins of one route.\<close>

fun load_plugins ::
  "('m, 's) wasm_api \<Rightarrow> path list \<Rightarrow> 'm plugin_runtime \<Rightarrow> proxy_error + 'm plugin_runtime" where
  "load_plugins api [] rt = Ok rt"
| "load_plugins api (p # ps) rt =
     result_bind (plugin_load api p rt) (\<lambda>rt'. load_plugins api ps rt')"

text \<open>The loop over the routes; on an error the cells allocated so far stay behind, unreachable.\<close>

fun build_routes ::
  "('m, 's) wasm_api \<Rightarrow> route_config list \<Rightarrow> flag_heap \<Rightarrow> (proxy_error + 'm route_state list) \<times> flag_heap" where
  "build_routes api [] hp = (Ok [], hp)"
| "build_routes api (r # rs) hp =
     (case result_bind plugin_runtime_new (load_plugins api (route_plugins r)) of
        Inl e \<Rightarrow> (Err e, hp)
      | Inr rt \<Rightarrow>
          (case flag_alloc hp True of (a, hp1) \<Rightarrow>
             (case build_routes api rs hp1 of
                (Inl e, hp2) \<Rightarrow> (Err e, hp2)
              | (Inr sts, hp2) \<Rightarrow>
                  (Ok (\<lparr>rs_route = r, rs_runtime = rt, rs_healthy = a\<rparr> # sts), hp2))))"

definition cert_file :: "tls_config \<Rightarrow> path" where
  "cert_file tc = path_join (cache_dir tc) ''cert.pem''"

definition key_file :: "tls_config \<Rightarrow> path" where
  "key_file tc = path_join (cache_dir tc) ''key.pem''"

definition build_tls ::
  "('cert, 'key, 'srv, 'acc) tls_api \<Rightarrow> faults \<Rightarrow> files \<Rightarrow> tls_config option \<Rightarrow>
   proxy_error + 'acc tls_state option" where
  "build_tls api faults fs mtc =
     (case mtc of
        None \<Rightarrow> Ok None
      | Some tc \<Rightarrow>
          (if fs_exists faults fs (cert_file tc) \<and> fs_exists faults fs (key_file tc) then
             result_bind (map_err (\<lambda>e. TlsError (''read cert.pem: '' @ e)) (fs_read faults fs (cert_file tc)))
               (\<lambda>cert_pem.
             result_bind (map_err (\<lambda>e. TlsError (''read key.pem: '' @ e)) (fs_read faults fs (key_file tc)))
               (\<lambda>key_pem.
             result_bind (build_tls_state api tc cert_pem key_pem) (\<lambda>ts. Ok (Some ts))))
           else Ok None))"

definition build_state ::
  "('m, 's) wasm_api \<Rightarrow> ('cert, 'key, 'srv, 'acc) tls_api \<Rightarrow> faults \<Rightarrow> files \<Rightarrow> config \<Rightarrow> flag_heap \<Rightarrow>
   (proxy_error + ('m, 'acc) app_state) \<times> flag_heap" where
  "build_state wasm tapi faults fs c hp =
     (case build_routes wasm (routes c) hp of
        (Inl e, hp1) \<Rightarrow> (Err e, hp1)
      | (Inr sts, hp1) \<Rightarrow>
          (result_bind (build_tls tapi faults fs (tls c))
             (\<lambda>t. Ok \<lparr>app_timeout_ms = timeout_ms (server c), app_routes = sts, app_tls = t\<rparr>), hp1))"

subsection \<open>What a built state holds\<close>

text \<open>
  \<open>fresh_routes hp hp' sts\<close>: the routes' cells are the ones allocated between the heaps, in order,
  and all hold \<open>true\<close>; older cells keep their value.
\<close>

definition fresh_routes :: "flag_heap \<Rightarrow> flag_heap \<Rightarrow> 'm route_state list \<Rightarrow> bool" where
  "fresh_routes hp hp' sts \<longleftrightarrow>
     map rs_healthy sts = [length hp..<length hp + length sts] \<and>
     hp' = hp @ replicate (length sts) True"

lemma load_plugins_modules:
  "load_plugins api ps rt = Inr rt' \<Longrightarrow>
   \<exists>pls. plugins rt' = plugins rt @ pls \<and> map Inr pls = map (plugin_from_file api) ps"
proof (induction ps arbitrary: rt)
  case Nil
  then show ?case by simp
next
  case (Cons p ps)
  from Cons.prems obtain pl where pl: "plugin_from_file api p = Inr pl"
    and rest: "load_plugins api ps (rt\<lparr>plugins := plugins rt @ [pl]\<rparr>) = Inr rt'"
    by (auto simp: plugin_load_def result_simps)
  from Cons.IH [OF rest] obtain pls where
    "plugins rt' = plugins rt @ pl # pls" "map Inr pls = map (plugin_from_file api) ps" by auto
  with pl have "plugins rt' = plugins rt @ (pl # pls) \<and>
      map Inr (pl # pls) = map (plugin_from_file api) (p # ps)" by simp
  then show ?case by blast
qed

lemma build_routes_Ok:
  assumes "build_routes api rs hp = (Inr sts, hp')"
  shows "map rs_route sts = rs \<and> fresh_routes hp hp' sts \<and>
    list_all (\<lambda>st. map Inr (plugins (rs_runtime st)) =
                     map (plugin_from_file api) (route_plugins (rs_route st))) sts"
  using assms
proof (induction rs arbitrary: hp sts)
  case Nil
  then show ?case by (simp add: fresh_routes_def)
next
  case (Cons r rs)
  from Cons.prems obtain rt sts' where
    rt: "load_plugins api (route_plugins r) \<lparr>plugins = []\<rparr> = Inr rt" and
    rest: "build_routes api rs (hp @ [True]) = (Inr sts', hp')" and
    sts: "sts = \<lparr>rs_route = r, rs_runtime = rt, rs_healthy = length hp\<rparr> # sts'"
    by (auto simp: plugin_runtime_new_def flag_alloc_def split: sum.splits prod.splits)
  from load_plugins_modules [OF rt] Cons.IH [OF rest] show ?case
    by (auto simp: sts fresh_routes_def upt_conv_Cons simp del: upt_Suc)
qed

lemma build_routes_heap:
  "build_routes api rs hp = (r, hp') \<Longrightarrow> \<exists>n. hp' = hp @ replicate n True"
proof (induction rs arbitrary: hp r hp')
  case Nil
  then show ?case by (intro exI [of _ 0]) simp
next
  case (Cons x rs)
  show ?case
  proof (cases "result_bind plugin_runtime_new (load_plugins api (route_plugins x))")
    case (Inl e)
    with Cons.prems show ?thesis by (intro exI [of _ 0]) simp
  next
    case (Inr rt)
    obtain r1 hp1 where rest: "build_routes api rs (hp @ [True]) = (r1, hp1)" by force
    with Cons.IH obtain n where "hp1 = (hp @ [True]) @ replicate n True" by blast
    moreover from Cons.prems Inr rest have "hp' = hp1"
      by (auto simp: flag_alloc_def split: sum.splits)
    ultimately show ?thesis by (intro exI [of _ "Suc n"]) simp
  qed
qed

lemma build_state_heap:
  "build_state wasm tapi faults fs c hp = (r, hp') \<Longrightarrow> \<exists>n. hp' = hp @ replicate n True"
  by (auto simp: build_state_def split: prod.splits sum.splits dest: build_routes_heap)

lemma build_state_Ok:
  assumes "build_state wasm tapi faults fs c hp = (Inr st, hp')"
  shows "map rs_route (app_routes st) = routes c \<and> fresh_routes hp hp' (app_routes st) \<and>
    list_all (\<lambda>s. map Inr (plugins (rs_runtime s)) =
                    map (plugin_from_file wasm) (route_plugins (rs_route s))) (app_routes st) \<and>
    app_timeout_ms st = timeout_ms (server c) \<and>
    build_tls tapi faults fs (tls c) = Inr (app_tls st)"
proof -
  from assms have routes: "build_routes wasm (routes c) hp = (Inr (app_routes st), hp')"
    and rest: "build_tls tapi faults fs (tls c) = Inr (app_tls st)"
      "app_timeout_ms st = timeout_ms (server c)"
    by (auto simp: build_state_def result_simps split: prod.splits sum.splits)
  from build_routes_Ok [OF routes] rest show ?thesis by simp
qed

lemma fresh_routes_healthy:
  assumes "fresh_routes hp hp' sts" "st \<in> set sts"
  shows "flag_load hp' (rs_healthy st) \<and> length hp \<le> rs_healthy st \<and> rs_healthy st < length hp'"
proof -
  from assms(2) have "rs_healthy st \<in> set (map rs_healthy sts)" by simp
  with assms(1) have range: "length hp \<le> rs_healthy st" "rs_healthy st < length hp + length sts"
    by (auto simp: fresh_routes_def)
  with assms(1) show ?thesis
    by (auto simp: fresh_routes_def flag_load_def nth_append)
qed

lemma build_tls_present:
  "build_tls tapi faults fs (Some tc) = Inr (Some ts) \<Longrightarrow>
   \<exists>cert key. fs (cert_file tc) = Some cert \<and> fs (key_file tc) = Some key \<and>
     build_tls_state tapi tc cert key = Inr ts"
  by (auto simp: build_tls_def fs_read_def result_simps split: if_splits option.splits)

lemma build_tls_absent:
  "build_tls tapi faults fs mtc = Inr None \<longleftrightarrow>
   (case mtc of None \<Rightarrow> True
    | Some tc \<Rightarrow> \<not> (fs_exists faults fs (cert_file tc) \<and> fs_exists faults fs (key_file tc)))"
  by (auto simp: build_tls_def result_simps split: option.splits)

subsection \<open>Properties\<close>

text \<open>
  A built state has the configuration's routes in order, each with its plugins compiled in the
  order they are listed and a health flag of its own that no earlier state has, which is up; flags
  of earlier states keep their value.
\<close>
theorem built_state_routes:
  assumes "build_state wasm tapi faults fs c hp = (Ok st, hp')"
  shows "map rs_route (app_routes st) = routes c \<and>
    (\<forall>rs \<in> set (app_routes st).
       map Ok (plugins (rs_runtime rs)) = map (plugin_from_file wasm) (route_plugins (rs_route rs)) \<and>
       length hp \<le> rs_healthy rs \<and> flag_load hp' (rs_healthy rs)) \<and>
    distinct (map rs_healthy (app_routes st)) \<and>
    (\<forall>a < length hp. flag_load hp' a = flag_load hp a) \<and>
    app_timeout_ms st = timeout_ms (server c)"
  using build_state_Ok [OF assms] fresh_routes_healthy [of hp hp' "app_routes st"]
  by (auto simp: list_all_iff fresh_routes_def flag_load_def nth_append)

text \<open>
  A built state terminates TLS exactly when the configuration has a TLS section and both
  certificate files are there to be seen; then its acceptor is made from a non-empty chain and the
  key read from those two files.
\<close>
theorem built_state_tls:
  assumes "build_state wasm tapi faults fs c hp = (Ok st, hp')"
  shows "(app_tls st \<noteq> None \<longleftrightarrow>
            (\<exists>tc. tls c = Some tc \<and> fs_exists faults fs (cert_file tc) \<and> fs_exists faults fs (key_file tc))) \<and>
    (\<forall>ts tc. app_tls st = Some ts \<and> tls c = Some tc \<longrightarrow>
       (\<exists>cert_pem key_pem certs key srv. fs (cert_file tc) = Some cert_pem \<and> fs (key_file tc) = Some key_pem \<and>
          pem_certs tapi cert_pem = map Ok certs \<and> certs \<noteq> [] \<and>
          pem_private_key tapi key_pem = Ok (Some key) \<and> with_single_cert tapi certs key = Ok srv \<and>
          acceptor ts = tls_acceptor tapi srv alpn_protocols \<and> tls_domains ts = domains tc))"
proof -
  from build_state_Ok [OF assms] have tls: "build_tls tapi faults fs (tls c) = Ok (app_tls st)" by blast
  have "app_tls st = None \<longleftrightarrow> (case tls c of None \<Rightarrow> True
      | Some tc \<Rightarrow> \<not> (fs_exists faults fs (cert_file tc) \<and> fs_exists faults fs (key_file tc)))"
    using build_tls_absent [of tapi faults fs "tls c"] tls by auto
  moreover have "\<exists>cert_pem key_pem certs key srv. fs (cert_file tc) = Some cert_pem \<and>
      fs (key_file tc) = Some key_pem \<and> pem_certs tapi cert_pem = map Ok certs \<and> certs \<noteq> [] \<and>
      pem_private_key tapi key_pem = Ok (Some key) \<and> with_single_cert tapi certs key = Ok srv \<and>
      acceptor ts = tls_acceptor tapi srv alpn_protocols \<and> tls_domains ts = domains tc"
    if "app_tls st = Some ts" "tls c = Some tc" for ts tc
  proof -
    from that tls obtain cert key where files: "fs (cert_file tc) = Some cert" "fs (key_file tc) = Some key"
      and built: "build_tls_state tapi tc cert key = Ok ts"
      using build_tls_present [of tapi faults fs tc ts] by auto
    from built obtain certs k srv where "pem_certs tapi cert = map Ok certs" "certs \<noteq> []"
      "pem_private_key tapi key = Ok (Some k)" "with_single_cert tapi certs k = Ok srv"
      "ts = \<lparr>acceptor = tls_acceptor tapi srv alpn_protocols, tls_domains = domains tc\<rparr>"
      unfolding build_tls_state_Ok by blast
    with files show ?thesis by simp
  qed
  ultimately show ?thesis by (auto split: option.splits)
qed

text \<open>A TLS library and files for examples: a PEM text is its own certificate or key.\<close>

definition example_tls :: "(string, string, string list \<times> string, string) tls_api" where
  "example_tls =
     \<lparr>pem_certs = (\<lambda>s. if s = [] then [] else [Ok s]), pem_private_key = (\<lambda>s. Ok (Some s)),
      with_single_cert = (\<lambda>certs key. Ok (certs, key)), tls_acceptor = (\<lambda>srv protos. hd (fst srv))\<rparr>"

definition example_tls_config :: tls_config where
  "example_tls_config = \<lparr>acme_email = ''ops@example.com'', acme_directory = default_acme_directory,
     cache_dir = ''certs'', domains = [''example.com'']\<rparr>"

definition example_config :: config where
  "example_config = \<lparr>server = example_server\<lparr>http_challenge_listen := Some ''0.0.0.0:80''\<rparr>,
     routes = [(example_route ''/admin'' ''10.0.0.1:80'')\<lparr>route_plugins := [''plugins/block_admin.wasm'']\<rparr>,
               example_route ''/'' ''10.0.0.2:80''],
     tls = Some example_tls_config\<rparr>"

definition example_files :: files where
  "example_files = [''certs/cert.pem'' \<mapsto> ''CERT'', ''certs/key.pem'' \<mapsto> ''KEY'']"

definition example_build :: "(proxy_error + (example_module, string) app_state) \<times> flag_heap" where
  "example_build = build_state example_wasm example_tls Map.empty example_files example_config [False]"

definition example_state :: "(example_module, string) app_state" where
  "example_state = projr (fst example_build)"

lemma is_ok_projr: "is_ok (fst x) \<Longrightarrow> snd x = y \<Longrightarrow> x = (Ok (projr (fst x)), y)"
  by (cases x) (auto simp: is_ok_iff)

lemma example_build: "example_build = (Ok example_state, [False, True, True])"
proof -
  have "is_ok (fst example_build)" "snd example_build = [False, True, True]" by code_simp+
  then show ?thesis unfolding example_state_def by (rule is_ok_projr)
qed

theorem built_state_routes_witness:
  "map rs_route (app_routes example_state) = routes example_config"
  using built_state_routes [OF example_build [unfolded example_build_def]] by blast

theorem built_state_tls_witness: "app_tls example_state \<noteq> None"
proof -
  have "fs_exists Map.empty example_files (cert_file example_tls_config)"
    "fs_exists Map.empty example_files (key_file example_tls_config)"
    "tls example_config = Some example_tls_config" by code_simp+
  with built_state_tls [OF example_build [unfolded example_build_def]] show ?thesis by blast
qed

end
