(* ===== verification/Pool.thy ===== *)
theory Pool
  imports Http_Types Proxy_Errors
begin

section \<open>Connection pool (\<open>src/pool.rs\<close>)\<close>

text \<open>
  Idle connections per upstream address, at most \<open>max_idle_per_host\<close> each. \<open>acquire\<close> takes the
  connection released last, or opens a new one after the lock is given back; \<open>release\<close> keeps a
  connection if there is room. A \<open>Vec\<close> is a list whose end is the top of the stack.

  The locale \<open>conn_store\<close> is what a user of the pool relies on: the idle lists as \<open>pop\<close> and
  \<open>release\<close> change them. Under these laws it shows that connections have one owner: never idle and
  in use at once, never in use twice, and never used for another address than the one opened for.
\<close>

subsection \<open>State and operations\<close>

record 'c pool =
  idle :: "string \<rightharpoonup> 'c list"
  max_idle_per_host :: nat

definition pool_new :: "nat \<Rightarrow> 'c pool" where
  "pool_new n = \<lparr>idle = Map.empty, max_idle_per_host = n\<rparr>"

text \<open>The block of \<open>acquire\<close> that holds the lock.\<close>

definition pop_idle :: "string \<Rightarrow> 'c pool \<Rightarrow> 'c option \<times> 'c pool" where
  "pop_idle addr p =
     (case idle p addr of
        None \<Rightarrow> (None, p)
      | Some conns \<Rightarrow>
          (if conns = [] then (None, p)
           else (Some (last conns), p\<lparr>idle := (idle p)(addr \<mapsto> butlast conns)\<rparr>)))"

definition connect_fresh ::
  "('w, 'io, 'c, 'h, 'b) net \<Rightarrow> string \<Rightarrow> 'w \<Rightarrow> (proxy_error + 'c) \<times> 'w" where
  "connect_fresh net addr w =
     (case tcp_connect net addr w of
        (Inl e, w1) \<Rightarrow> (Err (UpstreamConnect (addr @ '': '' @ e)), w1)
      | (Inr io, w1) \<Rightarrow>
          (case http1_handshake net io w1 of
             (Inl e, w2) \<Rightarrow> (Err (HyperError e), w2)
           | (Inr c, w2) \<Rightarrow> (Ok c, w2)))"

definition acquire ::
  "('w, 'io, 'c, 'h, 'b) net \<Rightarrow> string \<Rightarrow> 'c pool \<Rightarrow> 'w \<Rightarrow> (proxy_error + 'c) \<times> 'c pool \<times> 'w" where
  "acquire net addr p w =
     (case pop_idle addr p of
        (Some c, p1) \<Rightarrow> (Ok c, p1, w)
      | (None, p1) \<Rightarrow> (case connect_fresh net addr w of (r, w1) \<Rightarrow> (r, p1, w1)))"

definition release :: "string \<Rightarrow> 'c \<Rightarrow> 'c pool \<Rightarrow> 'c pool" where
  "release addr c p =
     (let conns = (case idle p addr of None \<Rightarrow> [] | Some cs \<Rightarrow> cs)
      in p\<lparr>idle := (idle p)(addr \<mapsto>
             (if length conns < max_idle_per_host p then conns @ [c] else conns))\<rparr>)"

text \<open>The idle connections of an address, a missing entry being an empty one.\<close>

definition idle_list :: "'c pool \<Rightarrow> string \<Rightarrow> 'c list" where
  "idle_list p addr = (case idle p addr of None \<Rightarrow> [] | Some cs \<Rightarrow> cs)"

subsection \<open>What a user of a connection store relies on\<close>

text \<open>
  \<open>owned idles cap holds target opened\<close>: \<open>idles\<close> are the idle lists, \<open>holds t\<close> the connection
  task \<open>t\<close> is using, \<open>target t\<close> the address it talks to, \<open>opened c\<close> the address \<open>c\<close> was opened for.
\<close>

definition owned ::
  "(string \<Rightarrow> 'c list) \<Rightarrow> nat \<Rightarrow> ('t \<rightharpoonup> 'c) \<Rightarrow> ('t \<Rightarrow> string) \<Rightarrow> ('c \<rightharpoonup> string) \<Rightarrow> bool" where
  "owned idles cap holds target opened \<longleftrightarrow>
     (\<forall>a. length (idles a) \<le> cap \<and> distinct (idles a)) \<and>
     (\<forall>a c. c \<in> set (idles a) \<longrightarrow> opened c = Some a \<and> (\<forall>t. holds t \<noteq> Some c)) \<and>
     (\<forall>t c. holds t = Some c \<longrightarrow> opened c = Some (target t)) \<and>
     (\<forall>t u c. holds t = Some c \<and> holds u = Some c \<longrightarrow> t = u)"

lemma owned_drop: "owned idles cap holds target opened \<Longrightarrow> owned idles cap (holds(t := None)) target opened"
  by (auto simp: owned_def)

lemma owned_retarget:
  "owned idles cap holds target opened \<Longrightarrow> holds t = None \<Longrightarrow>
   owned idles cap holds (target(t := a)) opened"
  by (auto simp: owned_def)

lemma owned_open:
  assumes "owned idles cap holds target opened" "opened c = None"
  shows "owned idles cap (holds(t := Some c)) target (opened(c \<mapsto> target t))"
  using assms by (auto simp: owned_def)

locale conn_store =
  fixes pop :: "string \<Rightarrow> 'p \<Rightarrow> 'c option \<times> 'p"
    and give_back :: "string \<Rightarrow> 'c \<Rightarrow> 'p \<Rightarrow> 'p"
    and idles :: "'p \<Rightarrow> string \<Rightarrow> 'c list"
    and cap :: "'p \<Rightarrow> nat"
  assumes pop_empty: "pop a p = (None, p') \<Longrightarrow> p' = p \<and> idles p a = []"
    and pop_some: "pop a p = (Some c, p') \<Longrightarrow>
      (\<exists>cs. idles p a = cs @ [c] \<and> idles p' = (idles p)(a := cs)) \<and> cap p' = cap p"
    and give_back_idles: "idles (give_back a c p) =
      (idles p)(a := (if length (idles p a) < cap p then idles p a @ [c] else idles p a))"
    and give_back_cap: "cap (give_back a c p) = cap p"
begin

lemma owned_pop:
  assumes own: "owned (idles p) (cap p) holds target opened"
    and pop: "pop (target t) p = (Some c, p')"
  shows "owned (idles p') (cap p') (holds(t := Some c)) target opened"
proof -
  from pop_some [OF pop] obtain cs
    where cs: "idles p (target t) = cs @ [c]" "idles p' = (idles p)(target t := cs)" "cap p' = cap p"
    by blast
  from own cs(1) have c: "opened c = Some (target t)" "\<forall>u. holds u \<noteq> Some c" "c \<notin> set cs"
      "length cs \<le> cap p" "distinct cs"
    unfolding owned_def
    by (metis in_set_conv_decomp, metis in_set_conv_decomp, metis distinct_append disjoint_iff list.set_intros(1),
        metis Suc_leD length_append_singleton, metis distinct_append)
  have in_cs: "opened d = Some (target t) \<and> (\<forall>u. holds u \<noteq> Some d)" if "d \<in> set cs" for d
  proof -
    from that cs(1) have "d \<in> set (idles p (target t))" by simp
    with own show ?thesis unfolding owned_def by blast
  qed
  have elsewhere: "d \<noteq> c" if "d \<in> set (idles p a)" "a \<noteq> target t" for a d
    using that own c(1) unfolding owned_def by auto
  show ?thesis
    using own c in_cs elsewhere cs(3) unfolding owned_def by (auto simp: cs(2))
qed

lemma owned_give_back:
  assumes own: "owned (idles p) (cap p) holds target opened" and held: "holds t = Some c"
  shows "owned (idles (give_back (target t) c p)) (cap (give_back (target t) c p)) (holds(t := None)) target opened"
proof -
  from own held have c: "opened c = Some (target t)" "\<forall>a. c \<notin> set (idles p a)"
      "\<forall>u. holds u = Some c \<longrightarrow> u = t"
    unfolding owned_def by blast+
  show ?thesis
    using own c unfolding owned_def give_back_idles give_back_cap by auto
qed

text \<open>Last in, first out: what was given back last is popped first.\<close>

lemma pop_give_back:
  assumes "length (idles p a) < cap p" and "pop a (give_back a c p) = (r, p')"
  shows "r = Some c \<and> idles p' = idles p"
proof -
  have idles: "idles (give_back a c p) = (idles p)(a := idles p a @ [c])"
    using assms(1) by (simp add: give_back_idles)
  show ?thesis
  proof (cases r)
    case None
    with assms(2) pop_empty have "idles (give_back a c p) a = []" by blast
    with idles show ?thesis by simp
  next
    case (Some d)
    with assms(2) pop_some [of a "give_back a c p" d p'] obtain cs
      where "idles (give_back a c p) a = cs @ [d]" "idles p' = (idles (give_back a c p))(a := cs)"
      by blast
    with idles Some show ?thesis by (simp add: fun_upd_idem)
  qed
qed

end

subsection \<open>The pool is such a store\<close>

interpretation cp: conn_store pop_idle release idle_list max_idle_per_host
proof unfold_locales
  show "p' = p \<and> idle_list p a = []" if "pop_idle a p = (None, p')" for a and p p' :: "'c pool"
    using that by (auto simp: pop_idle_def idle_list_def split: option.splits if_splits)
next
  show "(\<exists>cs. idle_list p a = cs @ [c] \<and> idle_list p' = (idle_list p)(a := cs)) \<and>
      max_idle_per_host p' = max_idle_per_host p"
    if "pop_idle a p = (Some c, p')" for a c and p p' :: "'c pool"
  proof -
    from that obtain conns where conns: "idle p a = Some conns" "conns \<noteq> []" "c = last conns"
        "p' = p\<lparr>idle := (idle p)(a \<mapsto> butlast conns)\<rparr>"
      by (auto simp: pop_idle_def split: option.splits if_splits)
    then show ?thesis
      by (intro conjI exI [of _ "butlast conns"]) (auto simp: idle_list_def fun_eq_iff)
  qed
qed (auto simp: release_def idle_list_def Let_def fun_eq_iff split: option.splits)

lemma idle_list_new [simp]: "idle_list (pool_new n) a = []"
  by (simp add: idle_list_def pool_new_def)

lemma owned_new: "owned (idle_list (pool_new n)) n (\<lambda>_. None) target opened"
  by (simp add: owned_def)

subsection \<open>Properties\<close>

text \<open>
  \<open>acquire\<close> takes the newest idle connection of the address without touching the network, and
  only when there is none it connects, leaving the pool as it was.
\<close>
theorem acquire_takes_newest_idle:
  "acquire net addr p w =
     (case rev (idle_list p addr) of
        [] \<Rightarrow> (case connect_fresh net addr w of (r, w1) \<Rightarrow> (r, p, w1))
      | c # older \<Rightarrow> (Ok c, p\<lparr>idle := (idle p)(addr \<mapsto> rev older)\<rparr>, w))"
proof (cases "idle_list p addr" rule: rev_cases)
  case Nil
  then have "pop_idle addr p = (None, p)"
    by (auto simp: pop_idle_def idle_list_def split: option.splits)
  with Nil show ?thesis by (simp add: acquire_def)
next
  case (snoc older c)
  then have "pop_idle addr p = (Some c, p\<lparr>idle := (idle p)(addr \<mapsto> older)\<rparr>)"
    by (auto simp: pop_idle_def idle_list_def split: option.splits)
  with snoc show ?thesis by (simp add: acquire_def)
qed

text \<open>
  A connection released while there is room is the one the next \<open>acquire\<close> of its address gets,
  without touching the network, and the idle lists are then what they were before.
\<close>
theorem released_connection_comes_back:
  assumes "length (idle_list p addr) < max_idle_per_host p"
  shows "\<exists>p'. acquire net addr (release addr c p) w = (Ok c, p', w) \<and> idle_list p' = idle_list p"
proof -
  obtain r p' where pop: "pop_idle addr (release addr c p) = (r, p')" by force
  with cp.pop_give_back [OF assms pop] show ?thesis by (simp add: acquire_def)
qed

definition silent_net :: "(nat, string, nat, unit, string) net" where
  "silent_net =
     \<lparr>tcp_connect = (\<lambda>a w. (Err ''refused'', w)), http1_handshake = (\<lambda>io w. (Err ''closed'', w)),
      send_request = (\<lambda>c req w. (Err ''closed'', w)), collect_body = (\<lambda>b w. (Ok b, w))\<rparr>"

theorem released_connection_comes_back_witness:
  "\<exists>p'. acquire silent_net ''10.0.0.1:80'' (release ''10.0.0.1:80'' 7 (pool_new 1)) 0 = (Ok 7, p', 0) \<and>
     idle_list p' = idle_list (pool_new 1)"
  by (rule released_connection_comes_back) (simp add: pool_new_def idle_list_def)

end
