(* ===== verification/Proxy_Forward.thy ===== *)
theory Proxy_Forward
  imports Pool Rust_Net
begin

section \<open>Forwarding a request (\<open>src/proxy.rs\<close>)\<close>

text \<open>
  \<open>forward_inner\<close> is an async function whose suspension points matter: other requests run there
  and use the same pool, and the timeout of \<open>forward\<close> drops the function at whatever point it has
  reached. It is modelled as the state machine the compiler makes of it, \<open>fwd_step\<close> running from one
  suspension point to the next, and also as the direct translation \<open>forward_inner\<close> of its text; the
  two agree (\<open>fwd_run_forward_inner\<close>) after at most ten steps.
\<close>

subsection \<open>Headers\<close>

definition hop_by_hop :: "string list" where
  "hop_by_hop = [''connection'', ''keep-alive'', ''proxy-authenticate'', ''proxy-authorization'',
     ''te'', ''trailers'', ''transfer-encoding'', ''upgrade'']"

record fwd_ctx =
  upstream_addr :: string
  client_addr :: socket_addr
  is_tls :: bool

definition forwarded_proto :: "bool \<Rightarrow> string" where
  "forwarded_proto b = (if b then ''https'' else ''http'')"

definition client_ip :: "fwd_ctx \<Rightarrow> string" where
  "client_ip ctx = ip_to_string (sa_ip (client_addr ctx))"

text \<open>The header edits on the request; \<open>None\<close> where one of the two \<open>unwrap\<close> calls panics.\<close>

definition rewrite_headers :: "'h header_api \<Rightarrow> fwd_ctx \<Rightarrow> 'h \<Rightarrow> 'h option" where
  "rewrite_headers api ctx h =
     (let h1 = fold (hm_remove api) hop_by_hop h;
          h2 = (if hv_from_str api (upstream_addr ctx)
                then hm_insert api ''host'' (upstream_addr ctx) h1 else h1)
      in if \<not> hv_from_str api (client_ip ctx) then None
         else
           (let h3 = hm_insert api ''x-forwarded-for'' (client_ip ctx) h2
            in if \<not> hv_from_str api (forwarded_proto (is_tls ctx)) then None
               else
                 (let h4 = hm_insert api ''x-forwarded-proto'' (forwarded_proto (is_tls ctx)) h3
                  in Some (case hm_get api h4 ''host'' of
                             None \<Rightarrow> h4
                           | Some host \<Rightarrow> hm_insert api ''x-forwarded-host'' host h4))))"

text \<open>\<open>build_request\<close>: a new request with the parts' method, URI and headers, one by one.\<close>

definition build_request ::
  "'h header_api \<Rightarrow> ('h, string) request \<Rightarrow> ('h, string) request" where
  "build_request api parts =
     \<lparr>req_method = req_method parts, req_uri = req_uri parts,
      req_headers = fold (\<lambda>(n, v). hm_append api n v) (hm_iter api (req_headers parts)) (hm_empty api),
      req_body = req_body parts\<rparr>"

definition strip_response :: "'h header_api \<Rightarrow> ('h, 'b) response \<Rightarrow> string \<Rightarrow> ('h, string) response" where
  "strip_response api resp bytes =
     \<lparr>resp_status = resp_status resp,
      resp_headers = fold (hm_remove api) hop_by_hop (resp_headers resp),
      resp_body = bytes\<rparr>"

subsection \<open>The function as it is written\<close>

text \<open>The part after the upstream has answered.\<close>

definition finish_forward ::
  "('w, 'io, 'c, 'h, 'b) net \<Rightarrow> 'h header_api \<Rightarrow> ('h, 'b) response \<Rightarrow> 'c pool \<Rightarrow> 'w \<Rightarrow>
   (proxy_error + ('h, string) response) outcome \<times> 'c pool \<times> 'w" where
  "finish_forward net api resp p w =
     (case collect_body net (resp_body resp) w of
        (Inl e, w1) \<Rightarrow> (Returned (Err (HyperError e)), p, w1)
      | (Inr bytes, w1) \<Rightarrow> (Returned (Ok (strip_response api resp bytes)), p, w1))"

text \<open>The retry on a fresh connection.\<close>

definition retry_forward ::
  "('w, 'io, 'c, 'h, 'b) net \<Rightarrow> 'h header_api \<Rightarrow> fwd_ctx \<Rightarrow> ('h, string) request \<Rightarrow> 'c pool \<Rightarrow> 'w \<Rightarrow>
   (proxy_error + ('h, string) response) outcome \<times> 'c pool \<times> 'w" where
  "retry_forward net api ctx parts p w =
     (case connect_fresh net (upstream_addr ctx) w of
        (Inl e, w1) \<Rightarrow> (Returned (Err e), p, w1)
      | (Inr c, w1) \<Rightarrow>
          (case send_request net c (build_request api parts) w1 of
             (Inl e, w2) \<Rightarrow> (Returned (Err (HyperError e)), p, w2)
           | (Inr resp, w2) \<Rightarrow> finish_forward net api resp (release (upstream_addr ctx) c p) w2))"

definition forward_inner ::
  "('w, 'io, 'c, 'h, 'b) net \<Rightarrow> 'h header_api \<Rightarrow> fwd_ctx \<Rightarrow> ('h, 'b) request \<Rightarrow> 'c pool \<Rightarrow> 'w \<Rightarrow>
   (proxy_error + ('h, string) response) outcome \<times> 'c pool \<times> 'w" where
  "forward_inner net api ctx req p w =
     (case collect_body net (req_body req) w of
        (Inl e, w1) \<Rightarrow> (Returned (Err (HyperError e)), p, w1)
      | (Inr body, w1) \<Rightarrow>
          (case rewrite_headers api ctx (req_headers req) of
             None \<Rightarrow> (Panicked, p, w1)
           | Some h \<Rightarrow>
               (let parts = \<lparr>req_method = req_method req, req_uri = req_uri req, req_headers = h,
                             req_body = body\<rparr>
                in case acquire net (upstream_addr ctx) p w1 of
                     (Inl e, p1, w2) \<Rightarrow> (Returned (Err e), p1, w2)
                   | (Inr c, p1, w2) \<Rightarrow>
                       (case send_request net c (build_request api parts) w2 of
                          (Inr resp, w3) \<Rightarrow>
                            finish_forward net api resp (release (upstream_addr ctx) c p1) w3
                        | (Inl _, w3) \<Rightarrow> retry_forward net api ctx parts p1 w3))))"

subsection \<open>The state machine\<close>

datatype attempt = FirstTry | Retry

datatype ('io, 'c, 'h, 'b) fwd =
    CollectRequest "('h, 'b) request"
  | Acquire "('h, string) request"
  | Connect attempt "('h, string) request"
  | Handshake attempt 'io "('h, string) request"
  | Send attempt 'c "('h, string) request"
  | GiveBack 'c "('h, 'b) response"
  | CollectResponse "('h, 'b) response"
  | Finished "proxy_error + ('h, string) response"
  | FwdPanicked

fun fwd_step ::
  "('w, 'io, 'c, 'h, 'b) net \<Rightarrow> 'h header_api \<Rightarrow> fwd_ctx \<Rightarrow> ('io, 'c, 'h, 'b) fwd \<times> 'c pool \<times> 'w \<Rightarrow>
   ('io, 'c, 'h, 'b) fwd \<times> 'c pool \<times> 'w" where
  "fwd_step net api ctx (CollectRequest req, p, w) =
     (case collect_body net (req_body req) w of
        (Inl e, w1) \<Rightarrow> (Finished (Err (HyperError e)), p, w1)
      | (Inr body, w1) \<Rightarrow>
          (case rewrite_headers api ctx (req_headers req) of
             None \<Rightarrow> (FwdPanicked, p, w1)
           | Some h \<Rightarrow> (Acquire \<lparr>req_method = req_method req, req_uri = req_uri req, req_headers = h,
                                 req_body = body\<rparr>, p, w1)))"
| "fwd_step net api ctx (Acquire parts, p, w) =
     (case pop_idle (upstream_addr ctx) p of
        (Some c, p1) \<Rightarrow> (Send FirstTry c parts, p1, w)
      | (None, p1) \<Rightarrow> (Connect FirstTry parts, p1, w))"
| "fwd_step net api ctx (Connect n parts, p, w) =
     (case tcp_connect net (upstream_addr ctx) w of
        (Inl e, w1) \<Rightarrow> (Finished (Err (UpstreamConnect (upstream_addr ctx @ '': '' @ e))), p, w1)
      | (Inr io, w1) \<Rightarrow> (Handshake n io parts, p, w1))"
| "fwd_step net api ctx (Handshake n io parts, p, w) =
     (case http1_handshake net io w of
        (Inl e, w1) \<Rightarrow> (Finished (Err (HyperError e)), p, w1)
      | (Inr c, w1) \<Rightarrow> (Send n c parts, p, w1))"
| "fwd_step net api ctx (Send n c parts, p, w) =
     (case send_request net c (build_request api parts) w of
        (Inr resp, w1) \<Rightarrow> (GiveBack c resp, p, w1)
      | (Inl e, w1) \<Rightarrow>
          (case n of
             FirstTry \<Rightarrow> (Connect Retry parts, p, w1)
           | Retry \<Rightarrow> (Finished (Err (HyperError e)), p, w1)))"
| "fwd_step net api ctx (GiveBack c resp, p, w) =
     (CollectResponse resp, release (upstream_addr ctx) c p, w)"
| "fwd_step net api ctx (CollectResponse resp, p, w) =
     (case collect_body net (resp_body resp) w of
        (Inl e, w1) \<Rightarrow> (Finished (Err (HyperError e)), p, w1)
      | (Inr bytes, w1) \<Rightarrow> (Finished (Ok (strip_response api resp bytes)), p, w1))"
| "fwd_step net api ctx (Finished r, p, w) = (Finished r, p, w)"
| "fwd_step net api ctx (FwdPanicked, p, w) = (FwdPanicked, p, w)"

definition fwd_run ::
  "('w, 'io, 'c, 'h, 'b) net \<Rightarrow> 'h header_api \<Rightarrow> fwd_ctx \<Rightarrow> nat \<Rightarrow>
   ('io, 'c, 'h, 'b) fwd \<times> 'c pool \<times> 'w \<Rightarrow> ('io, 'c, 'h, 'b) fwd \<times> 'c pool \<times> 'w" where
  "fwd_run net api ctx n = (fwd_step net api ctx) ^^ n"

fun fwd_result :: "('io, 'c, 'h, 'b) fwd \<Rightarrow> (proxy_error + ('h, string) response) outcome option" where
  "fwd_result (Finished r) = Some (Returned r)"
| "fwd_result FwdPanicked = Some Panicked"
| "fwd_result _ = None"

subsection \<open>\<open>forward\<close>: the timeout\<close>

text \<open>\<open>Debug\<close> of a \<open>Duration\<close> of whole milliseconds.\<close>

definition strip_zeros :: "string \<Rightarrow> string" where
  "strip_zeros s = rev (dropWhile (\<lambda>c. c = CHR ''0'') (rev s))"

definition duration_debug :: "nat \<Rightarrow> string" where
  "duration_debug ms =
     (if 1000 \<le> ms then
        dec (ms div 1000) @
        (let f = strip_zeros [digit_char (ms mod 1000 div 100), digit_char (ms mod 100 div 10),
                              digit_char (ms mod 10)]
         in if f = [] then [] else ''.'' @ f) @ ''s''
      else if ms = 0 then ''0ns'' else dec ms @ ''ms'')"

definition timeout_error :: "fwd_ctx \<Rightarrow> u64 \<Rightarrow> proxy_error" where
  "timeout_error ctx timeout =
     TimeoutError (upstream_addr ctx @ '': exceeded '' @ duration_debug (unat timeout))"

text \<open>
  The timer fires after the inner function has run \<open>n\<close> steps, wherever that is; if it has not
  returned by then it is dropped and what it held with it.
\<close>

definition forward ::
  "('w, 'io, 'c, 'h, 'b) net \<Rightarrow> 'h header_api \<Rightarrow> fwd_ctx \<Rightarrow> u64 \<Rightarrow> nat \<Rightarrow> ('h, 'b) request \<Rightarrow>
   'c pool \<Rightarrow> 'w \<Rightarrow> (proxy_error + ('h, string) response) outcome \<times> 'c pool \<times> 'w" where
  "forward net api ctx timeout n req p w =
     (case fwd_run net api ctx n (CollectRequest req, p, w) of
        (st, p1, w1) \<Rightarrow>
          (case fwd_result st of
             Some r \<Rightarrow> (r, p1, w1)
           | None \<Rightarrow> (Returned (Err (timeout_error ctx timeout)), p1, w1)))"

subsection \<open>The state machine computes the function\<close>

text \<open>\<open>reaches s n x\<close>: from \<open>s\<close>, within \<open>n\<close> steps, the machine ends with \<open>x\<close>.\<close>

definition reaches ::
  "('w, 'io, 'c, 'h, 'b) net \<Rightarrow> 'h header_api \<Rightarrow> fwd_ctx \<Rightarrow> ('io, 'c, 'h, 'b) fwd \<times> 'c pool \<times> 'w \<Rightarrow> nat \<Rightarrow>
   (proxy_error + ('h, string) response) outcome \<times> 'c pool \<times> 'w \<Rightarrow> bool" where
  "reaches net api ctx s n x \<longleftrightarrow>
     (case fwd_run net api ctx n s of (st, p, w) \<Rightarrow> (case x of (r, p', w') \<Rightarrow>
        fwd_result st = Some r \<and> p = p' \<and> w = w'))"

lemma fwd_run_0 [simp]: "fwd_run net api ctx 0 s = s"
  by (simp add: fwd_run_def)

lemma fwd_run_Suc: "fwd_run net api ctx (Suc n) s = fwd_run net api ctx n (fwd_step net api ctx s)"
  by (simp add: fwd_run_def funpow_swap1)

lemma fwd_run_add:
  "fwd_run net api ctx (m + n) s = fwd_run net api ctx n (fwd_run net api ctx m s)"
  unfolding fwd_run_def by (subst add.commute) (simp add: funpow_add)

lemma fwd_run_finished [simp]:
  "fwd_run net api ctx n (Finished r, p, w) = (Finished r, p, w)"
  "fwd_run net api ctx n (FwdPanicked, p, w) = (FwdPanicked, p, w)"
  by (induction n) (simp_all add: fwd_run_Suc)

lemma reaches_Suc:
  "reaches net api ctx s (Suc n) x \<longleftrightarrow> reaches net api ctx (fwd_step net api ctx s) n x"
  by (simp add: reaches_def fwd_run_Suc)

lemma reaches_ends [simp]:
  "reaches net api ctx (Finished r, p, w) n (Returned r, p, w)"
  "reaches net api ctx (FwdPanicked, p, w) n (Panicked, p, w)"
  by (simp_all add: reaches_def)

lemma reaches_CollectResponse [simp]:
  "reaches net api ctx (CollectResponse resp, p, w) (Suc n) (finish_forward net api resp p w)"
  by (simp add: reaches_Suc finish_forward_def split: prod.split sum.split)

lemma reaches_GiveBack [simp]:
  "reaches net api ctx (GiveBack c resp, p, w) (Suc (Suc n))
     (finish_forward net api resp (release (upstream_addr ctx) c p) w)"
  by (simp add: reaches_Suc [of _ _ _ _ "Suc n"])

lemma reaches_Retry [simp]:
  "reaches net api ctx (Connect Retry parts, p, w) (Suc (Suc (Suc (Suc (Suc n)))))
     (retry_forward net api ctx parts p w)"
  by (simp add: reaches_Suc [of _ _ _ _ "Suc (Suc (Suc (Suc n)))"]
      reaches_Suc [of _ _ _ _ "Suc (Suc (Suc n))"] reaches_Suc [of _ _ _ _ "Suc (Suc n)"]
      retry_forward_def connect_fresh_def split: prod.split sum.split)

text \<open>A first attempt, from the connection on.\<close>

definition send_first ::
  "('w, 'io, 'c, 'h, 'b) net \<Rightarrow> 'h header_api \<Rightarrow> fwd_ctx \<Rightarrow> ('h, string) request \<Rightarrow> 'c \<Rightarrow> 'c pool \<Rightarrow> 'w \<Rightarrow>
   (proxy_error + ('h, string) response) outcome \<times> 'c pool \<times> 'w" where
  "send_first net api ctx parts c p w =
     (case send_request net c (build_request api parts) w of
        (Inr resp, w1) \<Rightarrow> finish_forward net api resp (release (upstream_addr ctx) c p) w1
      | (Inl _, w1) \<Rightarrow> retry_forward net api ctx parts p w1)"

lemma reaches_Send_first [simp]:
  "reaches net api ctx (Send FirstTry c parts, p, w) (Suc (Suc (Suc (Suc (Suc (Suc n))))))
     (send_first net api ctx parts c p w)"
  by (simp add: reaches_Suc [of _ _ _ _ "Suc (Suc (Suc (Suc (Suc n))))"] send_first_def
      split: prod.split sum.split)

lemma reaches_Handshake_first [simp]:
  "reaches net api ctx (Handshake FirstTry io parts, p, w) (Suc (Suc (Suc (Suc (Suc (Suc (Suc n)))))))
     (case http1_handshake net io w of
        (Inl e, w1) \<Rightarrow> (Returned (Err (HyperError e)), p, w1)
      | (Inr c, w1) \<Rightarrow> send_first net api ctx parts c p w1)"
  by (subst reaches_Suc) (simp split: prod.split sum.split)

lemma reaches_Connect_first [simp]:
  "reaches net api ctx (Connect FirstTry parts, p, w) (Suc (Suc (Suc (Suc (Suc (Suc (Suc (Suc n))))))))
     (case connect_fresh net (upstream_addr ctx) w of
        (Inl e, w1) \<Rightarrow> (Returned (Err e), p, w1)
      | (Inr c, w1) \<Rightarrow> send_first net api ctx parts c p w1)"
proof (cases "tcp_connect net (upstream_addr ctx) w")
  case (Pair r w1)
  show ?thesis
  proof (cases r)
    case (Inl e)
    with Pair show ?thesis by (subst reaches_Suc) (simp add: connect_fresh_def)
  next
    case (Inr io)
    have eq: "(case connect_fresh net (upstream_addr ctx) w of
           (Inl e, w1) \<Rightarrow> (Returned (Err e), p, w1)
         | (Inr c, w1) \<Rightarrow> send_first net api ctx parts c p w1) =
        (case http1_handshake net io w1 of
           (Inl e, w1) \<Rightarrow> (Returned (Err (HyperError e)), p, w1)
         | (Inr c, w1) \<Rightarrow> send_first net api ctx parts c p w1)"
      using Pair Inr by (simp add: connect_fresh_def split: prod.split sum.split)
    with Pair Inr show ?thesis by (subst reaches_Suc) (simp only: eq, simp)
  qed
qed

lemma reaches_Acquire [simp]:
  "reaches net api ctx (Acquire parts, p, w) (Suc (Suc (Suc (Suc (Suc (Suc (Suc (Suc (Suc n)))))))))
     (case acquire net (upstream_addr ctx) p w of
        (Inl e, p1, w1) \<Rightarrow> (Returned (Err e), p1, w1)
      | (Inr c, p1, w1) \<Rightarrow> send_first net api ctx parts c p1 w1)"
proof (cases "pop_idle (upstream_addr ctx) p")
  case (Pair r p1)
  show ?thesis
  proof (cases r)
    case None
    have eq: "(case acquire net (upstream_addr ctx) p w of
           (Inl e, p1, w1) \<Rightarrow> (Returned (Err e), p1, w1)
         | (Inr c, p1, w1) \<Rightarrow> send_first net api ctx parts c p1 w1) =
        (case connect_fresh net (upstream_addr ctx) w of
           (Inl e, w1) \<Rightarrow> (Returned (Err e), p1, w1)
         | (Inr c, w1) \<Rightarrow> send_first net api ctx parts c p1 w1)"
      using Pair None by (simp add: acquire_def split: prod.split sum.split)
    with Pair None show ?thesis by (subst reaches_Suc) (simp only: eq, simp)
  next
    case (Some c)
    with Pair show ?thesis by (subst reaches_Suc) (simp add: acquire_def)
  qed
qed

lemma forward_inner_steps:
  "forward_inner net api ctx req p w =
     (case collect_body net (req_body req) w of
        (Inl e, w1) \<Rightarrow> (Returned (Err (HyperError e)), p, w1)
      | (Inr body, w1) \<Rightarrow>
          (case rewrite_headers api ctx (req_headers req) of
             None \<Rightarrow> (Panicked, p, w1)
           | Some h \<Rightarrow>
               (case acquire net (upstream_addr ctx) p w1 of
                  (Inl e, p1, w2) \<Rightarrow> (Returned (Err e), p1, w2)
                | (Inr c, p1, w2) \<Rightarrow>
                    send_first net api ctx \<lparr>req_method = req_method req, req_uri = req_uri req,
                      req_headers = h, req_body = body\<rparr> c p1 w2)))"
  unfolding forward_inner_def send_first_def Let_def ..

lemma reaches_forward_inner:
  "reaches net api ctx (CollectRequest req, p, w)
     (Suc (Suc (Suc (Suc (Suc (Suc (Suc (Suc (Suc (Suc n)))))))))) (forward_inner net api ctx req p w)"
proof (cases "collect_body net (req_body req) w")
  case (Pair r w1)
  show ?thesis
  proof (cases r)
    case (Inl e)
    with Pair show ?thesis by (subst reaches_Suc) (simp add: forward_inner_steps)
  next
    case (Inr body)
    with Pair show ?thesis
      by (subst reaches_Suc) (simp add: forward_inner_steps split: option.split)
  qed
qed

lemma fwd_run_forward_inner:
  assumes "10 \<le> n"
  shows "reaches net api ctx (CollectRequest req, p, w) n (forward_inner net api ctx req p w)"
proof -
  from assms obtain m where "n = 10 + m" by (metis le_Suc_ex)
  then have "n = Suc (Suc (Suc (Suc (Suc (Suc (Suc (Suc (Suc (Suc m)))))))))"
    by (simp add: eval_nat_numeral)
  then show ?thesis by (simp only: reaches_forward_inner)
qed

lemma forward_enough_steps:
  "10 \<le> n \<Longrightarrow> forward net api ctx timeout n req p w = forward_inner net api ctx req p w"
  using fwd_run_forward_inner [of n net api ctx req p w]
  by (auto simp: forward_def reaches_def split: prod.splits)

text \<open>A run cut short has either not ended, or ended as the whole function does.\<close>

lemma fwd_result_kept:
  assumes "fwd_result st = Some r"
  shows "fwd_run net api ctx n (st, p, w) = (st, p, w)"
  using assms by (cases st) simp_all

lemma forward_cut:
  "forward net api ctx timeout n req p w = forward_inner net api ctx req p w \<or>
   (\<exists>st p1 w1. fwd_run net api ctx n (CollectRequest req, p, w) = (st, p1, w1) \<and> fwd_result st = None \<and>
      forward net api ctx timeout n req p w = (Returned (Err (timeout_error ctx timeout)), p1, w1))"
proof -
  obtain st p1 w1 where run: "fwd_run net api ctx n (CollectRequest req, p, w) = (st, p1, w1)"
    by (metis prod_cases3)
  show ?thesis
  proof (cases "fwd_result st")
    case None
    with run show ?thesis by (simp add: forward_def)
  next
    case (Some r)
    from run fwd_result_kept [OF Some]
    have "fwd_run net api ctx (n + 10) (CollectRequest req, p, w) = (st, p1, w1)"
      by (simp add: fwd_run_add)
    with fwd_run_forward_inner [of "n + 10" net api ctx req p w] Some run show ?thesis
      by (auto simp: reaches_def forward_def split: prod.splits)
  qed
qed

subsection \<open>Examples\<close>

text \<open>
  A network for examples: connections are numbered, those in \<open>dead\<close> fail when used, the others
  answer with the number of the connection.
\<close>

definition numbered_net :: "nat set \<Rightarrow> (nat, string, nat, (string \<times> string) list, string) net" where
  "numbered_net dead =
     \<lparr>tcp_connect = (\<lambda>a w. (Ok a, w)),
      http1_handshake = (\<lambda>io w. (Ok w, Suc w)),
      send_request = (\<lambda>c req w.
        (if c \<in> dead then Err ''connection closed''
         else Ok \<lparr>resp_status = 200, resp_headers = [(''connection'', ''close''), (''x-served-by'', dec c)],
                  resp_body = req_body req\<rparr>, w)),
      collect_body = (\<lambda>b w. (Ok b, w))\<rparr>"

definition example_ctx :: fwd_ctx where
  "example_ctx = \<lparr>upstream_addr = ''10.0.0.1:80'',
     client_addr = \<lparr>sa_ip = IpV4 192 168 0 7, sa_port = 50000, sa_scope_id = 0\<rparr>, is_tls = True\<rparr>"

definition example_request :: "((string \<times> string) list, string) request" where
  "example_request = \<lparr>req_method = ''POST'', req_uri = \<lparr>uri_path = ''/a'', uri_text = ''/a?b=1''\<rparr>,
     req_headers = [(''host'', ''example.com''), (''connection'', ''upgrade''), (''accept'', ''*/*'')],
     req_body = ''hello''\<rparr>"


subsection \<open>Properties\<close>

text \<open>
  C6: when the timer leaves it ten steps, \<open>forward\<close> returns, with what the function as it is written
  computes: the same answer or error, the same pool, the same network calls.
\<close>
theorem forward_returns_in_ten_steps:
  assumes "10 \<le> n"
  shows "forward net api ctx timeout n req p w = forward_inner net api ctx req p w"
  using assms by (rule forward_enough_steps)

theorem forward_returns_in_ten_steps_witness:
  "fst (forward (numbered_net {0}) list_headers example_ctx 5000 10 example_request (pool_new 1) 0) =
     Returned (Ok \<lparr>resp_status = 200, resp_headers = [(''x-served-by'', ''1'')], resp_body = ''hello''\<rparr>)"
proof -
  have "fst (forward_inner (numbered_net {0}) list_headers example_ctx example_request (pool_new 1) 0) =
     Returned (Ok \<lparr>resp_status = 200, resp_headers = [(''x-served-by'', ''1'')], resp_body = ''hello''\<rparr>)"
    by code_simp
  then show ?thesis by (subst forward_returns_in_ten_steps) simp_all
qed

text \<open>
  Whenever the timer fires, \<open>forward\<close> gives what the whole function gives, or the timeout error
  naming the upstream and the time allowed, with the pool as the dropped function left it.
\<close>
theorem forward_times_out_or_completes:
  "forward net api ctx timeout n req p w = forward_inner net api ctx req p w \<or>
   fst (forward net api ctx timeout n req p w) =
     Returned (Err (TimeoutError (upstream_addr ctx @ '': exceeded '' @ duration_debug (unat timeout)))) \<and>
   fst (snd (forward net api ctx timeout n req p w)) =
     fst (snd (fwd_run net api ctx n (CollectRequest req, p, w)))"
  using forward_cut [of net api ctx timeout n req p w] by (auto simp: timeout_error_def)

end
