(* ===== verification/Forward_Wire.thy ===== *)
theory Forward_Wire
  imports Proxy_Forward
begin

section \<open>What forwarding puts on the wire\<close>

text \<open>
  Facts about \<open>src/proxy.rs\<close>: the headers of the forwarded request and of the returned response,
  that no \<open>unwrap\<close> panics, and which requests are sent, read off a network that logs them.
\<close>

subsection \<open>Headers\<close>

definition host_values :: "'h header_api \<Rightarrow> fwd_ctx \<Rightarrow> 'h \<Rightarrow> string list" where
  "host_values api ctx h =
     (if hv_from_str api (upstream_addr ctx) then [upstream_addr ctx] else hm_get_all api h ''host'')"

text \<open>The values each name has in the forwarded request, given the client's headers.\<close>

definition forwarded_values :: "'h header_api \<Rightarrow> fwd_ctx \<Rightarrow> 'h \<Rightarrow> string \<Rightarrow> string list" where
  "forwarded_values api ctx h k =
     (if k = ''x-forwarded-for'' then [client_ip ctx]
      else if k = ''x-forwarded-proto'' then [forwarded_proto (is_tls ctx)]
      else if k = ''host'' then host_values api ctx h
      else if k = ''x-forwarded-host'' \<and> host_values api ctx h \<noteq> [] then [hd (host_values api ctx h)]
      else if k \<in> set hop_by_hop then []
      else hm_get_all api h k)"

lemma visible_ascii_proto [simp]: "visible_ascii (forwarded_proto b)"
  by (simp add: forwarded_proto_def visible_ascii_Cons)

lemma rewrite_headers_values:
  assumes "header_laws api"
  shows "\<exists>h'. rewrite_headers api ctx h = Some h' \<and>
           (\<forall>k. hm_get_all api h' k = forwarded_values api ctx h k)"
proof -
  have hop: "''host'' \<notin> set hop_by_hop" "''x-forwarded-for'' \<notin> set hop_by_hop"
    "''x-forwarded-proto'' \<notin> set hop_by_hop" "''x-forwarded-host'' \<notin> set hop_by_hop"
    by (simp_all add: hop_by_hop_def)
  have "hv_from_str api (client_ip ctx)" "hv_from_str api (forwarded_proto (is_tls ctx))"
    using assms by (simp_all add: hv_from_str_visible client_ip_def)
  then show ?thesis
    using hop assms
    by (auto simp: rewrite_headers_def hm_get_def forwarded_values_def host_values_def Let_def
        header_simps get_all_remove_list split: list.splits)
qed

lemma rewrite_headers_Some: "header_laws api \<Longrightarrow> rewrite_headers api ctx h \<noteq> None"
  using rewrite_headers_values [of api ctx h] by auto

lemma build_request_values:
  "header_laws api \<Longrightarrow>
   hm_get_all api (req_headers (build_request api parts)) k = hm_get_all api (req_headers parts) k"
  by (simp add: build_request_def get_all_append_list header_simps)

lemma strip_response_values:
  "header_laws api \<Longrightarrow>
   hm_get_all api (resp_headers (strip_response api resp bytes)) k =
     (if k \<in> set hop_by_hop then [] else hm_get_all api (resp_headers resp) k)"
  by (simp add: strip_response_def get_all_remove_list)

subsection \<open>No panic\<close>

lemma finish_forward_no_panic: "fst (finish_forward net api resp p w) \<noteq> Panicked"
  by (auto simp: finish_forward_def split: prod.split sum.split)

lemma retry_forward_no_panic: "fst (retry_forward net api ctx parts p w) \<noteq> Panicked"
  by (auto simp: retry_forward_def finish_forward_no_panic split: prod.split sum.split)

lemma send_first_no_panic: "fst (send_first net api ctx parts c p w) \<noteq> Panicked"
  by (auto simp: send_first_def finish_forward_no_panic retry_forward_no_panic
      split: prod.split sum.split)

lemma fwd_step_no_panic:
  assumes "header_laws api" "fwd_step net api ctx (st, p, w) = (st', p', w')" "st \<noteq> FwdPanicked"
  shows "st' \<noteq> FwdPanicked"
  using assms(2,3)
  by (cases st) (auto dest: rewrite_headers_Some [OF assms(1), THEN notE] split: prod.splits sum.splits option.splits attempt.splits)

lemma fwd_run_no_panic:
  assumes "header_laws api" "fst s \<noteq> FwdPanicked"
  shows "fst (fwd_run net api ctx n s) \<noteq> FwdPanicked"
  using assms(2)
proof (induction n arbitrary: s)
  case 0
  then show ?case by simp
next
  case (Suc n)
  obtain st p w where s: "s = (st, p, w)" by (cases s)
  with Suc.prems assms(1) have "fst (fwd_step net api ctx s) \<noteq> FwdPanicked"
    by (metis fst_conv fwd_step_no_panic prod_cases3)
  with Suc.IH show ?case by (simp add: fwd_run_Suc)
qed

lemma forward_no_panic:
  assumes "header_laws api"
  shows "fst (forward net api ctx timeout n req p w) \<noteq> Panicked"
proof -
  obtain st p1 w1 where run: "fwd_run net api ctx n (CollectRequest req, p, w) = (st, p1, w1)"
    by (metis prod_cases3)
  with fwd_run_no_panic [OF assms, of "(CollectRequest req, p, w)" net ctx n]
  have "st \<noteq> FwdPanicked" by simp
  with run show ?thesis by (cases st) (simp_all add: forward_def)
qed

subsection \<open>The requests sent\<close>

text \<open>A network that also logs every request handed to a connection.\<close>

definition log_net ::
  "('w, 'io, 'c, 'h, 'b) net \<Rightarrow> ('w \<times> ('c \<times> ('h, string) request) list, 'io, 'c, 'h, 'b) net" where
  "log_net net =
     \<lparr>tcp_connect = (\<lambda>a (w, l). case tcp_connect net a w of (r, w') \<Rightarrow> (r, (w', l))),
      http1_handshake = (\<lambda>io (w, l). case http1_handshake net io w of (r, w') \<Rightarrow> (r, (w', l))),
      send_request = (\<lambda>c req (w, l). case send_request net c req w of (r, w') \<Rightarrow> (r, (w', l @ [(c, req)]))),
      collect_body = (\<lambda>b (w, l). case collect_body net b w of (r, w') \<Rightarrow> (r, (w', l)))\<rparr>"

lemma log_net_simps [simp]:
  "tcp_connect (log_net net) a (w, l) = (case tcp_connect net a w of (r, w') \<Rightarrow> (r, (w', l)))"
  "http1_handshake (log_net net) io (w, l) = (case http1_handshake net io w of (r, w') \<Rightarrow> (r, (w', l)))"
  "send_request (log_net net) c req (w, l) =
     (case send_request net c req w of (r, w') \<Rightarrow> (r, (w', l @ [(c, req)])))"
  "collect_body (log_net net) b (w, l) = (case collect_body net b w of (r, w') \<Rightarrow> (r, (w', l)))"
  by (simp_all add: log_net_def)

text \<open>\<open>wire_ok parts l l'\<close>: between the logs only requests built from \<open>parts\<close> were sent.\<close>

definition wire_ok ::
  "'h header_api \<Rightarrow> ('h, string) request \<Rightarrow> nat \<Rightarrow> ('c \<times> ('h, string) request) list \<Rightarrow>
   ('c \<times> ('h, string) request) list \<Rightarrow> bool" where
  "wire_ok api parts k l l' \<longleftrightarrow>
     (\<exists>cs. l' = l @ map (\<lambda>c. (c, build_request api parts)) cs \<and> length cs \<le> k)"

lemma wire_ok_refl [simp]: "wire_ok api parts k l l"
  by (simp add: wire_ok_def)

lemma wire_ok_snoc:
  "wire_ok api parts k (l @ [(c, build_request api parts)]) l' \<Longrightarrow> wire_ok api parts (Suc k) l l'"
  unfolding wire_ok_def by (metis append.assoc append_Cons append_Nil length_Cons list.simps(9) not_less_eq_eq)

lemma finish_forward_log:
  "finish_forward (log_net net) api resp p (w, l) = (r, p', (w', l')) \<Longrightarrow> l' = l"
  by (auto simp: finish_forward_def split: prod.splits sum.splits)

lemma retry_forward_log:
  "retry_forward (log_net net) api ctx parts p (w, l) = (r, p', (w', l')) \<Longrightarrow> wire_ok api parts 1 l l'"
proof -
  have "wire_ok api parts 1 l (l @ [(c, build_request api parts)])" for c
    unfolding wire_ok_def by (intro exI [of _ "[c]"]) simp
  then show "retry_forward (log_net net) api ctx parts p (w, l) = (r, p', (w', l')) \<Longrightarrow> wire_ok api parts 1 l l'"
    by (auto simp: retry_forward_def connect_fresh_def split: prod.splits sum.splits
        dest!: finish_forward_log)
qed

lemma send_first_log:
  "send_first (log_net net) api ctx parts c p (w, l) = (r, p', (w', l')) \<Longrightarrow> wire_ok api parts 2 l l'"
proof -
  have "wire_ok api parts 2 l (l @ [(c, build_request api parts)])"
    unfolding wire_ok_def by (intro exI [of _ "[c]"]) simp
  moreover have "wire_ok api parts 1 (l @ [(c, build_request api parts)]) l' \<Longrightarrow> wire_ok api parts 2 l l'"
    by (drule wire_ok_snoc) (simp add: eval_nat_numeral)
  ultimately show "send_first (log_net net) api ctx parts c p (w, l) = (r, p', (w', l')) \<Longrightarrow>
      wire_ok api parts 2 l l'"
    by (auto simp: send_first_def split: prod.splits sum.splits
        dest!: finish_forward_log retry_forward_log)
qed

lemma connect_fresh_log:
  "connect_fresh (log_net net) a (w, l) = (r, (w', l')) \<Longrightarrow> l' = l"
  by (auto simp: connect_fresh_def split: prod.splits sum.splits)

lemma acquire_log:
  "acquire (log_net net) a p (w, l) = (r, p', (w', l')) \<Longrightarrow> l' = l"
  by (auto simp: acquire_def split: prod.splits option.splits dest: connect_fresh_log)

lemma forward_inner_log:
  assumes "forward_inner (log_net net) api ctx req p (w, l) = (r, p', (w', l'))"
  shows "l' = l \<or>
    (\<exists>body w1 h. collect_body net (req_body req) w = (Inr body, w1) \<and>
       rewrite_headers api ctx (req_headers req) = Some h \<and>
       wire_ok api \<lparr>req_method = req_method req, req_uri = req_uri req, req_headers = h, req_body = body\<rparr>
         2 l l')"
  using assms unfolding forward_inner_steps
  by (auto split: prod.splits sum.splits option.splits dest: acquire_log send_first_log)

subsection \<open>Logging is only watching\<close>

text \<open>The logged run is the run of the network itself.\<close>

lemma connect_fresh_watch:
  "connect_fresh (log_net net) a (w, l) = (case connect_fresh net a w of (r, w') \<Rightarrow> (r, (w', l)))"
  by (simp add: connect_fresh_def split: prod.split sum.split)

lemma acquire_watch:
  "acquire (log_net net) a p (w, l) = (case acquire net a p w of (r, p', w') \<Rightarrow> (r, p', (w', l)))"
  by (simp add: acquire_def connect_fresh_watch split: prod.split option.split)

lemma fwd_step_watch:
  "fwd_step (log_net net) api ctx (st, p, (w, l)) = (st', p', (w', l')) \<Longrightarrow>
   fwd_step net api ctx (st, p, w) = (st', p', w') \<and> (\<exists>sent. l' = l @ sent)"
  by (cases st) (auto split: prod.splits sum.splits option.splits attempt.splits)

lemma fwd_run_watch:
  "fwd_run (log_net net) api ctx n (st, p, (w, l)) = (st', p', (w', l')) \<Longrightarrow>
   fwd_run net api ctx n (st, p, w) = (st', p', w') \<and> (\<exists>sent. l' = l @ sent)"
proof (induction n arbitrary: st p w l)
  case 0
  then show ?case by simp
next
  case (Suc n)
  obtain st1 p1 w1 l1 where one: "fwd_step (log_net net) api ctx (st, p, (w, l)) = (st1, p1, (w1, l1))"
    by (metis prod_cases4)
  with Suc.prems have "fwd_run (log_net net) api ctx n (st1, p1, (w1, l1)) = (st', p', (w', l'))"
    by (simp add: fwd_run_Suc)
  from Suc.IH [OF this] fwd_step_watch [OF one] show ?case by (auto simp: fwd_run_Suc)
qed

text \<open>However many steps it runs, the requests logged are a prefix of those of the whole function.\<close>

lemma forward_log_prefix:
  assumes "forward (log_net net) api ctx timeout n req p (w, l) = (r, p', (w', l'))"
    and "forward_inner (log_net net) api ctx req p (w, l) = (r2, p2, (w2, l2))"
  shows "\<exists>sent. l2 = l' @ sent"
proof -
  obtain st p1 w1 l1 where run:
    "fwd_run (log_net net) api ctx n (CollectRequest req, p, (w, l)) = (st, p1, (w1, l1))"
    by (metis prod_cases4)
  with assms(1) have "l1 = l'" by (auto simp: forward_def split: option.splits)
  have "reaches (log_net net) api ctx (CollectRequest req, p, (w, l)) (n + 10) (r2, p2, (w2, l2))"
    using fwd_run_forward_inner [of "n + 10" "log_net net" api ctx req p "(w, l)"] assms(2) by simp
  then obtain st2 p3 w3 where "fwd_run (log_net net) api ctx 10 (st, p1, (w1, l1)) = (st2, p3, (w3, l2))"
    using run by (auto simp: reaches_def fwd_run_add split: prod.splits)
  from fwd_run_watch [OF this] \<open>l1 = l'\<close> show ?thesis by simp
qed

lemma forward_watch:
  assumes "forward (log_net net) api ctx timeout n req p (w, l) = (r, p', (w', l'))"
  shows "forward net api ctx timeout n req p w = (r, p', w')"
proof -
  obtain st p1 w1 l1 where run:
    "fwd_run (log_net net) api ctx n (CollectRequest req, p, (w, l)) = (st, p1, (w1, l1))"
    by (metis prod_cases4)
  with fwd_run_watch [OF run] assms show ?thesis by (auto simp: forward_def split: option.splits)
qed

definition carries ::
  "'h header_api \<Rightarrow> fwd_ctx \<Rightarrow> ('h, 'b) request \<Rightarrow> ('h, string) request \<Rightarrow> bool" where
  "carries api ctx req q \<longleftrightarrow>
     req_method q = req_method req \<and> req_uri q = req_uri req \<and>
     (\<forall>k. hm_get_all api (req_headers q) k = forwarded_values api ctx (req_headers req) k)"

lemma build_request_carries:
  assumes "header_laws api" "rewrite_headers api ctx (req_headers req) = Some h"
  shows "carries api ctx req (build_request api \<lparr>req_method = req_method req, req_uri = req_uri req,
           req_headers = h, req_body = body\<rparr>)"
  using rewrite_headers_values [OF assms(1), of ctx "req_headers req"] assms
  by (auto simp: carries_def build_request_values) (simp_all add: build_request_def)

lemma forward_inner_sends:
  assumes laws: "header_laws api"
    and run: "forward_inner (log_net net) api ctx req p (w, l) = (r, p', (w', l'))"
  shows "\<exists>sent. l' = l @ sent \<and> length sent \<le> 2 \<and>
     (\<forall>(c, q) \<in> set sent. carries api ctx req q \<and> fst (collect_body net (req_body req) w) = Inr (req_body q))"
  using forward_inner_log [OF run]
proof
  assume "l' = l"
  then show ?thesis by (intro exI [of _ "[]"]) simp
next
  assume "\<exists>body w1 h. collect_body net (req_body req) w = (Inr body, w1) \<and>
       rewrite_headers api ctx (req_headers req) = Some h \<and>
       wire_ok api \<lparr>req_method = req_method req, req_uri = req_uri req, req_headers = h, req_body = body\<rparr>
         2 l l'"
  then obtain body w1 h cs where body: "collect_body net (req_body req) w = (Inr body, w1)"
    and h: "rewrite_headers api ctx (req_headers req) = Some h"
    and l': "l' = l @ map (\<lambda>c. (c, build_request api \<lparr>req_method = req_method req,
      req_uri = req_uri req, req_headers = h, req_body = body\<rparr>)) cs" "length cs \<le> 2"
    unfolding wire_ok_def by blast
  from l' body build_request_carries [OF laws h, of body] show ?thesis
    by (auto simp: build_request_def)
qed

subsection \<open>The answer\<close>

text \<open>The response passed back is one the upstream sent, its body received right after.\<close>

definition answered ::
  "('w, 'io, 'c, 'h, 'b) net \<Rightarrow> 'h header_api \<Rightarrow> ('h, string) response \<Rightarrow> 'w \<Rightarrow> bool" where
  "answered net api resp w' \<longleftrightarrow>
     (\<exists>c q w1 up w2. send_request net c q w1 = (Inr up, w2) \<and>
        collect_body net (resp_body up) w2 = (Inr (resp_body resp), w') \<and>
        resp = strip_response api up (resp_body resp))"

lemma finish_forward_answered:
  "send_request net c q w1 = (Inr up, w2) \<Longrightarrow>
   finish_forward net api up p w2 = (Returned (Ok resp), p', w') \<Longrightarrow> answered net api resp w'"
  unfolding answered_def
  by (intro exI [of _ c] exI [of _ q] exI [of _ w1] exI [of _ up] exI [of _ w2])
    (auto simp: finish_forward_def strip_response_def split: prod.splits sum.splits)

lemma retry_forward_answered:
  "retry_forward net api ctx parts p w = (Returned (Ok resp), p', w') \<Longrightarrow> answered net api resp w'"
  by (auto simp: retry_forward_def split: prod.splits sum.splits intro: finish_forward_answered)

lemma send_first_answered:
  "send_first net api ctx parts c p w = (Returned (Ok resp), p', w') \<Longrightarrow> answered net api resp w'"
  by (auto simp: send_first_def split: prod.splits sum.splits
      intro: finish_forward_answered retry_forward_answered)

lemma forward_inner_answered:
  "forward_inner net api ctx req p w = (Returned (Ok resp), p', w') \<Longrightarrow> answered net api resp w'"
  by (auto simp: forward_inner_steps split: prod.splits sum.splits option.splits
      intro: send_first_answered)

subsection \<open>Properties\<close>

text \<open>
  C5: forwarding sends at most two requests, wherever the timer cuts it; each has the client's method
  and URI, the client's body, and for every header name the values of \<open>forwarded_values\<close>: the
  upstream as \<open>Host\<close>, the client's address and protocol, no hop-by-hop header, and the client's own
  values for every other name.
\<close>
theorem requests_sent_upstream:
  assumes "header_laws api"
    and "forward (log_net net) api ctx timeout n req p (w, []) = (r, p', (w', sent))"
  shows "length sent \<le> 2 \<and>
         (\<forall>(c, q) \<in> set sent. req_method q = req_method req \<and> req_uri q = req_uri req \<and>
            fst (collect_body net (req_body req) w) = Inr (req_body q) \<and>
            (\<forall>k. hm_get_all api (req_headers q) k = forwarded_values api ctx (req_headers req) k)) \<and>
         forward net api ctx timeout n req p w = (r, p', w')"
proof -
  obtain r2 p2 w2 l2 where whole: "forward_inner (log_net net) api ctx req p (w, []) = (r2, p2, (w2, l2))"
    by (metis prod_cases4)
  from forward_inner_sends [OF assms(1) whole] forward_log_prefix [OF assms(2) whole]
  obtain rest where "length (sent @ rest) \<le> 2" "\<forall>(c, q) \<in> set (sent @ rest). carries api ctx req q \<and>
      fst (collect_body net (req_body req) w) = Inr (req_body q)" by auto
  with forward_watch [OF assms(2)] show ?thesis by (fastforce simp: carries_def)
qed

theorem requests_sent_upstream_witness:
  "list_all (\<lambda>(c, q). hm_get_all list_headers (req_headers q) ''x-forwarded-for'' = [''192.168.0.7''] \<and>
       hm_get_all list_headers (req_headers q) ''connection'' = [])
     (snd (snd (snd (forward (log_net (numbered_net {0})) list_headers example_ctx 5000 10
       example_request (pool_new 1) (0, [])))))"
proof -
  obtain r p' w' sent where run: "forward (log_net (numbered_net {0})) list_headers example_ctx 5000 10
      example_request (pool_new 1) (0, []) = (r, p', (w', sent))"
    by (metis prod_cases4)
  have "forwarded_values list_headers example_ctx (req_headers example_request) ''x-forwarded-for'' =
      [''192.168.0.7'']"
    "forwarded_values list_headers example_ctx (req_headers example_request) ''connection'' = []"
    by code_simp+
  with requests_sent_upstream [OF list_headers_laws run] run show ?thesis by (auto simp: list_all_iff)
qed

text \<open>
  C24: a response passed back is the one the upstream sent to the last request it was sent: it keeps
  the status and the values of every header that is not hop-by-hop, has no hop-by-hop header, and its
  body is the upstream's, received right after the response.
\<close>
theorem response_passed_back:
  assumes "header_laws api"
    and "forward (log_net net) api ctx timeout n req p (w, []) = (Returned (Ok resp), p', (w', sent))"
  shows "\<exists>c q w1 up w2. sent \<noteq> [] \<and> last sent = (c, q) \<and> send_request net c q w1 = (Inr up, w2) \<and>
     collect_body net (resp_body up) w2 = (Inr (resp_body resp), w') \<and>
     resp_status resp = resp_status up \<and>
     (\<forall>k. hm_get_all api (resp_headers resp) k =
        (if k \<in> set hop_by_hop then [] else hm_get_all api (resp_headers up) k))"
proof -
  have "forward_inner (log_net net) api ctx req p (w, []) = (Returned (Ok resp), p', (w', sent))"
    using forward_cut [of "log_net net" api ctx timeout n req p "(w, [])"] assms(2) by auto
  from forward_inner_answered [OF this] obtain c q w1 l1 up w2 l2 where
    up: "send_request (log_net net) c q (w1, l1) = (Inr up, (w2, l2))"
      "collect_body (log_net net) (resp_body up) (w2, l2) = (Inr (resp_body resp), (w', sent))"
      "resp = strip_response api up (resp_body resp)" unfolding answered_def by auto
  from up(3) strip_response_values [OF assms(1), of up "resp_body resp"]
  have "resp_status resp = resp_status up" "\<forall>k. hm_get_all api (resp_headers resp) k =
        (if k \<in> set hop_by_hop then [] else hm_get_all api (resp_headers up) k)"
    by (metis response.select_convs(1) strip_response_def, metis)
  moreover from up(1,2) have "send_request net c q w1 = (Inr up, w2)" "sent = l1 @ [(c, q)]"
    "collect_body net (resp_body up) w2 = (Inr (resp_body resp), w')"
    by (auto split: prod.splits)
  ultimately show ?thesis by (intro exI) auto
qed

theorem response_passed_back_witness:
  "\<exists>c q w1 up w2. send_request (numbered_net {0}) c q w1 = (Inr up, w2) \<and> c = 1 \<and>
     collect_body (numbered_net {0}) (resp_body up) w2 = (Inr ''hello'', 2) \<and>
     200 = resp_status up \<and>
     (\<forall>k. hm_get_all list_headers [(''x-served-by'', ''1'')] k =
        (if k \<in> set hop_by_hop then [] else hm_get_all list_headers (resp_headers up) k))"
proof -
  let ?run = "forward (log_net (numbered_net {0})) list_headers example_ctx 5000 10 example_request (pool_new 1) (0, [])"
  have "fst ?run = Returned (Ok \<lparr>resp_status = 200, resp_headers = [(''x-served-by'', ''1'')],
      resp_body = ''hello''\<rparr>)" "fst (snd (snd ?run)) = 2" "fst (last (snd (snd (snd ?run)))) = 1" by code_simp+
  then obtain p' sent where run: "?run = (Returned (Ok \<lparr>resp_status = 200, resp_headers = [(''x-served-by'', ''1'')],
      resp_body = ''hello''\<rparr>), p', (2, sent))" and last: "fst (last sent) = 1" by (cases ?run) auto
  from response_passed_back [OF list_headers_laws run] show ?thesis
  proof (elim exE conjE)
    fix c q w1 up w2
    assume "last sent = (c, q)"
    with last have "c = 1" by simp
    moreover assume "send_request (numbered_net {0}) c q w1 = (Inr up, w2)"
      "collect_body (numbered_net {0}) (resp_body up) w2 =
        (Inr (resp_body \<lparr>resp_status = 200, resp_headers = [(''x-served-by'', ''1'')], resp_body = ''hello''\<rparr>), 2)"
      "resp_status \<lparr>resp_status = 200, resp_headers = [(''x-served-by'', ''1'')], resp_body = ''hello''\<rparr> = resp_status up"
      "\<forall>k. hm_get_all list_headers (resp_headers \<lparr>resp_status = 200, resp_headers = [(''x-served-by'', ''1'')],
          resp_body = ''hello''\<rparr>) k =
        (if k \<in> set hop_by_hop then [] else hm_get_all list_headers (resp_headers up) k)"
    ultimately show ?thesis
      by (intro exI [of _ c] exI [of _ q] exI [of _ w1] exI [of _ up] exI [of _ w2]) simp
  qed
qed

text \<open>
  Forwarding never panics: the two header values it builds itself are always valid.
\<close>
theorem forward_never_panics:
  assumes "header_laws api"
  shows "fst (forward net api ctx timeout n req p w) \<noteq> Panicked"
  using assms by (rule forward_no_panic)

theorem forward_never_panics_witness:
  "fst (forward (numbered_net {0, 1}) list_headers example_ctx 5000 3 example_request (pool_new 1) 0) \<noteq> Panicked"
  by (rule forward_never_panics [OF list_headers_laws])

subsection \<open>Where the code and its comments part\<close>

text \<open>The retry is not limited to pooled connections or to idempotent methods.\<close>

lemma post_resent_on_fresh_failure:
  "map (\<lambda>(c, q). (c, req_method q)) (snd (snd (snd (forward (log_net (numbered_net {0})) list_headers example_ctx
     5000 10 example_request (pool_new 1) (0, []))))) = [(0, ''POST''), (1, ''POST'')]"
  by code_simp

text \<open>The forwarded host is the upstream's own address, whatever host the client named.\<close>

lemma forwarded_host_is_upstream:
  "hv_from_str api (upstream_addr ctx) \<Longrightarrow>
   forwarded_values api ctx h ''x-forwarded-host'' = [upstream_addr ctx]"
  by (simp add: forwarded_values_def host_values_def)

text \<open>A connection is idle in the pool while the body of its response is still to be read.\<close>

lemma released_before_body_read:
  assumes "length (idle_list p (upstream_addr ctx)) < max_idle_per_host p"
    and "fwd_step net api ctx (GiveBack c resp, p, w) = (st, p', w')"
  shows "st = CollectResponse resp \<and> c \<in> set (idle_list p' (upstream_addr ctx))"
  using assms by (auto simp: release_def idle_list_def Let_def split: option.splits)

text \<open>The name filtered is \<open>trailers\<close>, which is not the header \<open>trailer\<close>.\<close>

lemma trailer_passed_on: "forwarded_values api ctx h ''trailer'' = hm_get_all api h ''trailer''"
  by (simp add: forwarded_values_def hop_by_hop_def)

end
