(* ===== verification/Metrics.thy ===== *)
theory Metrics
  imports Proxy_Prelude
begin

section \<open>Metrics (\<open>src/metrics.rs\<close>)\<close>

text \<open>
  Six 64-bit atomic counters, shared by all request tasks. One \<open>Metrics::record\<close> is several
  \<open>fetch_add\<close> calls, each atomic and wrapping, with other tasks' calls possible in between, so
  it is modelled as the list of its additions; \<open>metrics_record\<close> runs them without interruption.
\<close>

subsection \<open>Counters\<close>

record metrics =
  requests_total :: u64
  requests_2xx :: u64
  requests_4xx :: u64
  requests_5xx :: u64
  requests_blocked :: u64
  response_time_ms_total :: u64

definition metrics_new :: metrics where
  "metrics_new = \<lparr>requests_total = 0, requests_2xx = 0, requests_4xx = 0, requests_5xx = 0,
     requests_blocked = 0, response_time_ms_total = 0\<rparr>"

datatype counter = CTotal | C2xx | C4xx | C5xx | CBlocked | CTimeMs

fun counter_value :: "counter \<Rightarrow> metrics \<Rightarrow> u64" where
  "counter_value CTotal m = requests_total m"
| "counter_value C2xx m = requests_2xx m"
| "counter_value C4xx m = requests_4xx m"
| "counter_value C5xx m = requests_5xx m"
| "counter_value CBlocked m = requests_blocked m"
| "counter_value CTimeMs m = response_time_ms_total m"

text \<open>\<open>AtomicU64::fetch_add\<close>: wraps around.\<close>

fun fetch_add :: "counter \<times> u64 \<Rightarrow> metrics \<Rightarrow> metrics" where
  "fetch_add (CTotal, n) m = m\<lparr>requests_total := requests_total m + n\<rparr>"
| "fetch_add (C2xx, n) m = m\<lparr>requests_2xx := requests_2xx m + n\<rparr>"
| "fetch_add (C4xx, n) m = m\<lparr>requests_4xx := requests_4xx m + n\<rparr>"
| "fetch_add (C5xx, n) m = m\<lparr>requests_5xx := requests_5xx m + n\<rparr>"
| "fetch_add (CBlocked, n) m = m\<lparr>requests_blocked := requests_blocked m + n\<rparr>"
| "fetch_add (CTimeMs, n) m = m\<lparr>response_time_ms_total := response_time_ms_total m + n\<rparr>"

subsection \<open>\<open>Metrics::record\<close>\<close>

text \<open>The match on the status; a status of another class touches no counter.\<close>

definition status_counter :: "u16 \<Rightarrow> counter option" where
  "status_counter status =
     (if 200 \<le> status \<and> status \<le> 299 then Some C2xx
      else if 400 \<le> status \<and> status \<le> 499 then Some C4xx
      else if 500 \<le> status \<and> status \<le> 599 then Some C5xx
      else None)"

definition record_ops :: "u16 \<Rightarrow> u64 \<Rightarrow> bool \<Rightarrow> (counter \<times> u64) list" where
  "record_ops status elapsed_ms blocked =
     [(CTotal, 1), (CTimeMs, elapsed_ms)] @
     (if blocked then [(CBlocked, 1)]
      else (case status_counter status of None \<Rightarrow> [] | Some c \<Rightarrow> [(c, 1)]))"

definition metrics_run :: "(counter \<times> u64) list \<Rightarrow> metrics \<Rightarrow> metrics" where
  "metrics_run ops m = fold fetch_add ops m"

definition metrics_record :: "u16 \<Rightarrow> u64 \<Rightarrow> bool \<Rightarrow> metrics \<Rightarrow> metrics" where
  "metrics_record status elapsed_ms blocked m = metrics_run (record_ops status elapsed_ms blocked) m"

text \<open>One call's arguments, and a sequence of calls.\<close>

record observation =
  obs_status :: u16
  obs_elapsed_ms :: u64
  obs_blocked :: bool

definition ops_of :: "observation \<Rightarrow> (counter \<times> u64) list" where
  "ops_of r = record_ops (obs_status r) (obs_elapsed_ms r) (obs_blocked r)"

definition record_all :: "observation list \<Rightarrow> metrics \<Rightarrow> metrics" where
  "record_all rs m =
     fold (\<lambda>r. metrics_record (obs_status r) (obs_elapsed_ms r) (obs_blocked r)) rs m"

subsection \<open>\<open>Metrics::render\<close>\<close>

definition mean_ms :: "metrics \<Rightarrow> u64" where
  "mean_ms m =
     (if 0 < requests_total m then response_time_ms_total m div requests_total m else 0)"

definition render :: "metrics \<Rightarrow> string" where
  "render m =
     ''# HELP prismproxy_requests_total Total requests handled'' @ newline @
     ''# TYPE prismproxy_requests_total counter'' @ newline @
     ''prismproxy_requests_total '' @ dec (unat (requests_total m)) @ newline @
     ''# HELP prismproxy_requests_2xx 2xx responses'' @ newline @
     ''# TYPE prismproxy_requests_2xx counter'' @ newline @
     ''prismproxy_requests_2xx '' @ dec (unat (requests_2xx m)) @ newline @
     ''# HELP prismproxy_requests_4xx 4xx responses'' @ newline @
     ''# TYPE prismproxy_requests_4xx counter'' @ newline @
     ''prismproxy_requests_4xx '' @ dec (unat (requests_4xx m)) @ newline @
     ''# HELP prismproxy_requests_5xx 5xx responses'' @ newline @
     ''# TYPE prismproxy_requests_5xx counter'' @ newline @
     ''prismproxy_requests_5xx '' @ dec (unat (requests_5xx m)) @ newline @
     ''# HELP prismproxy_requests_blocked Requests blocked by plugins'' @ newline @
     ''# TYPE prismproxy_requests_blocked counter'' @ newline @
     ''prismproxy_requests_blocked '' @ dec (unat (requests_blocked m)) @ newline @
     ''# HELP prismproxy_response_time_ms_mean Mean response time in ms'' @ newline @
     ''# TYPE prismproxy_response_time_ms_mean gauge'' @ newline @
     ''prismproxy_response_time_ms_mean '' @ dec (unat (mean_ms m)) @ newline"

subsection \<open>Any interleaving of the additions gives the same counters\<close>

lemma fetch_add_value:
  "counter_value c (fetch_add (d, n) m) = counter_value c m + (if c = d then n else 0)"
  by (cases c; cases d) simp_all

lemma metrics_eqI:
  assumes eq: "\<And>c. counter_value c m = counter_value c m'"
  shows "m = (m' :: metrics)"
proof (rule metrics.equality)
  show "requests_total m = requests_total m'" using eq [of CTotal] by simp
  show "requests_2xx m = requests_2xx m'" using eq [of C2xx] by simp
  show "requests_4xx m = requests_4xx m'" using eq [of C4xx] by simp
  show "requests_5xx m = requests_5xx m'" using eq [of C5xx] by simp
  show "requests_blocked m = requests_blocked m'" using eq [of CBlocked] by simp
  show "response_time_ms_total m = response_time_ms_total m'" using eq [of CTimeMs] by simp
qed simp

definition added :: "counter \<Rightarrow> (counter \<times> u64) list \<Rightarrow> u64" where
  "added c ops = sum_list (map snd (filter (\<lambda>op. fst op = c) ops))"

lemma added_simps [simp]:
  "added c [] = 0"
  "added c (op # ops) = (if fst op = c then snd op else 0) + added c ops"
  "added c (ops @ ops') = added c ops + added c ops'"
  by (simp_all add: added_def)

lemma metrics_run_value: "counter_value c (metrics_run ops m) = counter_value c m + added c ops"
proof (induction ops arbitrary: m)
  case Nil
  then show ?case by (simp add: metrics_run_def)
next
  case (Cons op ops)
  have "metrics_run (op # ops) m = metrics_run ops (fetch_add (fst op, snd op) m)"
    by (simp add: metrics_run_def)
  with Cons.IH show ?case by (simp only: fetch_add_value added_simps) (simp add: add.assoc)
qed

lemma metrics_run_append: "metrics_run (ops @ ops') m = metrics_run ops' (metrics_run ops m)"
  by (simp add: metrics_run_def)

lemma added_mset: "mset ops = mset ops' \<Longrightarrow> added c ops = added c ops'"
proof -
  assume eq: "mset ops = mset ops'"
  have "added c xs = sum_mset (image_mset snd (filter_mset (\<lambda>op. fst op = c) (mset xs)))" for xs
    by (induction xs) simp_all
  with eq show ?thesis by simp
qed

lemma metrics_run_permutation:
  "mset ops = mset ops' \<Longrightarrow> metrics_run ops m = metrics_run ops' m"
  by (rule metrics_eqI) (simp only: metrics_run_value added_mset [of ops ops'])

lemma record_all_ops: "record_all rs m = metrics_run (concat (map ops_of rs)) m"
  by (induction rs arbitrary: m)
    (simp_all add: record_all_def metrics_record_def ops_of_def metrics_run_append, simp add: metrics_run_def)

lemma record_all_interleaved:
  "mset ops = mset (concat (map ops_of rs)) \<Longrightarrow> metrics_run ops m = record_all rs m"
  by (simp only: record_all_ops metrics_run_permutation [of ops "concat (map ops_of rs)"])

subsection \<open>What the counters count\<close>

definition counted_as :: "counter \<Rightarrow> observation \<Rightarrow> bool" where
  "counted_as c r \<longleftrightarrow>
     (case c of CTotal \<Rightarrow> True | CTimeMs \<Rightarrow> False
      | CBlocked \<Rightarrow> obs_blocked r
      | _ \<Rightarrow> \<not> obs_blocked r \<and> status_counter (obs_status r) = Some c)"

text \<open>The class of a call that is not blocked, by the first digit of its status.\<close>

definition in_class :: "nat \<Rightarrow> observation \<Rightarrow> bool" where
  "in_class k r \<longleftrightarrow> \<not> obs_blocked r \<and> unat (obs_status r) div 100 = k"

lemma counted_as_class:
  "counted_as CTotal = (\<lambda>r. True)" "counted_as CBlocked = obs_blocked"
  "counted_as C2xx = in_class 2" "counted_as C4xx = in_class 4" "counted_as C5xx = in_class 5"
  by (auto simp: fun_eq_iff counted_as_def in_class_def status_counter_def word_le_nat_alt split: if_splits)

lemma added_ops_of:
  "c \<noteq> CTimeMs \<Longrightarrow> added c (ops_of r) = (if counted_as c r then 1 else 0)"
  by (cases c) (auto simp: ops_of_def record_ops_def counted_as_def status_counter_def)

lemma added_time_ops_of: "added CTimeMs (ops_of r) = obs_elapsed_ms r"
  by (auto simp: ops_of_def record_ops_def status_counter_def)

lemma record_all_counts:
  assumes "c \<noteq> CTimeMs"
  shows "counter_value c (record_all rs m) = counter_value c m + of_nat (length (filter (counted_as c) rs))"
  unfolding record_all_ops metrics_run_value
  by (induction rs) (simp_all add: added_ops_of [OF assms])

lemma record_all_time:
  "response_time_ms_total (record_all rs m) =
     response_time_ms_total m + sum_list (map obs_elapsed_ms rs)"
proof -
  have "added CTimeMs (concat (map ops_of rs)) = sum_list (map obs_elapsed_ms rs)"
    by (induction rs) (simp_all add: added_time_ops_of)
  then show ?thesis
    using metrics_run_value [of CTimeMs] by (simp add: record_all_ops)
qed

lemma counter_new [simp]: "counter_value c metrics_new = 0"
  by (cases c) (simp_all add: metrics_new_def)

text \<open>Every response is counted in at most one class; the rest have another status.\<close>

definition uncounted :: "observation \<Rightarrow> bool" where
  "uncounted r \<longleftrightarrow> \<not> obs_blocked r \<and> status_counter (obs_status r) = None"

lemma classes_partition:
  "length rs = length (filter (counted_as C2xx) rs) + length (filter (counted_as C4xx) rs) +
     length (filter (counted_as C5xx) rs) + length (filter (counted_as CBlocked) rs) +
     length (filter uncounted rs)"
  by (induction rs) (auto simp: counted_as_def uncounted_def status_counter_def split: if_splits)

lemma record_all_partition:
  "requests_total (record_all rs metrics_new) =
     requests_2xx (record_all rs metrics_new) + requests_4xx (record_all rs metrics_new) +
     requests_5xx (record_all rs metrics_new) + requests_blocked (record_all rs metrics_new) +
     of_nat (length (filter uncounted rs))"
proof -
  have count: "counter_value c (record_all rs metrics_new) = of_nat (length (filter (counted_as c) rs))"
    if "c \<noteq> CTimeMs" for c
    using record_all_counts [OF that, of rs metrics_new] by simp
  have "filter (counted_as CTotal) rs = rs" by (simp add: counted_as_def)
  with count [of CTotal] have "requests_total (record_all rs metrics_new) = of_nat (length rs)" by simp
  also have "\<dots> = of_nat (length (filter (counted_as C2xx) rs)) + of_nat (length (filter (counted_as C4xx) rs)) +
     of_nat (length (filter (counted_as C5xx) rs)) + of_nat (length (filter (counted_as CBlocked) rs)) +
     of_nat (length (filter uncounted rs))"
    by (subst classes_partition [of rs]) (simp only: of_nat_add)
  finally show ?thesis
    using count [of C2xx] count [of C4xx] count [of C5xx] count [of CBlocked] by simp
qed

subsection \<open>The mean\<close>

lemma unat_sum_list:
  "sum_list (map unat ws) < 2 ^ 64 \<Longrightarrow> unat (sum_list (ws :: u64 list)) = sum_list (map unat ws)"
proof (induction ws)
  case Nil
  then show ?case by simp
next
  case (Cons w ws)
  then have "unat (sum_list ws) = sum_list (map unat ws)" by simp
  with Cons.prems show ?case by (simp add: unat_word_ariths)
qed

lemma mean_ms_exact:
  assumes "sum_list (map (unat \<circ> obs_elapsed_ms) rs) < 2 ^ 64" "length rs < 2 ^ 64"
  shows "unat (mean_ms (record_all rs metrics_new)) =
         sum_list (map (unat \<circ> obs_elapsed_ms) rs) div length rs"
proof -
  let ?m = "record_all rs metrics_new"
  have "requests_total ?m = of_nat (length rs)"
    using record_all_counts [of CTotal rs metrics_new] by (simp add: counted_as_def metrics_new_def)
  with assms(2) have total: "unat (requests_total ?m) = length rs"
    by (simp add: unat_of_nat)
  have "response_time_ms_total ?m = sum_list (map obs_elapsed_ms rs)"
    by (simp add: record_all_time metrics_new_def)
  with assms(1) have time: "unat (response_time_ms_total ?m) = sum_list (map (unat \<circ> obs_elapsed_ms) rs)"
    using unat_sum_list [of "map obs_elapsed_ms rs"] by simp
  show ?thesis
  proof (cases "0 < requests_total ?m")
    case True
    then show ?thesis by (simp add: mean_ms_def unat_div total time)
  next
    case False
    then have "requests_total ?m = 0" by (simp add: word_gt_0)
    with total have "length rs = 0" by simp
    with False show ?thesis by (simp add: mean_ms_def)
  qed
qed

subsection \<open>The text parses back to the counters\<close>

text \<open>
  A reader of the Prometheus text format: split into lines, skip the comments, split a sample at
  the first space.
\<close>

fun split_lines :: "string \<Rightarrow> string list" where
  "split_lines [] = []"
| "split_lines (c # s) =
     (if c = CHR 0x0A then [] # split_lines s
      else (case split_lines s of [] \<Rightarrow> [[c]] | l # ls \<Rightarrow> (c # l) # ls))"

definition sample_of :: "string \<Rightarrow> (string \<times> string) option" where
  "sample_of l =
     (if starts_with ''#'' l then None
      else Some (split_head (CHR '' '') l, drop (Suc (length (split_head (CHR '' '') l))) l))"

definition scrape :: "string \<Rightarrow> (string \<times> string) list" where
  "scrape s = map the (filter (\<lambda>x. x \<noteq> None) (map sample_of (split_lines s)))"

lemma split_lines_Cons:
  "list_all (\<lambda>c. c \<noteq> CHR 0x0A) l \<Longrightarrow> split_lines (l @ newline @ s) = l # split_lines s"
  by (induction l) (auto simp: newline_def)

lemma no_newline_dec [simp]: "list_all (\<lambda>c. c \<noteq> CHR 0x0A) (dec n)"
proof -
  have "\<not> is_digit (CHR 0x0A)" by (simp add: is_digit_def)
  then have "c \<noteq> CHR 0x0A" if "c \<in> set (dec n)" for c
    using dec_digits [OF that] by blast
  then show ?thesis by (simp add: list_all_iff)
qed

lemma scrape_comment:
  "list_all (\<lambda>c. c \<noteq> CHR 0x0A) l \<Longrightarrow> scrape ((CHR ''#'' # l) @ newline @ s) = scrape s"
  using split_lines_Cons [of "CHR ''#'' # l" s]
  by (simp add: scrape_def sample_of_def)

lemma split_head_app: "list_all (\<lambda>x. x \<noteq> c) n \<Longrightarrow> split_head c (n @ c # v) = n"
  unfolding split_head_def by (induction n) auto

lemma scrape_sample:
  assumes "list_all (\<lambda>c. c \<noteq> CHR 0x0A \<and> c \<noteq> CHR '' '' \<and> c \<noteq> CHR ''#'') n"
    and "list_all (\<lambda>c. c \<noteq> CHR 0x0A) v"
  shows "scrape (n @ CHR '' '' # v @ newline @ s) = (n, v) # scrape s"
proof -
  let ?l = "n @ CHR '' '' # v"
  have "list_all (\<lambda>c. c \<noteq> CHR 0x0A) ?l" using assms by (auto simp: list_all_iff)
  then have "split_lines (?l @ newline @ s) = ?l # split_lines s" by (rule split_lines_Cons)
  moreover have "sample_of ?l = Some (n, v)"
  proof -
    have "split_head (CHR '' '') ?l = n" using assms(1) by (intro split_head_app) (auto simp: list_all_iff)
    moreover have "\<not> starts_with ''#'' ?l" using assms(1) by (cases n) auto
    ultimately show ?thesis by (simp add: sample_of_def)
  qed
  ultimately show ?thesis by (simp add: scrape_def)
qed

lemma scrape_Nil [simp]: "scrape [] = []"
  by (simp add: scrape_def)

text \<open>One HELP, TYPE and sample block of the text.\<close>

definition metric_block :: "string \<Rightarrow> string \<Rightarrow> string \<Rightarrow> nat \<Rightarrow> string" where
  "metric_block h t n v =
     ''#'' @ h @ newline @ ''#'' @ t @ newline @ n @ '' '' @ dec v @ newline"

lemma scrape_block:
  assumes "list_all (\<lambda>c. c \<noteq> CHR 0x0A) h" "list_all (\<lambda>c. c \<noteq> CHR 0x0A) t"
    and "list_all (\<lambda>c. c \<noteq> CHR 0x0A \<and> c \<noteq> CHR '' '' \<and> c \<noteq> CHR ''#'') n"
  shows "scrape (metric_block h t n v @ s) = (n, dec v) # scrape s"
  using scrape_comment [OF assms(1), of "(''#'' @ t) @ newline @ n @ '' '' @ dec v @ newline @ s"]
    scrape_comment [OF assms(2), of "n @ '' '' @ dec v @ newline @ s"]
    scrape_sample [OF assms(3) no_newline_dec, of v s]
  by (simp add: metric_block_def)

lemma render_blocks:
  "render m =
     metric_block '' HELP prismproxy_requests_total Total requests handled''
       '' TYPE prismproxy_requests_total counter'' ''prismproxy_requests_total''
       (unat (requests_total m)) @
     metric_block '' HELP prismproxy_requests_2xx 2xx responses''
       '' TYPE prismproxy_requests_2xx counter'' ''prismproxy_requests_2xx''
       (unat (requests_2xx m)) @
     metric_block '' HELP prismproxy_requests_4xx 4xx responses''
       '' TYPE prismproxy_requests_4xx counter'' ''prismproxy_requests_4xx''
       (unat (requests_4xx m)) @
     metric_block '' HELP prismproxy_requests_5xx 5xx responses''
       '' TYPE prismproxy_requests_5xx counter'' ''prismproxy_requests_5xx''
       (unat (requests_5xx m)) @
     metric_block '' HELP prismproxy_requests_blocked Requests blocked by plugins''
       '' TYPE prismproxy_requests_blocked counter'' ''prismproxy_requests_blocked''
       (unat (requests_blocked m)) @
     metric_block '' HELP prismproxy_response_time_ms_mean Mean response time in ms''
       '' TYPE prismproxy_response_time_ms_mean gauge'' ''prismproxy_response_time_ms_mean''
       (unat (mean_ms m)) @ []"
  by (simp only: render_def metric_block_def append_assoc append_Nil append_Cons append_Nil2)

lemma scrape_render:
  "scrape (render m) =
     [(''prismproxy_requests_total'', dec (unat (requests_total m))),
      (''prismproxy_requests_2xx'', dec (unat (requests_2xx m))),
      (''prismproxy_requests_4xx'', dec (unat (requests_4xx m))),
      (''prismproxy_requests_5xx'', dec (unat (requests_5xx m))),
      (''prismproxy_requests_blocked'', dec (unat (requests_blocked m))),
      (''prismproxy_response_time_ms_mean'', dec (unat (mean_ms m)))]"
  unfolding render_blocks by (simp add: scrape_block del: append_Nil2)

subsection \<open>Properties\<close>

text \<open>
  C18: however the atomic additions of concurrent \<open>record\<close> calls interleave, each call is counted once in
  the total, once under blocked or under the class of its status (\<open>in_class\<close>), never both, and with its
  time; modulo \<open>2 ^ 64\<close>. A blocked call and one of another status are in no class.
\<close>
theorem metrics_any_interleaving:
  assumes "mset ops = mset (concat (map ops_of rs))"
  shows "requests_total (metrics_run ops m) = requests_total m + of_nat (length rs) \<and>
    requests_blocked (metrics_run ops m) = requests_blocked m + of_nat (length (filter obs_blocked rs)) \<and>
    requests_2xx (metrics_run ops m) = requests_2xx m + of_nat (length (filter (in_class 2) rs)) \<and>
    requests_4xx (metrics_run ops m) = requests_4xx m + of_nat (length (filter (in_class 4) rs)) \<and>
    requests_5xx (metrics_run ops m) = requests_5xx m + of_nat (length (filter (in_class 5) rs)) \<and>
    response_time_ms_total (metrics_run ops m) = response_time_ms_total m + sum_list (map obs_elapsed_ms rs)"
  using record_all_counts [of CTotal rs m] record_all_counts [of CBlocked rs m] record_all_counts [of C2xx rs m]
    record_all_counts [of C4xx rs m] record_all_counts [of C5xx rs m] record_all_time [of rs m]
  by (simp add: record_all_interleaved [OF assms] counted_as_class)

definition example_observations :: "observation list" where
  "example_observations =
     [\<lparr>obs_status = 200, obs_elapsed_ms = 7, obs_blocked = False\<rparr>,
      \<lparr>obs_status = 403, obs_elapsed_ms = 2, obs_blocked = True\<rparr>]"

theorem metrics_any_interleaving_witness:
  "metrics_run [(CTotal, 1), (CTotal, 1), (CTimeMs, 2), (CBlocked, 1), (CTimeMs, 7), (C2xx, 1)] metrics_new =
   \<lparr>requests_total = 2, requests_2xx = 1, requests_4xx = 0, requests_5xx = 0, requests_blocked = 1,
    response_time_ms_total = 9\<rparr>"
proof -
  let ?ops = "[(CTotal, 1), (CTotal, 1), (CTimeMs, 2), (CBlocked, 1), (CTimeMs, 7), (C2xx, 1)] :: (counter \<times> u64) list"
  have "mset ?ops = mset (concat (map ops_of example_observations))"
    by (simp add: example_observations_def ops_of_def record_ops_def status_counter_def)
  from metrics_any_interleaving [OF this, of metrics_new] show ?thesis
    by (intro metrics.equality) (simp_all add: example_observations_def in_class_def metrics_new_def)
qed

text \<open>
  Of the responses recorded, the total is the sum of the 2xx, 4xx, 5xx and blocked counters and
  of those no counter has (a status of another class, not blocked); a blocked one is never a 4xx.
\<close>
theorem metrics_classes_partition:
  "requests_total (record_all rs metrics_new) =
     requests_2xx (record_all rs metrics_new) + requests_4xx (record_all rs metrics_new) +
     requests_5xx (record_all rs metrics_new) + requests_blocked (record_all rs metrics_new) +
     of_nat (length (filter uncounted rs))"
  by (rule record_all_partition)

text \<open>
  The rendered mean is the rounded-down mean of the recorded times, as long as their sum and
  their number fit 64 bits.
\<close>
theorem metrics_mean_exact:
  assumes "sum_list (map (unat \<circ> obs_elapsed_ms) rs) < 2 ^ 64" "length rs < 2 ^ 64"
  shows "unat (mean_ms (record_all rs metrics_new)) =
         sum_list (map (unat \<circ> obs_elapsed_ms) rs) div length rs"
  using assms by (rule mean_ms_exact)

theorem metrics_mean_exact_witness:
  "unat (mean_ms (record_all example_observations metrics_new)) = 4"
  by (subst metrics_mean_exact) (simp_all add: example_observations_def numeral_2_eq_2 [symmetric])

text \<open>
  C36: a reader of the Prometheus text format gets from the rendered text exactly the six samples,
  under their names, in order, with the decimal value of each counter and of the mean.
\<close>
theorem metrics_render_scrapes_back:
  "scrape (render m) =
     [(''prismproxy_requests_total'', dec (unat (requests_total m))),
      (''prismproxy_requests_2xx'', dec (unat (requests_2xx m))),
      (''prismproxy_requests_4xx'', dec (unat (requests_4xx m))),
      (''prismproxy_requests_5xx'', dec (unat (requests_5xx m))),
      (''prismproxy_requests_blocked'', dec (unat (requests_blocked m))),
      (''prismproxy_response_time_ms_mean'', dec (unat (mean_ms m)))]"
  by (rule scrape_render)

end
