(* ===== verification/Handler.thy ===== *)
theory Handler
  imports App_State Forward_Wire Metrics
begin

section \<open>The request handler (\<open>src/handler.rs\<close>)\<close>

text \<open>
  \<open>handle\<close> answers one request: \<open>/metrics\<close> directly, everything else through \<open>route\<close>, recording the
  outcome. It works on the snapshot of the application state it loaded. What the code reads from
  clocks and from the connection is in \<open>req_env\<close>: the client's address, whether the connection
  is TLS, the printed uptime (\<open>{:.1}\<close> of a float), the elapsed milliseconds, and how many steps the
  forwarding gets to run before its timer fires. Log lines are not modelled.
\<close>

record req_env =
  env_client :: socket_addr
  env_is_tls :: bool
  env_uptime :: string
  env_elapsed_ms :: u64
  env_steps :: nat

subsection \<open>Responses the proxy makes itself\<close>

definition make_response :: "'h header_api \<Rightarrow> u16 \<Rightarrow> string \<Rightarrow> string \<Rightarrow> ('h, string) response" where
  "make_response api status content_type body =
     \<lparr>resp_status = status,
      resp_headers = hm_append api ''content-type'' content_type (hm_empty api),
      resp_body = body\<rparr>"

definition dquoted :: "string \<Rightarrow> string" where
  "dquoted s = CHR 0x22 # s @ [CHR 0x22]"

definition bool_to_string :: "bool \<Rightarrow> string" where
  "bool_to_string b = (if b then ''true'' else ''false'')"

definition cargo_pkg_version :: string where
  "cargo_pkg_version = ''0.1.0''"

definition health_body :: "string \<Rightarrow> nat \<Rightarrow> bool \<Rightarrow> string" where
  "health_body uptime n tls_on =
     ''{'' @ dquoted ''status'' @ '':'' @ dquoted ''ok'' @ '','' @
     dquoted ''version'' @ '':'' @ dquoted cargo_pkg_version @ '','' @
     dquoted ''uptime_secs'' @ '':'' @ uptime @ '','' @
     dquoted ''routes'' @ '':'' @ dec n @ '','' @
     dquoted ''tls'' @ '':'' @ bool_to_string tls_on @ ''}''"

definition health_response :: "'h header_api \<Rightarrow> string \<Rightarrow> nat \<Rightarrow> bool \<Rightarrow> ('h, string) response" where
  "health_response api uptime n tls_on =
     make_response api 200 ''application/json'' (health_body uptime n tls_on)"

definition blocked_response :: "'h header_api \<Rightarrow> ('h, string) response" where
  "blocked_response api = make_response api 403 ''text/plain'' (''403 Forbidden'' @ newline)"

definition error_status_body :: "proxy_error \<Rightarrow> u16 \<times> string" where
  "error_status_body e =
     (case e of
        NoRoute _ \<Rightarrow> (404, proxy_error_to_string e)
      | UpstreamConnect _ \<Rightarrow> (502, proxy_error_to_string e)
      | TimeoutError _ \<Rightarrow> (504, proxy_error_to_string e)
      | UpstreamUnhealthy _ \<Rightarrow> (503, proxy_error_to_string e)
      | _ \<Rightarrow> (500, ''internal error''))"

definition error_response :: "'h header_api \<Rightarrow> proxy_error \<Rightarrow> ('h, string) response" where
  "error_response api e =
     (case error_status_body e of (status, body) \<Rightarrow> make_response api status ''text/plain'' body)"

subsection \<open>Routing\<close>

text \<open>The first route whose prefix the path starts with.\<close>

definition find_route :: "'m route_state list \<Rightarrow> string \<Rightarrow> 'm route_state option" where
  "find_route sts path = find (\<lambda>rs. starts_with (path_prefix (rs_route rs)) path) sts"

definition forward_ctx :: "req_env \<Rightarrow> 'm route_state \<Rightarrow> fwd_ctx" where
  "forward_ctx env rs =
     \<lparr>upstream_addr = upstream (rs_route rs), client_addr = env_client env, is_tls = env_is_tls env\<rparr>"

definition route ::
  "'h header_api \<Rightarrow> ('w, 'io, 'c, 'h, 'b) net \<Rightarrow> ('m, 's) wasm_api \<Rightarrow> req_env \<Rightarrow>
   ('m, 'acc) app_state \<Rightarrow> flag_heap \<Rightarrow> ('h, 'b) request \<Rightarrow> 'c pool \<Rightarrow> 'w \<Rightarrow>
   (proxy_error + ('h, string) response \<times> bool) outcome \<times> 'c pool \<times> 'w" where
  "route api net wasm env st hp req p w =
     (let path = uri_path (req_uri req)
      in if path = ''/health'' then
           (Returned (Ok (health_response api (env_uptime env) (length (app_routes st)) (app_tls st \<noteq> None),
              False)), p, w)
         else
           (case find_route (app_routes st) path of
              None \<Rightarrow> (Returned (Err (NoRoute path)), p, w)
            | Some rs \<Rightarrow>
                (if \<not> flag_load hp (rs_healthy rs) then
                   (Returned (Err (UpstreamUnhealthy (upstream (rs_route rs)))), p, w)
                 else
                   (case run_on_request wasm (rs_runtime rs) (req_method req) path of
                      Inl e \<Rightarrow> (Returned (Err e), p, w)
                    | Inr True \<Rightarrow> (Returned (Ok (blocked_response api, True)), p, w)
                    | Inr False \<Rightarrow>
                        (case forward net api (forward_ctx env rs) (app_timeout_ms st) (env_steps env) req p w of
                           (Panicked, p1, w1) \<Rightarrow> (Panicked, p1, w1)
                         | (Returned (Inl e), p1, w1) \<Rightarrow> (Returned (Err e), p1, w1)
                         | (Returned (Inr resp), p1, w1) \<Rightarrow> (Returned (Ok (resp, False)), p1, w1))))))"

subsection \<open>Handling\<close>

definition response_time_value :: "u64 \<Rightarrow> string" where
  "response_time_value ms = dec (unat ms) @ ''ms''"

definition metrics_response :: "'h header_api \<Rightarrow> metrics \<Rightarrow> ('h, string) response" where
  "metrics_response api m = make_response api 200 ''text/plain; version=0.0.4'' (render m)"

definition handle ::
  "'h header_api \<Rightarrow> ('w, 'io, 'c, 'h, 'b) net \<Rightarrow> ('m, 's) wasm_api \<Rightarrow> req_env \<Rightarrow>
   ('m, 'acc) app_state \<Rightarrow> flag_heap \<Rightarrow> ('h, 'b) request \<Rightarrow> 'c pool \<Rightarrow> 'w \<Rightarrow> metrics \<Rightarrow>
   ('h, string) response outcome \<times> 'c pool \<times> 'w \<times> metrics" where
  "handle api net wasm env st hp req p w m =
     (if uri_path (req_uri req) = ''/metrics'' then (Returned (metrics_response api m), p, w, m)
      else
        (case route api net wasm env st hp req p w of
           (Panicked, p1, w1) \<Rightarrow> (Panicked, p1, w1, m)
         | (Returned (Inr (resp, blocked)), p1, w1) \<Rightarrow>
             (if \<not> hv_from_str api (response_time_value (env_elapsed_ms env)) then (Panicked, p1, w1, m)
              else
                (let resp' = resp\<lparr>resp_headers := hm_insert api ''x-response-time''
                               (response_time_value (env_elapsed_ms env)) (resp_headers resp)\<rparr>
                 in (Returned resp', p1, w1, metrics_record (resp_status resp') (env_elapsed_ms env) blocked m)))
         | (Returned (Inl e), p1, w1) \<Rightarrow>
             (Returned (error_response api e), p1, w1,
              metrics_record (resp_status (error_response api e)) (env_elapsed_ms env) False m)))"

subsection \<open>Routing facts\<close>

lemma find_route_Some:
  "find_route sts path = Some rs \<longleftrightarrow>
   (\<exists>before after. sts = before @ rs # after \<and> starts_with (path_prefix (rs_route rs)) path \<and>
      list_all (\<lambda>r. \<not> starts_with (path_prefix (rs_route r)) path) before)"
proof
  assume "find_route sts path = Some rs"
  then obtain i where i: "i < length sts" "rs = sts ! i"
    "starts_with (path_prefix (rs_route rs)) path"
    "\<forall>j<i. \<not> starts_with (path_prefix (rs_route (sts ! j))) path"
    by (auto simp: find_route_def find_Some_iff)
  then have "sts = take i sts @ rs # drop (Suc i) sts" by (simp add: id_take_nth_drop)
  moreover have "list_all (\<lambda>r. \<not> starts_with (path_prefix (rs_route r)) path) (take i sts)"
    using i(1,4) by (auto simp: list_all_iff in_set_conv_nth)
  ultimately show "\<exists>before after. sts = before @ rs # after \<and>
      starts_with (path_prefix (rs_route rs)) path \<and>
      list_all (\<lambda>r. \<not> starts_with (path_prefix (rs_route r)) path) before"
    using i(3) by blast
next
  assume "\<exists>before after. sts = before @ rs # after \<and> starts_with (path_prefix (rs_route rs)) path \<and>
      list_all (\<lambda>r. \<not> starts_with (path_prefix (rs_route r)) path) before"
  then obtain before after where sts: "sts = before @ rs # after"
    and rs: "starts_with (path_prefix (rs_route rs)) path"
    and before: "list_all (\<lambda>r. \<not> starts_with (path_prefix (rs_route r)) path) before" by blast
  from before rs show "find_route sts path = Some rs"
    unfolding sts by (induction before) (auto simp: find_route_def)
qed

lemma find_route_None:
  "find_route sts path = None \<longleftrightarrow>
   list_all (\<lambda>r. \<not> starts_with (path_prefix (rs_route r)) path) sts"
  by (auto simp: find_route_def find_None_iff list_all_iff)

lemma route_health:
  "uri_path (req_uri req) = ''/health'' \<Longrightarrow>
   route api net wasm env st hp req p w =
     (Returned (Ok (health_response api (env_uptime env) (length (app_routes st)) (app_tls st \<noteq> None), False)), p, w)"
  by (simp add: route_def)

lemma route_no_panic:
  "header_laws api \<Longrightarrow> fst (route api net wasm env st hp req p w) \<noteq> Panicked"
proof -
  assume laws: "header_laws api"
  have "fst (forward net api ctx t n req p w) \<noteq> Panicked" for ctx t n
    using laws by (rule forward_no_panic)
  then show ?thesis
    by (auto simp: route_def Let_def split: option.split sum.split bool.split prod.split outcome.split)
      (metis fst_conv)+
qed

lemma visible_response_time [simp]: "visible_ascii (response_time_value ms)"
  by (simp add: response_time_value_def visible_ascii_Cons)

text \<open>Under the laws of header maps, \<open>handle\<close> without the branches that panic.\<close>

lemma handle_cases:
  assumes "header_laws api" "uri_path (req_uri req) \<noteq> ''/metrics''"
  shows "\<exists>r p1 w1. route api net wasm env st hp req p w = (Returned r, p1, w1) \<and>
    handle api net wasm env st hp req p w m =
      (case r of
         Inr (resp, blocked) \<Rightarrow>
           (Returned (resp\<lparr>resp_headers := hm_insert api ''x-response-time''
               (response_time_value (env_elapsed_ms env)) (resp_headers resp)\<rparr>), p1, w1,
            metrics_record (resp_status resp) (env_elapsed_ms env) blocked m)
       | Inl e \<Rightarrow>
           (Returned (error_response api e), p1, w1,
            metrics_record (resp_status (error_response api e)) (env_elapsed_ms env) False m))"
proof -
  obtain o1 p1 w1 where run: "route api net wasm env st hp req p w = (o1, p1, w1)"
    by (metis prod_cases3)
  with route_no_panic [OF assms(1), of net wasm env st hp req p w]
  obtain r where r: "o1 = Returned r" by (cases o1) auto
  have "hv_from_str api (response_time_value (env_elapsed_ms env))"
    using assms(1) by (simp add: hv_from_str_visible)
  with assms(2) run r show ?thesis
    by (auto simp: handle_def Let_def split: sum.split)
qed

lemma handle_metrics:
  "uri_path (req_uri req) = ''/metrics'' \<Longrightarrow>
   handle api net wasm env st hp req p w m = (Returned (metrics_response api m), p, w, m)"
  by (simp add: handle_def)

lemma handle_error:
  assumes "header_laws api" "uri_path (req_uri req) \<noteq> ''/metrics''"
    and "route api net wasm env st hp req p w = (Returned (Err e), p1, w1)"
  shows "handle api net wasm env st hp req p w m =
     (Returned (error_response api e), p1, w1,
      metrics_record (resp_status (error_response api e)) (env_elapsed_ms env) False m)"
  using handle_cases [OF assms(1,2), of net wasm env st hp p w m] assms(3) by auto

lemma resp_status_error: "resp_status (error_response api e) = fst (error_status_body e)"
  by (simp add: error_response_def make_response_def split: prod.split)

lemma metrics_record_total:
  "requests_total (metrics_record status ms blocked m) = requests_total m + 1"
  using metrics_run_value [of CTotal "record_ops status ms blocked" m]
  by (auto simp: metrics_record_def record_ops_def status_counter_def split: if_splits)

text \<open>Every response but those of \<open>/metrics\<close> is recorded once, under its own status.\<close>

lemma handle_records:
  assumes "header_laws api" "uri_path (req_uri req) \<noteq> ''/metrics''"
  shows "\<exists>resp p1 w1 blocked.
     handle api net wasm env st hp req p w m =
       (Returned resp, p1, w1, metrics_record (resp_status resp) (env_elapsed_ms env) blocked m)"
proof -
  from handle_cases [OF assms, of net wasm env st hp p w m] obtain r p1 w1 where h:
    "handle api net wasm env st hp req p w m =
      (case r of
         Inr (resp, blocked) \<Rightarrow>
           (Returned (resp\<lparr>resp_headers := hm_insert api ''x-response-time''
               (response_time_value (env_elapsed_ms env)) (resp_headers resp)\<rparr>), p1, w1,
            metrics_record (resp_status resp) (env_elapsed_ms env) blocked m)
       | Inl e \<Rightarrow>
           (Returned (error_response api e), p1, w1,
            metrics_record (resp_status (error_response api e)) (env_elapsed_ms env) False m))" by blast
  show ?thesis
  proof (cases r)
    case (Inl e)
    with h have "handle api net wasm env st hp req p w m =
        (Returned (error_response api e), p1, w1,
         metrics_record (resp_status (error_response api e)) (env_elapsed_ms env) False m)" by simp
    then show ?thesis by blast
  next
    case (Inr x)
    obtain resp blocked where "x = (resp, blocked)" by (cases x)
    with h Inr have "handle api net wasm env st hp req p w m =
        (Returned (resp\<lparr>resp_headers := hm_insert api ''x-response-time''
            (response_time_value (env_elapsed_ms env)) (resp_headers resp)\<rparr>), p1, w1,
         metrics_record (resp_status (resp\<lparr>resp_headers := hm_insert api ''x-response-time''
            (response_time_value (env_elapsed_ms env)) (resp_headers resp)\<rparr>)) (env_elapsed_ms env) blocked m)"
      by simp
    then show ?thesis by blast
  qed
qed

lemma handle_no_panic:
  assumes "header_laws api"
  shows "fst (handle api net wasm env st hp req p w m) \<noteq> Panicked"
proof (cases "uri_path (req_uri req) = ''/metrics''")
  case True
  then show ?thesis by (simp add: handle_metrics)
next
  case False
  from handle_records [OF assms this, of net wasm env st hp p w m] show ?thesis by auto
qed

lemma handle_routed:
  assumes "header_laws api" "uri_path (req_uri req) \<noteq> ''/metrics''"
  shows "fst (snd (handle api net wasm env st hp req p w m)) = fst (snd (route api net wasm env st hp req p w)) \<and>
    fst (snd (snd (handle api net wasm env st hp req p w m))) = snd (snd (route api net wasm env st hp req p w))"
proof -
  from handle_cases [OF assms, of net wasm env st hp p w m] obtain r p1 w1 where
    "route api net wasm env st hp req p w = (Returned r, p1, w1)"
    "handle api net wasm env st hp req p w m =
      (case r of
         Inr (resp, blocked) \<Rightarrow>
           (Returned (resp\<lparr>resp_headers := hm_insert api ''x-response-time''
               (response_time_value (env_elapsed_ms env)) (resp_headers resp)\<rparr>), p1, w1,
            metrics_record (resp_status resp) (env_elapsed_ms env) blocked m)
       | Inl e \<Rightarrow>
           (Returned (error_response api e), p1, w1,
            metrics_record (resp_status (error_response api e)) (env_elapsed_ms env) False m))" by blast
  then show ?thesis by (cases r) auto
qed

subsection \<open>The ways a routed request ends\<close>

text \<open>\<open>refused\<close>: answered by the proxy itself, without the pool or the network, and recorded.\<close>

definition refused ::
  "('h, string) response outcome \<times> 'c pool \<times> 'w \<times> metrics \<Rightarrow> 'c pool \<Rightarrow> 'w \<Rightarrow> metrics \<Rightarrow> u64 \<Rightarrow>
   u16 \<Rightarrow> bool \<Rightarrow> bool" where
  "refused out p w m elapsed status blocked \<longleftrightarrow>
     (\<exists>resp. out = (Returned resp, p, w, metrics_record status elapsed blocked m) \<and> resp_status resp = status)"

lemma error_status [simp]:
  "fst (error_status_body (NoRoute s)) = 404" "fst (error_status_body (UpstreamConnect s)) = 502"
  "fst (error_status_body (TimeoutError s)) = 504" "fst (error_status_body (UpstreamUnhealthy s)) = 503"
  "fst (error_status_body (PluginError s)) = 500" "fst (error_status_body (HyperError s)) = 500"
  by (simp_all add: error_status_body_def)

lemma handle_refused:
  assumes "header_laws api" "uri_path (req_uri req) \<noteq> ''/metrics''"
    and "route api net wasm env st hp req p w = (Returned (Err e), p, w)"
  shows "refused (handle api net wasm env st hp req p w m) p w m (env_elapsed_ms env)
           (fst (error_status_body e)) False"
  using handle_error [OF assms] by (simp add: refused_def resp_status_error)

lemma handle_blocked:
  assumes "header_laws api" "uri_path (req_uri req) \<noteq> ''/metrics''"
    and "route api net wasm env st hp req p w = (Returned (Ok (blocked_response api, True)), p, w)"
  shows "refused (handle api net wasm env st hp req p w m) p w m (env_elapsed_ms env) 403 True"
  using handle_cases [OF assms(1,2), of net wasm env st hp p w m] assms(3)
  by (auto simp: refused_def blocked_response_def make_response_def)

text \<open>The errors \<open>forward\<close> can give.\<close>

lemma connect_fresh_error:
  "connect_fresh net a w = (Err e, w') \<Longrightarrow> (\<exists>m. e = UpstreamConnect m) \<or> (\<exists>m. e = HyperError m)"
  by (auto simp: connect_fresh_def split: prod.splits sum.splits)

lemma acquire_error:
  "acquire net a p w = (Err e, p', w') \<Longrightarrow> (\<exists>m. e = UpstreamConnect m) \<or> (\<exists>m. e = HyperError m)"
  by (auto simp: acquire_def split: prod.splits option.splits dest: connect_fresh_error)

lemma finish_forward_error:
  "finish_forward net api resp p w = (Returned (Err e), p', w') \<Longrightarrow> \<exists>m. e = HyperError m"
  by (auto simp: finish_forward_def split: prod.splits sum.splits)

lemma send_first_error:
  "send_first net api ctx parts c p w = (Returned (Err e), p', w') \<Longrightarrow>
   (\<exists>m. e = UpstreamConnect m) \<or> (\<exists>m. e = HyperError m)"
  by (auto simp: send_first_def retry_forward_def split: prod.splits sum.splits
      dest: connect_fresh_error finish_forward_error)

lemma forward_error:
  assumes "forward net api ctx timeout n req p w = (Returned (Err e), p', w')"
  shows "(\<exists>m. e = UpstreamConnect m) \<or> (\<exists>m. e = HyperError m) \<or> (\<exists>m. e = TimeoutError m)"
  using forward_cut [of net api ctx timeout n req p w]
proof
  assume "forward net api ctx timeout n req p w = forward_inner net api ctx req p w"
  with assms show ?thesis
    by (auto simp: forward_inner_steps split: prod.splits sum.splits option.splits
        dest: acquire_error send_first_error)
next
  assume "\<exists>st p1 w1. fwd_run net api ctx n (CollectRequest req, p, w) = (st, p1, w1) \<and> fwd_result st = None \<and>
      forward net api ctx timeout n req p w = (Returned (Err (timeout_error ctx timeout)), p1, w1)"
  with assms show ?thesis by (auto simp: timeout_error_def)
qed

subsection \<open>Properties\<close>

text \<open>
  C2: the pool and the network are touched only for a request that the first matching route takes,
  while its upstream is marked healthy and all its plugins let the request pass; and then exactly as
  forwarding to that route's upstream does.
\<close>
theorem network_only_when_admitted:
  assumes "header_laws api" "handle api net wasm env st hp req p w m = (r, p', w', m')"
    and "p' \<noteq> p \<or> w' \<noteq> w"
  shows "\<exists>before rs after. app_routes st = before @ rs # after \<and>
     starts_with (path_prefix (rs_route rs)) (uri_path (req_uri req)) \<and>
     list_all (\<lambda>r. \<not> starts_with (path_prefix (rs_route r)) (uri_path (req_uri req))) before \<and>
     flag_load hp (rs_healthy rs) \<and>
     run_on_request wasm (rs_runtime rs) (req_method req) (uri_path (req_uri req)) = Ok False \<and>
     snd (forward net api (forward_ctx env rs) (app_timeout_ms st) (env_steps env) req p w) = (p', w')"
proof -
  have not_metrics: "uri_path (req_uri req) \<noteq> ''/metrics''"
    using assms(2,3) by (auto simp: handle_metrics)
  obtain o1 p1 w1 where run: "route api net wasm env st hp req p w = (o1, p1, w1)"
    by (metis prod_cases3)
  have "p1 = p' \<and> w1 = w'"
    using handle_routed [OF assms(1) not_metrics, of net wasm env st hp p w m] assms(2) run by simp
  with run assms(3) obtain rs where rs: "find_route (app_routes st) (uri_path (req_uri req)) = Some rs"
    "flag_load hp (rs_healthy rs)"
    "run_on_request wasm (rs_runtime rs) (req_method req) (uri_path (req_uri req)) = Ok False"
    "snd (forward net api (forward_ctx env rs) (app_timeout_ms st) (env_steps env) req p w) = (p', w')"
    by (auto simp: route_def Let_def split: if_splits option.splits sum.splits bool.splits prod.splits outcome.splits)
  from find_route_Some [THEN iffD1, OF rs(1)] rs(2-4) show ?thesis by blast
qed

text \<open>
  C3: requests the proxy refuses itself: 404 when no prefix matches, 503 when the matching route's
  upstream is marked unhealthy, 403 when a plugin blocks, 500 when a plugin fails. Each is recorded
  once, only the blocked one as blocked, and neither the pool nor the network is touched.
\<close>
theorem refusals:
  assumes "header_laws api" "uri_path (req_uri req) \<notin> {''/metrics'', ''/health''}"
  shows "(find_route (app_routes st) (uri_path (req_uri req)) = None \<longrightarrow>
       refused (handle api net wasm env st hp req p w m) p w m (env_elapsed_ms env) 404 False) \<and>
     (\<forall>rs. find_route (app_routes st) (uri_path (req_uri req)) = Some rs \<longrightarrow>
       (\<not> flag_load hp (rs_healthy rs) \<longrightarrow>
          refused (handle api net wasm env st hp req p w m) p w m (env_elapsed_ms env) 503 False) \<and>
       (flag_load hp (rs_healthy rs) \<longrightarrow>
          (run_on_request wasm (rs_runtime rs) (req_method req) (uri_path (req_uri req)) = Ok True \<longrightarrow>
             refused (handle api net wasm env st hp req p w m) p w m (env_elapsed_ms env) 403 True) \<and>
          (\<forall>e. run_on_request wasm (rs_runtime rs) (req_method req) (uri_path (req_uri req)) = Err e \<longrightarrow>
             refused (handle api net wasm env st hp req p w m) p w m (env_elapsed_ms env) 500 False)))"
proof -
  have path: "uri_path (req_uri req) \<noteq> ''/metrics''" "uri_path (req_uri req) \<noteq> ''/health''"
    using assms(2) by auto
  note err = handle_refused [OF assms(1) path(1), of net wasm env st hp p w _ m]
  note blocked = handle_blocked [OF assms(1) path(1), of net wasm env st hp p w m]
  show ?thesis
  proof (intro conjI impI allI)
    assume "find_route (app_routes st) (uri_path (req_uri req)) = None"
    then show "refused (handle api net wasm env st hp req p w m) p w m (env_elapsed_ms env) 404 False"
      using err [of "NoRoute (uri_path (req_uri req))"] path(2) by (simp add: route_def)
  next
    fix rs assume "find_route (app_routes st) (uri_path (req_uri req)) = Some rs" "\<not> flag_load hp (rs_healthy rs)"
    then show "refused (handle api net wasm env st hp req p w m) p w m (env_elapsed_ms env) 503 False"
      using err [of "UpstreamUnhealthy (upstream (rs_route rs))"] path(2) by (simp add: route_def)
  next
    fix rs assume "find_route (app_routes st) (uri_path (req_uri req)) = Some rs" "flag_load hp (rs_healthy rs)"
      "run_on_request wasm (rs_runtime rs) (req_method req) (uri_path (req_uri req)) = Ok True"
    then show "refused (handle api net wasm env st hp req p w m) p w m (env_elapsed_ms env) 403 True"
      using blocked path(2) by (simp add: route_def)
  next
    fix rs e assume e: "find_route (app_routes st) (uri_path (req_uri req)) = Some rs" "flag_load hp (rs_healthy rs)"
      "run_on_request wasm (rs_runtime rs) (req_method req) (uri_path (req_uri req)) = Err e"
    with run_on_request_error obtain msg where "e = PluginError msg" by blast
    with e show "refused (handle api net wasm env st hp req p w m) p w m (env_elapsed_ms env) 500 False"
      using err [of e] path(2) by (simp add: route_def)
  qed
qed

text \<open>
  C4: an admitted request gets the upstream's answer, status included, with only \<open>x-response-time\<close> set,
  or 504 on a timeout, 502 when the upstream cannot be reached and 500 when the exchange fails; it
  is recorded once, under the status the client gets.
\<close>
theorem admitted_request_outcome:
  assumes "header_laws api" "uri_path (req_uri req) \<notin> {''/metrics'', ''/health''}"
    and "find_route (app_routes st) (uri_path (req_uri req)) = Some rs" "flag_load hp (rs_healthy rs)"
    and "run_on_request wasm (rs_runtime rs) (req_method req) (uri_path (req_uri req)) = Ok False"
    and "forward net api (forward_ctx env rs) (app_timeout_ms st) (env_steps env) req p w = (Returned r, p1, w1)"
  shows "\<exists>resp. handle api net wasm env st hp req p w m =
       (Returned resp, p1, w1, metrics_record (resp_status resp) (env_elapsed_ms env) False m) \<and>
     (case r of
        Inr up \<Rightarrow> resp_status resp = resp_status up \<and> resp_body resp = resp_body up \<and>
          (\<forall>k. hm_get_all api (resp_headers resp) k =
             (if k = ''x-response-time'' then [response_time_value (env_elapsed_ms env)]
              else hm_get_all api (resp_headers up) k))
      | Inl e \<Rightarrow> resp_status resp =
          (case e of TimeoutError _ \<Rightarrow> 504 | UpstreamConnect _ \<Rightarrow> 502 | _ \<Rightarrow> 500))"
proof (cases r)
  case (Inl e)
  with assms have "route api net wasm env st hp req p w = (Returned (Err e), p1, w1)"
    by (simp add: route_def)
  from handle_error [OF assms(1) _ this, of m] assms(2) have h: "handle api net wasm env st hp req p w m =
      (Returned (error_response api e), p1, w1,
       metrics_record (resp_status (error_response api e)) (env_elapsed_ms env) False m)" by simp
  from forward_error [of net api "forward_ctx env rs" "app_timeout_ms st" "env_steps env" req p w e p1 w1] assms(6) Inl
  have "fst (error_status_body e) = (case e of TimeoutError _ \<Rightarrow> 504 | UpstreamConnect _ \<Rightarrow> 502 | _ \<Rightarrow> 500)"
    by auto
  with h Inl show ?thesis by (simp add: resp_status_error)
next
  case (Inr up)
  with assms(2-6) have "route api net wasm env st hp req p w = (Returned (Ok (up, False)), p1, w1)"
    by (simp add: route_def)
  with handle_cases [OF assms(1), of req net wasm env st hp p w m] assms(2)
  have "handle api net wasm env st hp req p w m =
      (Returned (up\<lparr>resp_headers := hm_insert api ''x-response-time''
          (response_time_value (env_elapsed_ms env)) (resp_headers up)\<rparr>), p1, w1,
       metrics_record (resp_status up) (env_elapsed_ms env) False m)" by auto
  with Inr assms(1) show ?thesis by (simp add: get_all_insert)
qed

text \<open>
  C11: handling never panics and records every request once, with the status the client gets, except
  \<open>/metrics\<close>, which is answered with the counters and recorded nowhere.
\<close>
theorem every_request_recorded_once:
  assumes "header_laws api"
  shows "\<exists>resp p' w' m'. handle api net wasm env st hp req p w m = (Returned resp, p', w', m') \<and>
     (if uri_path (req_uri req) = ''/metrics'' then m' = m \<and> resp_body resp = render m
      else (\<exists>blocked. m' = metrics_record (resp_status resp) (env_elapsed_ms env) blocked m) \<and>
           requests_total m' = requests_total m + 1)"
proof (cases "uri_path (req_uri req) = ''/metrics''")
  case True
  then show ?thesis by (simp add: handle_metrics metrics_response_def make_response_def)
next
  case False
  from handle_records [OF assms False, of net wasm env st hp p w m] False show ?thesis
    by (auto simp: metrics_record_total)
qed

subsection \<open>Examples\<close>

definition example_env :: req_env where
  "example_env = \<lparr>env_client = client_addr example_ctx, env_is_tls = True, env_uptime = ''12.5'',
     env_elapsed_ms = 3, env_steps = 10\<rparr>"

definition example_get :: "string \<Rightarrow> ((string \<times> string) list, string) request" where
  "example_get path = example_request\<lparr>req_method := ''GET'', req_uri := \<lparr>uri_path = path, uri_text = path\<rparr>\<rparr>"

definition example_handle ::
  "flag_heap \<Rightarrow> string \<Rightarrow>
   ((string \<times> string) list, string) response outcome \<times> nat pool \<times> nat \<times> metrics" where
  "example_handle hp path =
     handle list_headers (numbered_net {0}) example_wasm example_env example_state hp (example_get path)
       (pool_new 1) 0 metrics_new"

definition example_route_of :: "string \<Rightarrow> example_module route_state" where
  "example_route_of path = the (find_route (app_routes example_state) path)"

lemma example_routes:
  "find_route (app_routes example_state) ''/a'' = Some (example_route_of ''/a'')"
  "find_route (app_routes example_state) ''/admin/x'' = Some (example_route_of ''/admin/x'')"
  "find_route (app_routes example_state) ''metrics'' = None"
proof -
  have "\<not> Option.is_none (find_route (app_routes example_state) ''/a'')"
    "\<not> Option.is_none (find_route (app_routes example_state) ''/admin/x'')"
    "Option.is_none (find_route (app_routes example_state) ''metrics'')" by code_simp+
  then show "find_route (app_routes example_state) ''/a'' = Some (example_route_of ''/a'')"
    "find_route (app_routes example_state) ''/admin/x'' = Some (example_route_of ''/admin/x'')"
    "find_route (app_routes example_state) ''metrics'' = None"
    by (auto simp: example_route_of_def Option.is_none_def)
qed

lemma example_get_simps [simp]:
  "uri_path (req_uri (example_get path)) = path" "req_method (example_get path) = ''GET''"
  by (simp_all add: example_get_def)

theorem network_only_when_admitted_witness:
  "\<exists>before rs after. app_routes example_state = before @ rs # after \<and>
     starts_with (path_prefix (rs_route rs)) ''/a'' \<and>
     run_on_request example_wasm (rs_runtime rs) ''GET'' ''/a'' = Ok False"
proof -
  obtain r p' w' m' where run: "example_handle [False, True, True] ''/a'' = (r, p', w', m')"
    by (metis prod_cases4)
  have "fst (snd (snd (example_handle [False, True, True] ''/a''))) \<noteq> 0" by code_simp
  with run have "w' \<noteq> 0" by simp
  with network_only_when_admitted [OF list_headers_laws run [unfolded example_handle_def]]
  show ?thesis by auto
qed

theorem refusals_witness:
  "refused (example_handle [False, False, True] ''/admin/x'') (pool_new 1) 0 metrics_new 3 503 False \<and>
   refused (example_handle [False, True, True] ''/admin/x'') (pool_new 1) 0 metrics_new 3 403 True \<and>
   refused (example_handle [False, True, True] ''metrics'') (pool_new 1) 0 metrics_new 3 404 False"
proof -
  note r = refusals [OF list_headers_laws, of "example_get path" example_state "numbered_net {0}" example_wasm
      example_env hp "pool_new 1" 0 metrics_new for path hp, folded example_handle_def, simplified]
  have "\<not> flag_load [False, False, True] (rs_healthy (example_route_of ''/admin/x''))"
    "flag_load [False, True, True] (rs_healthy (example_route_of ''/admin/x''))"
    "run_on_request example_wasm (rs_runtime (example_route_of ''/admin/x'')) ''GET'' ''/admin/x'' = Ok True"
    "env_elapsed_ms example_env = 3"
    by code_simp+
  with r [of "''/admin/x''"] r [of "''metrics''"] example_routes show ?thesis by simp
qed

theorem admitted_request_outcome_witness:
  "\<exists>resp. resp_status resp = 200 \<and> fst (example_handle [False, True, True] ''/a'') = Returned resp"
proof -
  let ?fwd = "forward (numbered_net {0}) list_headers (forward_ctx example_env (example_route_of ''/a''))
    (app_timeout_ms example_state) (env_steps example_env) (example_get ''/a'') (pool_new 1) 0"
  have path: "uri_path (req_uri (example_get ''/a'')) \<notin> {''/metrics'', ''/health''}" by simp
  have pre: "flag_load [False, True, True] (rs_healthy (example_route_of ''/a''))"
    "run_on_request example_wasm (rs_runtime (example_route_of ''/a'')) (req_method (example_get ''/a''))
       (uri_path (req_uri (example_get ''/a''))) = Ok False"
    by code_simp+
  have "fst ?fwd = Returned (Ok \<lparr>resp_status = 200, resp_headers = [(''x-served-by'', ''1'')], resp_body = ''hello''\<rparr>)"
    by code_simp
  then obtain p1 w1 where run: "?fwd = (Returned (Ok \<lparr>resp_status = 200, resp_headers = [(''x-served-by'', ''1'')],
      resp_body = ''hello''\<rparr>), p1, w1)" by (cases ?fwd) auto
  have "find_route (app_routes example_state) (uri_path (req_uri (example_get ''/a''))) =
      Some (example_route_of ''/a'')"
    by (simp add: example_routes)
  from admitted_request_outcome [OF list_headers_laws path this pre run, of metrics_new]
  show ?thesis by (auto simp: example_handle_def)
qed

theorem every_request_recorded_once_witness:
  "\<exists>resp p' w' m'. example_handle [False, True, True] ''/a'' = (Returned resp, p', w', m') \<and>
     requests_total m' = 1"
  using every_request_recorded_once [OF list_headers_laws, of "numbered_net {0}" example_wasm example_env
      example_state "[False, True, True]" "example_get ''/a''" "pool_new 1" 0 metrics_new]
  by (auto simp: example_handle_def metrics_new_def)

end
