(* ===== verification/Cert_Store.thy ===== *)
theory Cert_Store
  imports App_State
begin

section \<open>The certificate cache (\<open>src/acme.rs\<close>)\<close>

text \<open>
  The files of the cache directory and what the program does with them: the age check
  \<open>cert_needs_renewal\<close> with the \<open>str\<close> operations it uses on the \<open>issued_at\<close> file, the writing of a
  new pair through temporary files, and the \<open>issued_at\<close> file itself. Times are seconds since the
  epoch in 64 bits; the addition of sixty days wraps around, as in a build without overflow checks.
\<close>

subsection \<open>\<open>str::trim\<close> and \<open>str::parse::<u64>\<close>\<close>

text \<open>The characters with the Unicode property \<open>White_Space\<close>, in UTF-8.\<close>

definition white_space :: "string list" where
  "white_space =
     [[CHR 0x09], [CHR 0x0A], [CHR 0x0B], [CHR 0x0C], [CHR 0x0D], [CHR 0x20],
      [CHR 0xC2, CHR 0x85], [CHR 0xC2, CHR 0xA0], [CHR 0xE1, CHR 0x9A, CHR 0x80],
      [CHR 0xE2, CHR 0x80, CHR 0x80], [CHR 0xE2, CHR 0x80, CHR 0x81], [CHR 0xE2, CHR 0x80, CHR 0x82],
      [CHR 0xE2, CHR 0x80, CHR 0x83], [CHR 0xE2, CHR 0x80, CHR 0x84], [CHR 0xE2, CHR 0x80, CHR 0x85],
      [CHR 0xE2, CHR 0x80, CHR 0x86], [CHR 0xE2, CHR 0x80, CHR 0x87], [CHR 0xE2, CHR 0x80, CHR 0x88],
      [CHR 0xE2, CHR 0x80, CHR 0x89], [CHR 0xE2, CHR 0x80, CHR 0x8A], [CHR 0xE2, CHR 0x80, CHR 0xA8],
      [CHR 0xE2, CHR 0x80, CHR 0xA9], [CHR 0xE2, CHR 0x80, CHR 0xAF], [CHR 0xE2, CHR 0x81, CHR 0x9F],
      [CHR 0xE3, CHR 0x80, CHR 0x80]]"

text \<open>Drop leading pieces while one of \<open>ws\<close> starts the text.\<close>

function drop_pieces :: "string list \<Rightarrow> string \<Rightarrow> string" where
  "drop_pieces ws s =
     (case find (\<lambda>w. w \<noteq> [] \<and> starts_with w s) ws of
        None \<Rightarrow> s
      | Some w \<Rightarrow> drop_pieces ws (drop (length w) s))"
  by auto

termination
proof (relation "measure (length \<circ> snd)")
  show "wf (measure (length \<circ> snd) :: ((string list \<times> string) \<times> (string list \<times> string)) set)" by simp
next
  fix ws s w assume "find (\<lambda>w. w \<noteq> [] \<and> starts_with w s) ws = Some w"
  then have "w \<noteq> []" "starts_with w s" by (auto simp: find_Some_iff)
  then show "((ws, drop (length w) s), (ws, s)) \<in> measure (length \<circ> snd)"
    by (auto simp: starts_with_iff)
qed

declare drop_pieces.simps [simp del]

definition str_trim :: "string \<Rightarrow> string" where
  "str_trim s = rev (drop_pieces (map rev white_space) (rev (drop_pieces white_space s)))"

text \<open>An optional plus sign, then decimal digits whose value fits.\<close>

definition parse_u64 :: "string \<Rightarrow> u64 option" where
  "parse_u64 s =
     (let ds = (case s of CHR ''+'' # t \<Rightarrow> t | _ \<Rightarrow> s)
      in if ds \<noteq> [] \<and> list_all is_digit ds \<and> digits_value 10 (map digit_val ds) < 2 ^ 64
         then Some (of_nat (digits_value 10 (map digit_val ds))) else None)"

lemma digit_not_white: "is_digit c \<Longrightarrow> w \<in> set white_space \<Longrightarrow> w \<noteq> [] \<and> hd w \<noteq> c \<and> last w \<noteq> c"
  by (auto simp: white_space_def is_digit_def)

lemma drop_pieces_stays:
  assumes "\<And>w. w \<in> set ws \<Longrightarrow> w = [] \<or> \<not> starts_with w s"
  shows "drop_pieces ws s = s"
proof -
  have "find (\<lambda>w. w \<noteq> [] \<and> starts_with w s) ws = None"
    using assms by (auto simp: find_None_iff)
  then show ?thesis by (subst drop_pieces.simps) simp
qed

lemma starts_with_hd: "starts_with w s \<Longrightarrow> w \<noteq> [] \<Longrightarrow> s \<noteq> [] \<and> hd s = hd w"
  by (auto simp: starts_with_iff)

lemma white_space_nonempty: "w \<in> set white_space \<Longrightarrow> w \<noteq> []"
  by (auto simp: white_space_def)

lemma str_trim_digits:
  assumes "list_all is_digit s"
  shows "str_trim s = s"
proof -
  have "\<not> starts_with w s" if w: "w \<in> set white_space" for w
    using starts_with_hd [of w s] white_space_nonempty [OF w] digit_not_white [OF _ w, of "hd s"] assms
    by (metis hd_in_set list_all_iff)
  then have one: "drop_pieces white_space s = s" by (blast intro: drop_pieces_stays)
  have "\<not> starts_with (rev w) (rev s)" if w: "w \<in> set white_space" for w
    using starts_with_hd [of "rev w" "rev s"] white_space_nonempty [OF w] digit_not_white [OF _ w, of "last s"] assms
    by (metis hd_rev last_in_set list_all_iff rev_is_Nil_conv)
  then have "drop_pieces (map rev white_space) (rev s) = rev s" by (auto intro!: drop_pieces_stays)
  with one show ?thesis by (simp add: str_trim_def)
qed

lemma parse_u64_dec: "parse_u64 (dec (unat (n :: u64))) = Some n"
proof -
  have digits: "list_all is_digit (dec (unat n))" using dec_digits by (auto simp: list_all_iff)
  have "hd (dec (unat n)) \<noteq> CHR ''+''"
    using digits by (cases "dec (unat n)") (auto simp: is_digit_def)
  then have "(case dec (unat n) of CHR ''+'' # t \<Rightarrow> t | _ \<Rightarrow> dec (unat n)) = dec (unat n)"
    by (cases "dec (unat n)" rule: list.exhaust) (auto split: char.splits bool.splits)
  with digits unat_lt_64 [of n] show ?thesis by (simp add: parse_u64_def dec_value Let_def)
qed

subsection \<open>The age check\<close>

definition cert_pem_path :: "path \<Rightarrow> path" where
  "cert_pem_path cache = path_join cache ''cert.pem''"

definition key_pem_path :: "path \<Rightarrow> path" where
  "key_pem_path cache = path_join cache ''key.pem''"

definition issued_at_path :: "path \<Rightarrow> path" where
  "issued_at_path cache = path_join cache ''issued_at''"

definition lock_path :: "path \<Rightarrow> path" where
  "lock_path cache = path_join cache ''.renewing''"

definition cert_tmp_path :: "path \<Rightarrow> path" where
  "cert_tmp_path cache = path_join cache ''cert.pem.tmp''"

definition key_tmp_path :: "path \<Rightarrow> path" where
  "key_tmp_path cache = path_join cache ''key.pem.tmp''"

definition renewal_age :: u64 where
  "renewal_age = 5184000"

definition read_issued_at :: "faults \<Rightarrow> files \<Rightarrow> path \<Rightarrow> u64" where
  "read_issued_at faults fs cache =
     (case fs_read faults fs (issued_at_path cache) of
        Inl _ \<Rightarrow> 0
      | Inr s \<Rightarrow> (case parse_u64 (str_trim s) of None \<Rightarrow> 0 | Some n \<Rightarrow> n))"

definition cert_needs_renewal :: "faults \<Rightarrow> files \<Rightarrow> u64 \<Rightarrow> path \<Rightarrow> bool" where
  "cert_needs_renewal faults fs now cache =
     (if \<not> fs_exists faults fs (cert_pem_path cache) then True
      else read_issued_at faults fs cache + renewal_age < now)"

lemma cache_paths [simp]:
  "cert_pem_path c \<noteq> key_pem_path c" "key_pem_path c \<noteq> cert_pem_path c"
  "cert_pem_path c \<noteq> issued_at_path c" "issued_at_path c \<noteq> cert_pem_path c"
  "key_pem_path c \<noteq> issued_at_path c" "issued_at_path c \<noteq> key_pem_path c"
  "lock_path c \<noteq> cert_pem_path c" "cert_pem_path c \<noteq> lock_path c"
  "lock_path c \<noteq> key_pem_path c" "key_pem_path c \<noteq> lock_path c"
  "lock_path c \<noteq> issued_at_path c" "issued_at_path c \<noteq> lock_path c"
  "cert_tmp_path c \<noteq> cert_pem_path c" "cert_pem_path c \<noteq> cert_tmp_path c"
  "cert_tmp_path c \<noteq> key_pem_path c" "key_pem_path c \<noteq> cert_tmp_path c"
  "cert_tmp_path c \<noteq> issued_at_path c" "issued_at_path c \<noteq> cert_tmp_path c"
  "key_tmp_path c \<noteq> cert_pem_path c" "cert_pem_path c \<noteq> key_tmp_path c"
  "key_tmp_path c \<noteq> key_pem_path c" "key_pem_path c \<noteq> key_tmp_path c"
  "key_tmp_path c \<noteq> issued_at_path c" "issued_at_path c \<noteq> key_tmp_path c"
  "lock_path c \<noteq> cert_tmp_path c" "cert_tmp_path c \<noteq> lock_path c"
  "lock_path c \<noteq> key_tmp_path c" "key_tmp_path c \<noteq> lock_path c"
  "cert_tmp_path c \<noteq> key_tmp_path c" "key_tmp_path c \<noteq> cert_tmp_path c"
  by (simp_all add: cert_pem_path_def key_pem_path_def issued_at_path_def lock_path_def
      cert_tmp_path_def key_tmp_path_def starts_with_def)

text \<open>What the state builder reads are these two files.\<close>

lemma cert_files: "cert_file tc = cert_pem_path (cache_dir tc)" "key_file tc = key_pem_path (cache_dir tc)"
  by (simp_all add: cert_file_def key_file_def cert_pem_path_def key_pem_path_def)

lemma read_issued_at_written:
  assumes "faults (FsRead (issued_at_path cache)) = None" "fs (issued_at_path cache) = Some (dec (unat t))"
  shows "read_issued_at faults fs cache = t"
proof -
  have "list_all is_digit (dec (unat t))" using dec_digits by (auto simp: list_all_iff)
  with assms show ?thesis by (simp add: read_issued_at_def fs_read_def str_trim_digits parse_u64_dec)
qed

text \<open>Without wrap-around the check compares ages.\<close>

lemma renewal_age_exceeded:
  assumes "unat t + 5184000 < 2 ^ 64"
  shows "t + renewal_age < now \<longleftrightarrow> unat t + 5184000 < unat now"
proof -
  have "unat (t + renewal_age) = unat t + 5184000"
    using assms unat_add_lem [of t renewal_age, THEN iffD1] by (simp add: renewal_age_def)
  then show ?thesis by (simp add: word_less_nat_alt)
qed

end
