(* ===== verification/Acme.thy ===== *)
theory Acme
  imports Cert_Store
begin

section \<open>Provisioning a certificate (\<open>src/acme.rs\<close>)\<close>

text \<open>
  \<open>provision\<close> and \<open>provision_with_store\<close>: the ACME order from the account to the downloaded chain,
  the HTTP-01 challenges served meanwhile, and the installation of the new pair under a lock file.
  \<open>instant_acme\<close> and \<open>rcgen\<close> are the argument \<open>acme_api\<close>; what their calls and the clocks change is
  the world \<open>'w\<close>. An action returns \<open>None\<close> when it has not returned within the fuel of its polling
  loops. The locale \<open>provisioner\<close> is the contract a caller relies on; both functions implement it.
\<close>

subsection \<open>Actions\<close>

record 'w prov =
  pv_world :: 'w
  pv_files :: files
  pv_server :: "(string \<rightharpoonup> string) option"
  pv_store :: "string \<rightharpoonup> string"

text \<open>
  \<open>pv_server\<close> is the challenge server of \<open>provision_inner\<close> with its map, while it runs; \<open>pv_store\<close>
  is the \<open>ChallengeStore\<close> shared with the redirect server.
\<close>

type_synonym ('w, 'a) act = "'w prov \<Rightarrow> ((proxy_error + 'a) \<times> 'w prov) option"

definition act_return :: "'a \<Rightarrow> ('w, 'a) act" where
  "act_return x s = Some (Ok x, s)"

definition act_result :: "proxy_error + 'a \<Rightarrow> ('w, 'a) act" where
  "act_result r s = Some (r, s)"

definition act_bind :: "('w, 'a) act \<Rightarrow> ('a \<Rightarrow> ('w, 'b) act) \<Rightarrow> ('w, 'b) act" where
  "act_bind m f s =
     (case m s of
        None \<Rightarrow> None
      | Some (Inl e, s1) \<Rightarrow> Some (Inl e, s1)
      | Some (Inr x, s1) \<Rightarrow> f x s1)"

definition act_do :: "('w prov \<Rightarrow> 'w prov) \<Rightarrow> ('w, unit) act" where
  "act_do f s = Some (Ok (), f s)"

definition act_ignore :: "('w, 'a) act \<Rightarrow> ('w, unit) act" where
  "act_ignore m s = map_option (\<lambda>(_, s1). (Ok (), s1)) (m s)"

text \<open>A library call and a file operation, their errors mapped to \<open>ProxyError::Acme\<close>.\<close>

definition on_world :: "('w \<Rightarrow> (string + 'a) \<times> 'w) \<Rightarrow> string \<Rightarrow> ('w, 'a) act" where
  "on_world f msg s =
     (case f (pv_world s) of (r, w) \<Rightarrow> Some (map_err (\<lambda>e. AcmeError (msg @ e)) r, s\<lparr>pv_world := w\<rparr>))"

definition on_files :: "(files \<Rightarrow> (string + 'a) \<times> files) \<Rightarrow> string \<Rightarrow> ('w, 'a) act" where
  "on_files f msg s =
     (case f (pv_files s) of (r, fs) \<Rightarrow> Some (map_err (\<lambda>e. AcmeError (msg @ e)) r, s\<lparr>pv_files := fs\<rparr>))"

definition lift_result :: "string + 'a \<Rightarrow> string \<Rightarrow> ('w, 'a) act" where
  "lift_result r msg = act_result (map_err (\<lambda>e. AcmeError (msg @ e)) r)"

subsection \<open>The ACME library\<close>

datatype challenge_type = Http01 | Dns01 | TlsAlpn01

datatype order_status = OrderPending | OrderReady | OrderProcessing | OrderValid | OrderInvalid

record challenge =
  ch_type :: challenge_type
  ch_url :: string
  ch_token :: string

record ('w, 'acct, 'ord, 'par, 'kp, 'csr) acme_api =
  acme_account :: "string \<Rightarrow> string \<Rightarrow> 'w \<Rightarrow> (string + 'acct) \<times> 'w"
  acme_new_order :: "'acct \<Rightarrow> string list \<Rightarrow> 'w \<Rightarrow> (string + 'ord) \<times> 'w"
  acme_authorizations :: "'ord \<Rightarrow> 'w \<Rightarrow> (string + challenge list list) \<times> 'w"
  acme_key_authorization :: "'ord \<Rightarrow> challenge \<Rightarrow> string"
  acme_set_ready :: "'ord \<Rightarrow> string \<Rightarrow> 'w \<Rightarrow> (string + unit) \<times> 'w"
  acme_refresh :: "'ord \<Rightarrow> 'w \<Rightarrow> (string + order_status) \<times> 'w"
  acme_finalize :: "'ord \<Rightarrow> 'csr \<Rightarrow> 'w \<Rightarrow> (string + unit) \<times> 'w"
  acme_certificate :: "'ord \<Rightarrow> 'w \<Rightarrow> (string + string option) \<times> 'w"
  rcgen_params :: "string list \<Rightarrow> string + 'par"
  rcgen_key :: "'w \<Rightarrow> (string + 'kp) \<times> 'w"
  rcgen_csr :: "'par \<Rightarrow> 'kp \<Rightarrow> string + 'csr"
  rcgen_key_pem :: "'kp \<Rightarrow> string"
  acme_bind :: "string \<Rightarrow> 'w \<Rightarrow> (string + unit) \<times> 'w"
  acme_sleep :: "nat \<Rightarrow> 'w \<Rightarrow> 'w"
  acme_instant :: "'w \<Rightarrow> nat"
  acme_unix_now :: "'w \<Rightarrow> u64"

text \<open>
  \<open>acme_sleep\<close> takes seconds, \<open>acme_instant\<close> is the monotonic clock in nanoseconds, and
  \<open>acme_unix_now\<close> the seconds since the epoch, 0 before it. The monotonic clock never goes back, and
  a sleep lasts at least its time.
\<close>

definition seconds :: "nat \<Rightarrow> nat" where
  "seconds n = n * 1000000000"

definition clock_laws :: "('w, 'acct, 'ord, 'par, 'kp, 'csr) acme_api \<Rightarrow> bool" where
  "clock_laws api \<longleftrightarrow>
     (\<forall>n w. acme_instant api w + seconds n \<le> acme_instant api (acme_sleep api n w)) \<and>
     (\<forall>ord w. acme_instant api w \<le> acme_instant api (snd (acme_refresh api ord w))) \<and>
     (\<forall>ord w. acme_instant api w \<le> acme_instant api (snd (acme_certificate api ord w)))"

subsection \<open>The order\<close>

definition begin_order ::
  "('w, 'acct, 'ord, 'par, 'kp, 'csr) acme_api \<Rightarrow> tls_config \<Rightarrow> ('w, 'ord \<times> challenge list list) act" where
  "begin_order api tc =
     act_bind (on_world (acme_account api (''mailto:'' @ acme_email tc) (acme_directory tc)) ''create account: '')
       (\<lambda>account.
     act_bind (on_world (acme_new_order api account (domains tc)) ''new order: '')
       (\<lambda>ord.
     act_bind (on_world (acme_authorizations api ord) ''get authorizations: '')
       (\<lambda>auths. act_return (ord, auths))))"

definition http01_challenge :: "challenge list \<Rightarrow> proxy_error + challenge" where
  "http01_challenge auth =
     ok_or (AcmeError ''no HTTP-01 challenge available'') (find (\<lambda>c. ch_type c = Http01) auth)"

text \<open>The loop over the authorizations: the tokens to serve and the URLs to announce.\<close>

primrec collect_challenges ::
  "('w, 'acct, 'ord, 'par, 'kp, 'csr) acme_api \<Rightarrow> 'ord \<Rightarrow> challenge list list \<Rightarrow> (string \<rightharpoonup> string) \<Rightarrow>
   string list \<Rightarrow> proxy_error + (string \<rightharpoonup> string) \<times> string list" where
  "collect_challenges api ord [] challenges urls = Ok (challenges, urls)"
| "collect_challenges api ord (auth # auths) challenges urls =
     result_bind (http01_challenge auth)
       (\<lambda>c. collect_challenges api ord auths (challenges(ch_token c \<mapsto> acme_key_authorization api ord c))
              (urls @ [ch_url c]))"

text \<open>The same loop writing into the shared store as it goes.\<close>

primrec store_challenges ::
  "('w, 'acct, 'ord, 'par, 'kp, 'csr) acme_api \<Rightarrow> 'ord \<Rightarrow> challenge list list \<Rightarrow> string list \<Rightarrow>
   ('w, string list) act" where
  "store_challenges api ord [] urls = act_return urls"
| "store_challenges api ord (auth # auths) urls =
     act_bind (act_result (http01_challenge auth)) (\<lambda>c.
     act_bind (act_do (\<lambda>s. s\<lparr>pv_store := (pv_store s)(ch_token c \<mapsto> acme_key_authorization api ord c)\<rparr>)) (\<lambda>_.
     store_challenges api ord auths (urls @ [ch_url c])))"

primrec announce_ready ::
  "('w, 'acct, 'ord, 'par, 'kp, 'csr) acme_api \<Rightarrow> 'ord \<Rightarrow> string list \<Rightarrow> ('w, unit) act" where
  "announce_ready api ord [] = act_return ()"
| "announce_ready api ord (url # urls) =
     act_bind (on_world (acme_set_ready api ord url) ''set challenge ready: '') (\<lambda>_. announce_ready api ord urls)"

definition sleep_for ::
  "('w, 'acct, 'ord, 'par, 'kp, 'csr) acme_api \<Rightarrow> nat \<Rightarrow> ('w, unit) act" where
  "sleep_for api n = act_do (\<lambda>s. s\<lparr>pv_world := acme_sleep api n (pv_world s)\<rparr>)"

text \<open>One polling loop: until the order is ready, with the deadline of the code.\<close>

primrec poll_ready ::
  "('w, 'acct, 'ord, 'par, 'kp, 'csr) acme_api \<Rightarrow> 'ord \<Rightarrow> nat \<Rightarrow> nat \<Rightarrow> ('w, unit) act" where
  "poll_ready api ord deadline 0 = (\<lambda>s. None)"
| "poll_ready api ord deadline (Suc fuel) =
     act_bind (sleep_for api 3) (\<lambda>_.
     act_bind (on_world (acme_refresh api ord) ''refresh order: '') (\<lambda>status.
       if status = OrderReady then act_return ()
       else if status = OrderInvalid then act_result (Err (AcmeError ''ACME order became invalid''))
       else (\<lambda>s. if deadline < acme_instant api (pv_world s)
                 then Some (Err (AcmeError ''ACME order timed out after 120s''), s)
                 else poll_ready api ord deadline fuel s)))"

definition wait_ready ::
  "('w, 'acct, 'ord, 'par, 'kp, 'csr) acme_api \<Rightarrow> nat \<Rightarrow> 'ord \<Rightarrow> ('w, unit) act" where
  "wait_ready api fuel ord s = poll_ready api ord (acme_instant api (pv_world s) + seconds 120) fuel s"

text \<open>Key pair, signing request and finalisation.\<close>

definition request_cert ::
  "('w, 'acct, 'ord, 'par, 'kp, 'csr) acme_api \<Rightarrow> tls_config \<Rightarrow> 'ord \<Rightarrow> ('w, 'kp) act" where
  "request_cert api tc ord =
     act_bind (lift_result (rcgen_params api (domains tc)) ''cert params: '') (\<lambda>params.
     act_bind (on_world (rcgen_key api) ''key generation: '') (\<lambda>key_pair.
     act_bind (lift_result (rcgen_csr api params key_pair) ''serialize CSR: '') (\<lambda>csr.
     act_bind (on_world (acme_finalize api ord csr) ''finalize order: '') (\<lambda>_.
     act_return key_pair))))"

text \<open>The download loop of \<open>provision_inner\<close> has no deadline, the one of the other function has.\<close>

primrec download_cert ::
  "('w, 'acct, 'ord, 'par, 'kp, 'csr) acme_api \<Rightarrow> 'ord \<Rightarrow> nat \<Rightarrow> ('w, string) act" where
  "download_cert api ord 0 = (\<lambda>s. None)"
| "download_cert api ord (Suc fuel) =
     act_bind (sleep_for api 1) (\<lambda>_.
     act_bind (on_world (acme_certificate api ord) ''download cert: '') (\<lambda>cert.
       case cert of
         Some c \<Rightarrow> act_return c
       | None \<Rightarrow> download_cert api ord fuel))"

primrec download_cert_until ::
  "('w, 'acct, 'ord, 'par, 'kp, 'csr) acme_api \<Rightarrow> 'ord \<Rightarrow> nat \<Rightarrow> nat \<Rightarrow> ('w, string) act" where
  "download_cert_until api ord deadline 0 = (\<lambda>s. None)"
| "download_cert_until api ord deadline (Suc fuel) =
     act_bind (sleep_for api 2) (\<lambda>_.
     act_bind (on_world (acme_certificate api ord) ''get certificate: '') (\<lambda>cert.
       case cert of
         Some c \<Rightarrow> act_return c
       | None \<Rightarrow> (\<lambda>s. if deadline < acme_instant api (pv_world s)
                       then Some (Err (AcmeError ''cert not ready after 60s''), s)
                       else download_cert_until api ord deadline fuel s)))"

definition wait_cert ::
  "('w, 'acct, 'ord, 'par, 'kp, 'csr) acme_api \<Rightarrow> nat \<Rightarrow> 'ord \<Rightarrow> ('w, string) act" where
  "wait_cert api fuel ord s =
     download_cert_until api ord (acme_instant api (pv_world s) + seconds 60) fuel s"

subsection \<open>Installing the pair\<close>

definition install_pair :: "faults \<Rightarrow> path \<Rightarrow> string \<Rightarrow> string \<Rightarrow> ('w, unit) act" where
  "install_pair faults cache cert key =
     act_bind (on_files (\<lambda>fs. fs_write faults fs (cert_tmp_path cache) cert) ''write cert.pem.tmp: '') (\<lambda>_.
     act_bind (on_files (\<lambda>fs. fs_write faults fs (key_tmp_path cache) key) ''write key.pem.tmp: '') (\<lambda>_.
     act_bind (on_files (\<lambda>fs. fs_rename faults fs (cert_tmp_path cache) (cert_pem_path cache))
                ''rename cert.pem: '') (\<lambda>_.
     on_files (\<lambda>fs. fs_rename faults fs (key_tmp_path cache) (key_pem_path cache)) ''rename key.pem: '')))"

definition write_issued_at ::
  "('w, 'acct, 'ord, 'par, 'kp, 'csr) acme_api \<Rightarrow> faults \<Rightarrow> path \<Rightarrow> ('w, unit) act" where
  "write_issued_at api faults cache s =
     on_files (\<lambda>fs. fs_write faults fs (issued_at_path cache) (dec (unat (acme_unix_now api (pv_world s)))))
       ''write issued_at: '' s"

subsection \<open>The two inner functions\<close>

text \<open>
  Returning drops the sending half of the shutdown channel, which ends the challenge server like
  the explicit message does.
\<close>

definition dropping_server :: "('w, 'a) act \<Rightarrow> ('w, 'a) act" where
  "dropping_server m s = map_option (\<lambda>(r, s1). (r, s1\<lparr>pv_server := None\<rparr>)) (m s)"

definition order_with_server ::
  "('w, 'acct, 'ord, 'par, 'kp, 'csr) acme_api \<Rightarrow> nat \<Rightarrow> tls_config \<Rightarrow> string \<Rightarrow> ('w, string \<times> string) act" where
  "order_with_server api fuel tc listen_addr =
     act_bind (begin_order api tc) (\<lambda>(ord, auths).
     act_bind (act_result (collect_challenges api ord auths Map.empty [])) (\<lambda>(challenges, urls).
     act_bind (on_world (acme_bind api listen_addr) ''bind challenge server: '') (\<lambda>_.
     act_bind (act_do (\<lambda>s. s\<lparr>pv_server := Some challenges\<rparr>)) (\<lambda>_.
     act_bind (announce_ready api ord urls) (\<lambda>_.
     act_bind (wait_ready api fuel ord) (\<lambda>_.
     act_bind (act_do (\<lambda>s. s\<lparr>pv_server := None\<rparr>)) (\<lambda>_.
     act_bind (request_cert api tc ord) (\<lambda>key_pair.
     act_bind (download_cert api ord fuel) (\<lambda>cert_chain_pem.
     act_return (cert_chain_pem, rcgen_key_pem api key_pair))))))))))"

definition provision_inner ::
  "('w, 'acct, 'ord, 'par, 'kp, 'csr) acme_api \<Rightarrow> faults \<Rightarrow> nat \<Rightarrow> tls_config \<Rightarrow> string \<Rightarrow>
   ('w, string \<times> string) act" where
  "provision_inner api faults fuel tc listen_addr =
     dropping_server
       (act_bind (order_with_server api fuel tc listen_addr) (\<lambda>(cert_chain_pem, key_pem).
        act_bind (install_pair faults (cache_dir tc) cert_chain_pem key_pem) (\<lambda>_.
        act_bind (act_ignore (write_issued_at api faults (cache_dir tc))) (\<lambda>_.
        act_return (cert_chain_pem, key_pem)))))"

definition order_with_store ::
  "('w, 'acct, 'ord, 'par, 'kp, 'csr) acme_api \<Rightarrow> nat \<Rightarrow> tls_config \<Rightarrow> ('w, string \<times> string) act" where
  "order_with_store api fuel tc =
     act_bind (begin_order api tc) (\<lambda>(ord, auths).
     act_bind (store_challenges api ord auths []) (\<lambda>urls.
     act_bind (announce_ready api ord urls) (\<lambda>_.
     act_bind (wait_ready api fuel ord) (\<lambda>_.
     act_bind (request_cert api tc ord) (\<lambda>key_pair.
     act_bind (wait_cert api fuel ord) (\<lambda>cert_chain_pem.
     act_return (cert_chain_pem, rcgen_key_pem api key_pair)))))))"

definition provision_inner_with_store ::
  "('w, 'acct, 'ord, 'par, 'kp, 'csr) acme_api \<Rightarrow> faults \<Rightarrow> nat \<Rightarrow> tls_config \<Rightarrow> ('w, string \<times> string) act" where
  "provision_inner_with_store api faults fuel tc =
     act_bind (order_with_store api fuel tc) (\<lambda>(cert_chain_pem, key_pem).
     act_bind (install_pair faults (cache_dir tc) cert_chain_pem key_pem) (\<lambda>_.
     act_bind (write_issued_at api faults (cache_dir tc)) (\<lambda>_.
     act_return (cert_chain_pem, key_pem))))"

subsection \<open>The lock file\<close>

definition clean_up :: "faults \<Rightarrow> path \<Rightarrow> bool \<Rightarrow> files \<Rightarrow> files" where
  "clean_up faults cache failed fs =
     (if failed then
        (let fs1 = snd (fs_remove faults fs (lock_path cache));
             fs2 = snd (fs_remove faults fs1 (cert_tmp_path cache))
         in snd (fs_remove faults fs2 (key_tmp_path cache)))
      else snd (fs_remove faults fs (lock_path cache)))"

text \<open>With the lock held: run, then clean up whatever the outcome.\<close>

definition run_locked ::
  "faults \<Rightarrow> path \<Rightarrow> ('w prov \<Rightarrow> 'w prov) \<Rightarrow> ('w, 'a) act \<Rightarrow> ('w, 'a) act" where
  "run_locked faults cache finally_do inner s =
     map_option (\<lambda>(r, s1). (r, finally_do (s1\<lparr>pv_files := clean_up faults cache (\<not> is_ok r) (pv_files s1)\<rparr>)))
       (inner s)"

definition with_lock ::
  "faults \<Rightarrow> path \<Rightarrow> ('w prov \<Rightarrow> 'w prov) \<Rightarrow> ('w, 'a) act \<Rightarrow> ('w, 'a) act" where
  "with_lock faults cache finally_do inner s =
     (case fs_create_dir_all faults (pv_files s) cache of
        Inl e \<Rightarrow> Some (Err (AcmeError (''create cache_dir: '' @ e)), s)
      | Inr _ \<Rightarrow>
          (if fs_exists faults (pv_files s) (lock_path cache) then
             Some (Err (AcmeError ''another renewal is in progress (.renewing exists)''), s)
           else
             act_bind (on_files (\<lambda>fs. fs_write faults fs (lock_path cache) []) ''create lockfile: '')
               (\<lambda>_. run_locked faults cache finally_do inner) s))"

definition provision ::
  "('w, 'acct, 'ord, 'par, 'kp, 'csr) acme_api \<Rightarrow> faults \<Rightarrow> nat \<Rightarrow> tls_config \<Rightarrow> string \<Rightarrow>
   ('w, string \<times> string) act" where
  "provision api faults fuel tc listen_addr =
     with_lock faults (cache_dir tc) id (provision_inner api faults fuel tc listen_addr)"

definition provision_with_store ::
  "('w, 'acct, 'ord, 'par, 'kp, 'csr) acme_api \<Rightarrow> faults \<Rightarrow> nat \<Rightarrow> tls_config \<Rightarrow> ('w, string \<times> string) act" where
  "provision_with_store api faults fuel tc =
     with_lock faults (cache_dir tc) (\<lambda>s. s\<lparr>pv_store := Map.empty\<rparr>)
       (provision_inner_with_store api faults fuel tc)"

end
