(* ===== verification/Acme_Laws.thy ===== *)
theory Acme_Laws
  imports Acme
begin

section \<open>What provisioning guarantees\<close>

text \<open>
  The contract of the two provisioning functions of \<open>src/acme.rs\<close> (locale \<open>provisioner\<close>): what is in
  the cache directory when they return, with a value or an error; and that the polling loops with a
  deadline return, the fuel being enough.
\<close>

subsection \<open>Actions\<close>

named_theorems act_simps \<open>how composed actions return\<close>
named_theorems file_keeping \<open>actions that leave the files alone\<close>

lemma act_bind_Some [act_simps]:
  "act_bind m f s = Some (r, s') \<longleftrightarrow>
   (\<exists>e. m s = Some (Inl e, s') \<and> r = Inl e) \<or> (\<exists>x s1. m s = Some (Inr x, s1) \<and> f x s1 = Some (r, s'))"
  by (auto simp: act_bind_def split: option.split prod.split sum.split)

lemma act_bind_None [act_simps]:
  "act_bind m f s = None \<longleftrightarrow> m s = None \<or> (\<exists>x s1. m s = Some (Inr x, s1) \<and> f x s1 = None)"
  by (auto simp: act_bind_def split: option.split prod.split sum.split)

lemma act_return_Some [act_simps]: "act_return x s = Some (r, s') \<longleftrightarrow> r = Inr x \<and> s' = s"
  by (auto simp: act_return_def)

lemma act_result_Some [act_simps]: "act_result x s = Some (r, s') \<longleftrightarrow> r = x \<and> s' = s"
  by (auto simp: act_result_def)

lemma act_do_Some [act_simps]: "act_do f s = Some (r, s') \<longleftrightarrow> r = Inr () \<and> s' = f s"
  by (auto simp: act_do_def)

text \<open>\<open>touches Q m\<close>: whatever \<open>m\<close> returns, files outside \<open>Q\<close> are as before.\<close>

definition touches :: "path set \<Rightarrow> ('w, 'a) act \<Rightarrow> bool" where
  "touches Q m \<longleftrightarrow> (\<forall>s r s'. m s = Some (r, s') \<longrightarrow> (\<forall>q. q \<notin> Q \<longrightarrow> pv_files s' q = pv_files s q))"

lemma touchesD: "touches Q m \<Longrightarrow> m s = Some (r, s') \<Longrightarrow> q \<notin> Q \<Longrightarrow> pv_files s' q = pv_files s q"
  by (simp add: touches_def)

abbreviation keeps_files :: "('w, 'a) act \<Rightarrow> bool" where
  "keeps_files \<equiv> touches {}"

lemma keeps_filesD: "keeps_files m \<Longrightarrow> m s = Some (r, s') \<Longrightarrow> pv_files s' = pv_files s"
  by (rule ext) (blast dest: touchesD)

lemma touches_mono: "keeps_files m \<Longrightarrow> touches Q m"
  by (auto simp: touches_def)

lemma touches_bind [file_keeping]:
  assumes "touches Q m" "\<And>x. touches Q (f x)"
  shows "touches Q (act_bind m f)"
  unfolding touches_def
proof (intro allI impI)
  fix s r s' q assume "act_bind m f s = Some (r, s')" "q \<notin> Q"
  then show "pv_files s' q = pv_files s q"
    using touchesD [OF assms(1)] touchesD [OF assms(2)] by (fastforce simp: act_simps)
qed

lemma touches_basic [file_keeping]:
  "touches Q (act_return x)" "touches Q (act_result r)" "touches Q (lift_result q msg)"
  "touches Q (on_world g msg)" "touches Q (\<lambda>s. None)"
  "(\<And>s. pv_files (h s) = pv_files s) \<Longrightarrow> touches Q (act_do h)"
  by (auto simp: touches_def act_simps lift_result_def on_world_def split: prod.splits)

lemma touches_ignore [file_keeping]: "touches Q m \<Longrightarrow> touches Q (act_ignore m)"
  by (auto simp: touches_def act_ignore_def)

lemma touches_if [file_keeping]:
  "touches Q m \<Longrightarrow> touches Q m' \<Longrightarrow> touches Q (\<lambda>s. if P s then m s else m' s)"
  "touches Q m \<Longrightarrow> touches Q m' \<Longrightarrow> touches Q (if c then m else m')"
  "touches Q (\<lambda>s. Some (r, s))"
  by (auto simp: touches_def)

lemma touches_split [file_keeping]:
  "(\<And>x y. touches Q (f x y)) \<Longrightarrow> touches Q (case z of (x, y) \<Rightarrow> f x y)"
  "touches Q m \<Longrightarrow> (\<And>x. touches Q (g x)) \<Longrightarrow> touches Q (case z' of None \<Rightarrow> m | Some x \<Rightarrow> g x)"
  by (cases z, simp) (cases z', simp_all)

lemma touches_files [file_keeping]:
  "p \<in> Q \<Longrightarrow> touches Q (on_files (\<lambda>fs. fs_write fl fs p c) msg)"
  "p \<in> Q \<Longrightarrow> p' \<in> Q \<Longrightarrow> touches Q (on_files (\<lambda>fs. fs_rename fl fs p p') msg)"
  by (auto simp: touches_def on_files_def split: prod.splits dest: fs_write_frame)
    (metis fs_rename_frame)

lemma keeps_begin_order [file_keeping]: "keeps_files (begin_order api tc)"
  unfolding begin_order_def by (intro file_keeping)

lemma keeps_store_challenges [file_keeping]: "keeps_files (store_challenges api ord auths urls)"
  by (induction auths arbitrary: urls) (auto intro!: file_keeping)

lemma keeps_announce [file_keeping]: "keeps_files (announce_ready api ord urls)"
  by (induction urls) (auto intro!: file_keeping)

lemma keeps_sleep [file_keeping]: "keeps_files (sleep_for api n)"
  unfolding sleep_for_def by (intro file_keeping) simp

lemma keeps_poll [file_keeping]: "keeps_files (poll_ready api ord deadline fuel)"
  by (induction fuel) (auto intro!: file_keeping)

lemma keeps_wait_ready [file_keeping]: "keeps_files (wait_ready api fuel ord)"
  using keeps_poll unfolding touches_def wait_ready_def by metis

lemma keeps_request_cert [file_keeping]: "keeps_files (request_cert api tc ord)"
  unfolding request_cert_def by (intro file_keeping)

lemma keeps_download [file_keeping]: "keeps_files (download_cert api ord fuel)"
  by (induction fuel) (auto intro!: file_keeping)

lemma keeps_download_until [file_keeping]: "keeps_files (download_cert_until api ord deadline fuel)"
  by (induction fuel) (auto intro!: file_keeping)

lemma keeps_wait_cert [file_keeping]: "keeps_files (wait_cert api fuel ord)"
  using keeps_download_until unfolding touches_def wait_cert_def by metis

lemma keeps_order_with_server: "keeps_files (order_with_server api fuel tc listen_addr)"
  unfolding order_with_server_def by (intro file_keeping) simp_all

lemma keeps_order_with_store: "keeps_files (order_with_store api fuel tc)"
  unfolding order_with_store_def by (intro file_keeping)

subsection \<open>Installing\<close>

definition cache_files :: "path \<Rightarrow> path set" where
  "cache_files cache = {cert_pem_path cache, key_pem_path cache, cert_tmp_path cache, key_tmp_path cache,
     issued_at_path cache}"

text \<open>The faults that can leave a new certificate behind a reported failure.\<close>

definition late_fault :: "faults \<Rightarrow> path \<Rightarrow> bool" where
  "late_fault faults cache \<longleftrightarrow>
     faults (FsRename (key_tmp_path cache) (key_pem_path cache)) \<noteq> None \<or>
     (\<exists>t. faults (FsWrite (issued_at_path cache) t) \<noteq> None)"

lemma on_files_Ok [act_simps]:
  "on_files f msg s = Some (Inr x, s') \<longleftrightarrow> (\<exists>fs. f (pv_files s) = (Inr x, fs) \<and> s' = s\<lparr>pv_files := fs\<rparr>)"
  by (auto simp: on_files_def map_err_Ok split: prod.split)

lemma on_files_Err [act_simps]:
  "on_files f msg s = Some (Inl e, s') \<longleftrightarrow>
   (\<exists>m fs. f (pv_files s) = (Inl m, fs) \<and> e = AcmeError (msg @ m) \<and> s' = s\<lparr>pv_files := fs\<rparr>)"
  by (auto simp: on_files_def map_err_Err split: prod.split)

lemma install_pair_frame: "touches (cache_files cache) (install_pair faults cache c k)"
  unfolding install_pair_def cache_files_def by (intro file_keeping) simp_all

lemma install_pair_Ok:
  assumes "install_pair faults cache c k s = Some (Ok u, s')"
  shows "pv_files s' (cert_pem_path cache) = Some c \<and> pv_files s' (key_pem_path cache) = Some k \<and>
    pv_world s' = pv_world s"
  using assms
  by (auto simp: install_pair_def act_simps dest!: fs_write_Ok fs_rename_Ok)

text \<open>A failed installation changes at most the certificate, and only when the last rename fails.\<close>

lemma install_pair_Err:
  assumes "install_pair faults cache c k s = Some (Err e, s')"
  shows "pv_files s' (key_pem_path cache) = pv_files s (key_pem_path cache) \<and>
    (pv_files s' (cert_pem_path cache) = pv_files s (cert_pem_path cache) \<or>
     faults (FsRename (key_tmp_path cache) (key_pem_path cache)) \<noteq> None)"
proof -
  have ren: "fs' = fs \<and> (fs a \<noteq> None \<longrightarrow> faults (FsRename a b) \<noteq> None)"
    if "fs_rename faults fs a b = (Inl m, fs')" for fs fs' a b m
    using that by (auto simp: fs_rename_def split: option.splits)
  have tmp: "fs' (key_pem_path cache) = fs (key_pem_path cache) \<and> fs' (cert_pem_path cache) = fs (cert_pem_path cache)"
    if "fs_write faults fs (cert_tmp_path cache) x = (Inl m, fs') \<or> fs_write faults fs (key_tmp_path cache) x = (Inl m, fs')"
    for fs fs' x m
    using that by (auto simp: fs_write_frame)
  from assms show ?thesis
    by (auto simp: install_pair_def act_simps
        dest!: fs_write_Ok fs_rename_Ok ren tmp [OF disjI1] tmp [OF disjI2])
qed

subsection \<open>The inner functions\<close>

definition issue_ok ::
  "('w, 'acct, 'ord, 'par, 'kp, 'csr) acme_api \<Rightarrow> faults \<Rightarrow> path \<Rightarrow> ('w, unit) act \<Rightarrow> bool" where
  "issue_ok api faults cache m \<longleftrightarrow>
     touches {issued_at_path cache} m \<and>
     (\<forall>s r s'. m s = Some (r, s') \<longrightarrow> pv_world s' = pv_world s \<and>
        ((\<forall>t. faults (FsWrite (issued_at_path cache) t) = None) \<longrightarrow>
           is_ok r \<and> pv_files s' (issued_at_path cache) = Some (dec (unat (acme_unix_now api (pv_world s'))))))"

lemma write_issued_at_ok: "issue_ok api faults cache (write_issued_at api faults cache)"
proof -
  have "touches {issued_at_path cache} (write_issued_at api faults cache)"
    by (auto simp: touches_def write_issued_at_def on_files_def split: prod.splits dest: fs_write_frame)
  then show ?thesis
    by (auto simp: issue_ok_def write_issued_at_def on_files_def fs_write_def split: prod.splits option.splits)
qed

lemma act_ignore_ok: "issue_ok api faults cache m \<Longrightarrow> issue_ok api faults cache (act_ignore m)"
  unfolding issue_ok_def by (auto intro: file_keeping simp: act_ignore_def)

definition sound_inner ::
  "('w, 'acct, 'ord, 'par, 'kp, 'csr) acme_api \<Rightarrow> faults \<Rightarrow> path \<Rightarrow> ('w, string \<times> string) act \<Rightarrow> bool" where
  "sound_inner api faults cache inner \<longleftrightarrow>
     touches (cache_files cache) inner \<and>
     (\<forall>s s' c k. inner s = Some (Ok (c, k), s') \<longrightarrow>
        pv_files s' (cert_pem_path cache) = Some c \<and> pv_files s' (key_pem_path cache) = Some k \<and>
        ((\<forall>t. faults (FsWrite (issued_at_path cache) t) = None) \<longrightarrow>
           pv_files s' (issued_at_path cache) = Some (dec (unat (acme_unix_now api (pv_world s')))))) \<and>
     (\<forall>s s' e. inner s = Some (Err e, s') \<longrightarrow> \<not> late_fault faults cache \<longrightarrow>
        pv_files s' (cert_pem_path cache) = pv_files s (cert_pem_path cache) \<and>
        pv_files s' (key_pem_path cache) = pv_files s (key_pem_path cache))"

text \<open>Both are an order that leaves the files alone, the installation, and the issue time.\<close>

definition order_then_install ::
  "faults \<Rightarrow> path \<Rightarrow> ('w, string \<times> string) act \<Rightarrow> ('w, unit) act \<Rightarrow> ('w, string \<times> string) act" where
  "order_then_install faults cache order_act issue =
     act_bind order_act (\<lambda>(c, k). act_bind (install_pair faults cache c k) (\<lambda>_.
     act_bind issue (\<lambda>_. act_return (c, k))))"

lemma order_then_install_sound:
  assumes order: "keeps_files order_act" and issue: "issue_ok api faults cache issue"
  shows "sound_inner api faults cache (order_then_install faults cache order_act issue)"
proof -
  let ?run = "order_then_install faults cache order_act issue"
  have issue_frame: "touches (cache_files cache) issue"
    using issue by (auto simp: issue_ok_def touches_def cache_files_def)
  have "touches (cache_files cache) ?run"
    unfolding order_then_install_def
    by (intro touches_bind touches_split touches_basic touches_mono [OF order] install_pair_frame issue_frame)
  moreover have "pv_files s' (cert_pem_path cache) = Some c \<and> pv_files s' (key_pem_path cache) = Some k \<and>
      ((\<forall>t. faults (FsWrite (issued_at_path cache) t) = None) \<longrightarrow>
         pv_files s' (issued_at_path cache) = Some (dec (unat (acme_unix_now api (pv_world s')))))"
    if "?run s = Some (Ok (c, k), s')" for s s' c k
  proof -
    from that obtain s1 s2 u v where
      installed: "install_pair faults cache c k s1 = Some (Ok u, s2)" and issued: "issue s2 = Some (Ok v, s')"
      by (auto simp: order_then_install_def act_simps)
    from issue issued have "pv_files s' q = pv_files s2 q" if "q \<noteq> issued_at_path cache" for q
      using that by (auto simp: issue_ok_def dest: touchesD)
    with install_pair_Ok [OF installed] issue issued show ?thesis by (auto simp: issue_ok_def)
  qed
  moreover have "pv_files s' (cert_pem_path cache) = pv_files s (cert_pem_path cache) \<and>
      pv_files s' (key_pem_path cache) = pv_files s (key_pem_path cache)"
    if run: "?run s = Some (Err e, s')" and no_late: "\<not> late_fault faults cache" for s s' e
  proof -
    have "issue s2 \<noteq> Some (Err e', s3)" for s2 s3 e'
      using issue no_late unfolding issue_ok_def late_fault_def by (metis is_ok.simps(1))
    with run consider "order_act s = Some (Err e, s')"
      | s1 c k where "order_act s = Some (Ok (c, k), s1)" "install_pair faults cache c k s1 = Some (Err e, s')"
      by (auto simp: order_then_install_def act_simps)
    then show ?thesis
    proof cases
      case 1
      with keeps_filesD [OF order] show ?thesis by metis
    next
      case 2
      with keeps_filesD [OF order 2(1)] install_pair_Err [OF 2(2)] no_late show ?thesis
        by (auto simp: late_fault_def)
    qed
  qed
  ultimately show ?thesis unfolding sound_inner_def by blast
qed

lemma dropping_server_sound:
  "sound_inner api faults cache inner \<Longrightarrow> sound_inner api faults cache (dropping_server inner)"
  unfolding sound_inner_def touches_def dropping_server_def by (auto split: prod.splits)

lemma provision_inner_sound: "sound_inner api faults (cache_dir tc) (provision_inner api faults fuel tc listen_addr)"
proof -
  have "provision_inner api faults fuel tc listen_addr = dropping_server (order_then_install faults (cache_dir tc)
      (order_with_server api fuel tc listen_addr) (act_ignore (write_issued_at api faults (cache_dir tc))))"
    by (simp add: provision_inner_def order_then_install_def)
  then show ?thesis
    by (simp add: dropping_server_sound order_then_install_sound keeps_order_with_server act_ignore_ok
        write_issued_at_ok)
qed

lemma provision_inner_with_store_sound:
  "sound_inner api faults (cache_dir tc) (provision_inner_with_store api faults fuel tc)"
proof -
  have "provision_inner_with_store api faults fuel tc = order_then_install faults (cache_dir tc)
      (order_with_store api fuel tc) (write_issued_at api faults (cache_dir tc))"
    by (simp add: provision_inner_with_store_def order_then_install_def)
  then show ?thesis
    by (simp add: order_then_install_sound keeps_order_with_store write_issued_at_ok)
qed

subsection \<open>The contract\<close>

text \<open>
  What a caller of a provisioning function relies on. \<open>busy\<close>: with the lock file there it fails and
  changes nothing. \<open>success\<close>: the returned pair is installed, and the issue time unless writing it
  fails. \<open>failure\<close>: without a late fault the old pair is still there. \<open>frame\<close>: no other file changes.
  \<open>unlocks\<close>: it gives the lock back.
\<close>

locale provisioner =
  fixes prov :: "'s \<Rightarrow> ((proxy_error + string \<times> string) \<times> 's) option"
    and files_of :: "'s \<Rightarrow> files"
    and now_of :: "'s \<Rightarrow> u64"
    and faults :: faults
    and cache :: path
  assumes busy: "fs_exists faults (files_of s) (lock_path cache) \<Longrightarrow> \<exists>e. prov s = Some (Err e, s)"
    and success: "prov s = Some (Ok (c, k), s') \<Longrightarrow>
      files_of s' (cert_pem_path cache) = Some c \<and> files_of s' (key_pem_path cache) = Some k \<and>
      ((\<forall>t. faults (FsWrite (issued_at_path cache) t) = None) \<longrightarrow>
         files_of s' (issued_at_path cache) = Some (dec (unat (now_of s'))))"
    and failure: "prov s = Some (Err e, s') \<Longrightarrow> \<not> late_fault faults cache \<Longrightarrow>
      files_of s' (cert_pem_path cache) = files_of s (cert_pem_path cache) \<and>
      files_of s' (key_pem_path cache) = files_of s (key_pem_path cache)"
    and frame: "prov s = Some (r, s') \<Longrightarrow> q \<notin> insert (lock_path cache) (cache_files cache) \<Longrightarrow>
      files_of s' q = files_of s q"
    and unlocks: "prov s = Some (r, s') \<Longrightarrow> files_of s (lock_path cache) = None \<Longrightarrow>
      faults (FsWrite (lock_path cache) []) = None \<Longrightarrow> faults (FsRemove (lock_path cache)) = None \<Longrightarrow>
      files_of s' (lock_path cache) = None"
begin

text \<open>The pair on disk is the old one or the new one, never a mixture.\<close>

lemma pair_not_mixed:
  assumes "prov s = Some (r, s')" "\<not> late_fault faults cache"
  shows "(case r of
      Inl _ \<Rightarrow> files_of s' (cert_pem_path cache) = files_of s (cert_pem_path cache) \<and>
               files_of s' (key_pem_path cache) = files_of s (key_pem_path cache)
    | Inr (c, k) \<Rightarrow> files_of s' (cert_pem_path cache) = Some c \<and> files_of s' (key_pem_path cache) = Some k)"
  using assms success failure by (auto split: sum.split)

text \<open>A certificate just provisioned is not due before sixty days.\<close>

lemma due_after_sixty_days:
  assumes run: "prov s = Some (Ok ck, s')" and no_late: "\<not> late_fault faults cache"
    and seen: "faults (FsStat (cert_pem_path cache)) = None" "faults (FsRead (issued_at_path cache)) = None"
    and "unat (now_of s') + 5184000 < 2 ^ 64"
  shows "cert_needs_renewal faults (files_of s') t cache \<longleftrightarrow> unat (now_of s') + 5184000 < unat t"
proof -
  from run success no_late have files: "files_of s' (cert_pem_path cache) \<noteq> None"
      "files_of s' (issued_at_path cache) = Some (dec (unat (now_of s')))"
    unfolding late_fault_def by (cases ck; fastforce)+
  have "read_issued_at faults (files_of s') cache = now_of s'"
    using seen(2) files(2) by (rule read_issued_at_written)
  with files(1) seen assms(5) show ?thesis
    by (simp add: cert_needs_renewal_def fs_exists_def renewal_age_exceeded)
qed

text \<open>The state builder then makes its TLS state from the provisioned pair.\<close>

lemma builds_tls:
  assumes run: "prov s = Some (Ok (c, k), s')" and cache: "cache_dir tc = cache"
    and seen: "\<And>p. faults (FsStat p) = None" "\<And>p. faults (FsRead p) = None"
  shows "build_tls tapi faults (files_of s') (Some tc) = result_bind (build_tls_state tapi tc c k) (\<lambda>ts. Ok (Some ts))"
  using success [OF run] cache seen
  by (simp add: build_tls_def fs_exists_def fs_read_def cert_files)

end

subsection \<open>Both functions meet the contract\<close>

lemma with_lock_cases:
  assumes "with_lock faults cache fin inner s = Some (r, s')"
  obtains (refused) e where "r = Err e" "s' = s"
  | (no_lock) e m fs where "r = Err e" "fs_write faults (pv_files s) (lock_path cache) [] = (Err m, fs)"
      "s' = s\<lparr>pv_files := fs\<rparr>" "faults (FsWrite (lock_path cache) []) \<noteq> None"
  | (ran) s1 s2 where "s1 = s\<lparr>pv_files := (pv_files s)(lock_path cache \<mapsto> [])\<rparr>"
      "inner s1 = Some (r, s2)"
      "s' = fin (s2\<lparr>pv_files := clean_up faults cache (\<not> is_ok r) (pv_files s2)\<rparr>)"
proof -
  obtain q fs where wr: "fs_write faults (pv_files s) (lock_path cache) [] = (q, fs)" by force
  show ?thesis
  proof (cases "is_ok (fs_create_dir_all faults (pv_files s) cache) \<and>
      \<not> fs_exists faults (pv_files s) (lock_path cache)")
    case False
    with assms have "(\<exists>e. r = Err e) \<and> s' = s"
      by (auto simp: with_lock_def split: sum.splits if_splits)
    with refused show ?thesis by blast
  next
    case True
    with assms have run: "act_bind (on_files (\<lambda>fs. fs_write faults fs (lock_path cache) []) ''create lockfile: '') 
        (\<lambda>_. run_locked faults cache fin inner) s = Some (r, s')"
      by (auto simp: with_lock_def result_simps)
    show ?thesis
    proof (cases q)
      case (Inl m)
      with wr have "faults (FsWrite (lock_path cache) []) \<noteq> None" by (auto simp: fs_write_def split: option.splits)
      moreover from run wr Inl have "(\<exists>e. r = Err e) \<and> s' = s\<lparr>pv_files := fs\<rparr>"
        by (auto simp: act_bind_def on_files_def)
      ultimately show ?thesis using no_lock wr Inl by blast
    next
      case (Inr u)
      with wr have "fs = (pv_files s)(lock_path cache \<mapsto> [])" by (auto dest: fs_write_Ok)
      with run wr Inr obtain s2 where "inner (s\<lparr>pv_files := (pv_files s)(lock_path cache \<mapsto> [])\<rparr>) = Some (r, s2)"
        "s' = fin (s2\<lparr>pv_files := clean_up faults cache (\<not> is_ok r) (pv_files s2)\<rparr>)"
        by (auto simp: act_bind_def on_files_def run_locked_def split: option.splits prod.splits)
      with ran show ?thesis by blast
    qed
  qed
qed

lemma clean_up_frame:
  "q \<noteq> lock_path cache \<Longrightarrow> q \<noteq> cert_tmp_path cache \<Longrightarrow> q \<noteq> key_tmp_path cache \<Longrightarrow>
   clean_up faults cache failed fs q = fs q"
  unfolding clean_up_def Let_def
  by (auto simp: fs_remove_frame [OF prod.collapse [symmetric]])

lemma clean_up_unlocks:
  "faults (FsRemove (lock_path cache)) = None \<Longrightarrow> clean_up faults cache failed fs (lock_path cache) = None"
  unfolding clean_up_def Let_def
  by (auto simp: fs_remove_gone fs_remove_frame [OF prod.collapse [symmetric]])

text \<open>What the lock adds to a sound inner function, \<open>fin\<close> being what is done at the very end.\<close>

lemma with_lock_laws:
  fixes inner :: "('w, string \<times> string) act"
  assumes sound: "sound_inner api faults cache inner"
    and fin: "\<And>s :: 'w prov. pv_files (fin s) = pv_files s" "\<And>s :: 'w prov. pv_world (fin s) = pv_world s"
  shows "provisioner (with_lock faults cache fin inner) pv_files (\<lambda>s. acme_unix_now api (pv_world s)) faults cache"
proof unfold_locales
  fix s :: "'w prov" assume "fs_exists faults (pv_files s) (lock_path cache)"
  then show "\<exists>e. with_lock faults cache fin inner s = Some (Err e, s)"
    by (auto simp: with_lock_def split: sum.split)
next
  fix s s' :: "'w prov" and c k assume "with_lock faults cache fin inner s = Some (Ok (c, k), s')"
  then show "pv_files s' (cert_pem_path cache) = Some c \<and> pv_files s' (key_pem_path cache) = Some k \<and>
      ((\<forall>t. faults (FsWrite (issued_at_path cache) t) = None) \<longrightarrow>
         pv_files s' (issued_at_path cache) = Some (dec (unat (acme_unix_now api (pv_world s')))))"
  proof (cases rule: with_lock_cases)
    case (ran s1 s2)
    with sound fin show ?thesis by (simp add: sound_inner_def clean_up_frame)
  qed simp_all
next
  fix s s' :: "'w prov" and e assume run: "with_lock faults cache fin inner s = Some (Err e, s')" and late: "\<not> late_fault faults cache"
  from run show "pv_files s' (cert_pem_path cache) = pv_files s (cert_pem_path cache) \<and>
      pv_files s' (key_pem_path cache) = pv_files s (key_pem_path cache)"
  proof (cases rule: with_lock_cases)
    case (ran s1 s2)
    from sound ran(2) late have "pv_files s2 (cert_pem_path cache) = pv_files s1 (cert_pem_path cache) \<and>
        pv_files s2 (key_pem_path cache) = pv_files s1 (key_pem_path cache)"
      unfolding sound_inner_def by blast
    with ran(1,3) fin show ?thesis by (simp add: clean_up_frame)
  next
    case (no_lock e m fs)
    then show ?thesis by (simp add: fs_write_frame [OF no_lock(2)])
  qed simp
next
  fix s s' :: "'w prov" and r q
  assume run: "with_lock faults cache fin inner s = Some (r, s')" and q: "q \<notin> insert (lock_path cache) (cache_files cache)"
  then have other: "q \<noteq> lock_path cache" "q \<noteq> cert_tmp_path cache" "q \<noteq> key_tmp_path cache" "q \<notin> cache_files cache"
    by (auto simp: cache_files_def)
  from run show "pv_files s' q = pv_files s q"
  proof (cases rule: with_lock_cases)
    case (ran s1 s2)
    from sound ran(2) other(4) have "pv_files s2 q = pv_files s1 q"
      unfolding sound_inner_def by (blast dest: touchesD)
    with ran(1,3) fin other show ?thesis by (simp add: clean_up_frame)
  next
    case (no_lock e m fs)
    with other show ?thesis by (simp add: fs_write_frame [OF no_lock(2)])
  qed simp
next
  fix s s' :: "'w prov" and r
  assume run: "with_lock faults cache fin inner s = Some (r, s')" and free: "pv_files s (lock_path cache) = None"
    and ok: "faults (FsWrite (lock_path cache) []) = None" "faults (FsRemove (lock_path cache)) = None"
  from run show "pv_files s' (lock_path cache) = None"
  proof (cases rule: with_lock_cases)
    case (ran s1 s2)
    with fin ok show ?thesis by (simp add: clean_up_unlocks)
  qed (use free ok in simp_all)
qed

interpretation pv: provisioner "provision api faults fuel tc listen_addr" pv_files
    "\<lambda>s. acme_unix_now api (pv_world s)" faults "cache_dir tc"
  for api :: "('w, 'acct, 'ord, 'par, 'kp, 'csr) acme_api" and faults fuel tc listen_addr
  unfolding provision_def by (rule with_lock_laws [OF provision_inner_sound]) simp_all

interpretation ps: provisioner "provision_with_store api faults fuel tc" pv_files
    "\<lambda>s. acme_unix_now api (pv_world s)" faults "cache_dir tc"
  for api :: "('w, 'acct, 'ord, 'par, 'kp, 'csr) acme_api" and faults fuel tc
  unfolding provision_with_store_def by (rule with_lock_laws [OF provision_inner_with_store_sound]) simp_all

subsection \<open>The polling loops return\<close>

definition returns :: "('w, 'a) act \<Rightarrow> bool" where
  "returns m \<longleftrightarrow> (\<forall>s. m s \<noteq> None)"

named_theorems returning \<open>actions that always return\<close>

lemma returns_bind [returning]: "returns m \<Longrightarrow> (\<And>x. returns (f x)) \<Longrightarrow> returns (act_bind m f)"
  by (simp add: returns_def act_simps)

lemma returns_basic [returning]:
  "returns (act_return x)" "returns (act_result r)" "returns (lift_result q msg)" "returns (act_do h)"
  "returns (on_world g msg)" "returns (on_files fo msg)" "returns m \<Longrightarrow> returns (act_ignore m)"
  by (simp_all add: returns_def act_return_def act_result_def lift_result_def act_do_def on_world_def
      on_files_def act_ignore_def split: prod.split)

lemma returns_case_pair [returning]: "(\<And>x y. returns (f x y)) \<Longrightarrow> returns (case z of (x, y) \<Rightarrow> f x y)"
  by (cases z) simp

lemma returns_begin_order [returning]: "returns (begin_order api tc)"
  unfolding begin_order_def by (intro returning)

lemma returns_store_challenges [returning]: "returns (store_challenges api ord auths urls)"
  by (induction auths arbitrary: urls) (auto intro!: returning)

lemma returns_announce [returning]: "returns (announce_ready api ord urls)"
  by (induction urls) (auto intro!: returning)

lemma returns_request_cert [returning]: "returns (request_cert api tc ord)"
  unfolding request_cert_def by (intro returning)

lemma returns_install [returning]: "returns (install_pair faults cache c k)"
  unfolding install_pair_def by (intro returning)

lemma returns_write_issued_at [returning]: "returns (write_issued_at api faults cache)"
  by (simp add: returns_def write_issued_at_def on_files_def split: prod.split)

text \<open>A loop that sleeps at least three seconds per turn needs 41 turns to pass 120 seconds.\<close>

lemma poll_ready_returns:
  assumes laws: "clock_laws api"
    and "acme_instant api (pv_world s) \<le> deadline"
      "deadline < acme_instant api (pv_world s) + seconds (3 * fuel)"
  shows "poll_ready api ord deadline fuel s \<noteq> None"
  using assms(2,3)
proof (induction fuel arbitrary: s)
  case 0
  then show ?case by (simp add: seconds_def)
next
  case (Suc fuel)
  obtain r w where refresh: "acme_refresh api ord (acme_sleep api 3 (pv_world s)) = (r, w)" by force
  with laws have "acme_instant api (pv_world s) + seconds 3 \<le> acme_instant api w"
    unfolding clock_laws_def by (metis le_trans snd_conv)
  with Suc.prems(2) have "deadline < acme_instant api w + seconds (3 * fuel)"
    by (simp add: seconds_def)
  with Suc.IH [of "s\<lparr>pv_world := w\<rparr>"] refresh show ?case
    by (auto simp: act_bind_def sleep_for_def act_do_def on_world_def act_return_def act_result_def
        split: sum.split)
qed

lemma download_cert_until_returns:
  assumes laws: "clock_laws api"
    and "acme_instant api (pv_world s) \<le> deadline"
      "deadline < acme_instant api (pv_world s) + seconds (2 * fuel)"
  shows "download_cert_until api ord deadline fuel s \<noteq> None"
  using assms(2,3)
proof (induction fuel arbitrary: s)
  case 0
  then show ?case by (simp add: seconds_def)
next
  case (Suc fuel)
  obtain r w where cert: "acme_certificate api ord (acme_sleep api 2 (pv_world s)) = (r, w)" by force
  with laws have "acme_instant api (pv_world s) + seconds 2 \<le> acme_instant api w"
    unfolding clock_laws_def by (metis le_trans snd_conv)
  with Suc.prems(2) have "deadline < acme_instant api w + seconds (2 * fuel)"
    by (simp add: seconds_def)
  with Suc.IH [of "s\<lparr>pv_world := w\<rparr>"] cert show ?case
    by (auto simp: act_bind_def sleep_for_def act_do_def on_world_def act_return_def
        split: sum.split option.split)
qed

lemma returns_wait_ready [returning]: "clock_laws api \<Longrightarrow> 41 \<le> fuel \<Longrightarrow> returns (wait_ready api fuel ord)"
  unfolding returns_def wait_ready_def by (intro allI poll_ready_returns) (simp_all add: seconds_def)

lemma returns_wait_cert [returning]: "clock_laws api \<Longrightarrow> 41 \<le> fuel \<Longrightarrow> returns (wait_cert api fuel ord)"
  unfolding returns_def wait_cert_def by (intro allI download_cert_until_returns) (simp_all add: seconds_def)

lemma with_lock_returns: "returns inner \<Longrightarrow> returns (with_lock faults cache fin inner)"
proof -
  assume "returns inner"
  then have "returns (run_locked faults cache fin inner)"
    by (simp add: returns_def run_locked_def)
  then have "returns (act_bind (on_files (\<lambda>fs. fs_write faults fs (lock_path cache) []) ''create lockfile: '')
      (\<lambda>_. run_locked faults cache fin inner))"
    by (intro returning)
  then show ?thesis by (simp add: returns_def with_lock_def split: sum.split)
qed

lemma provision_with_store_returns:
  "clock_laws api \<Longrightarrow> 41 \<le> fuel \<Longrightarrow> returns (provision_with_store api faults fuel tc)"
  unfolding provision_with_store_def provision_inner_with_store_def order_with_store_def
  by (intro with_lock_returns returning)

subsection \<open>More fuel changes nothing\<close>

definition refines :: "('w, 'a) act \<Rightarrow> ('w, 'a) act \<Rightarrow> bool" where
  "refines m m' \<longleftrightarrow> (\<forall>s x. m s = Some x \<longrightarrow> m' s = Some x)"

named_theorems refining \<open>actions that keep their results with more fuel\<close>

lemma refinesI: "(\<And>s x. m s = Some x \<Longrightarrow> m' s = Some x) \<Longrightarrow> refines m m'"
  by (simp add: refines_def)

lemma refinesD: "refines m m' \<Longrightarrow> m s = Some x \<Longrightarrow> m' s = Some x"
  unfolding refines_def by blast

lemma refines_refl [refining]: "refines m m"
  by (simp add: refines_def)

lemma refines_bind [refining]:
  "refines m m' \<Longrightarrow> (\<And>x. refines (f x) (f' x)) \<Longrightarrow> refines (act_bind m f) (act_bind m' f')"
  unfolding refines_def act_bind_def by (fastforce split: option.splits prod.splits sum.splits)

lemma refines_case_pair [refining]:
  "(\<And>x y. refines (f x y) (f' x y)) \<Longrightarrow> refines (case z of (x, y) \<Rightarrow> f x y) (case z of (x, y) \<Rightarrow> f' x y)"
  by (cases z) simp

lemma refines_if [refining]:
  "refines m m' \<Longrightarrow> refines n n' \<Longrightarrow> refines (\<lambda>s. if P s then m s else n s) (\<lambda>s. if P s then m' s else n' s)"
  "refines m m' \<Longrightarrow> refines n n' \<Longrightarrow> refines (if c then m else n) (if c then m' else n')"
  "refines m m' \<Longrightarrow> (\<And>x. refines (g x) (g' x)) \<Longrightarrow>
   refines (case z of None \<Rightarrow> m | Some x \<Rightarrow> g x) (case z of None \<Rightarrow> m' | Some x \<Rightarrow> g' x)"
  by (auto simp: refines_def split: option.split)

lemma poll_ready_more: "fuel \<le> fuel' \<Longrightarrow> refines (poll_ready api ord deadline fuel) (poll_ready api ord deadline fuel')"
proof (induction fuel arbitrary: fuel')
  case 0
  then show ?case by (simp add: refines_def)
next
  case (Suc fuel)
  then obtain k where "fuel' = Suc k" "fuel \<le> k" by (metis Suc_le_D Suc_le_mono)
  with Suc.IH show ?case by (auto intro!: refining)
qed

lemma download_cert_more: "fuel \<le> fuel' \<Longrightarrow> refines (download_cert api ord fuel) (download_cert api ord fuel')"
proof (induction fuel arbitrary: fuel')
  case 0
  then show ?case by (simp add: refines_def)
next
  case (Suc fuel)
  then obtain k where "fuel' = Suc k" "fuel \<le> k" by (metis Suc_le_D Suc_le_mono)
  with Suc.IH show ?case by (auto intro!: refining)
qed

lemma download_cert_until_more:
  "fuel \<le> fuel' \<Longrightarrow> refines (download_cert_until api ord deadline fuel) (download_cert_until api ord deadline fuel')"
proof (induction fuel arbitrary: fuel')
  case 0
  then show ?case by (simp add: refines_def)
next
  case (Suc fuel)
  then obtain k where "fuel' = Suc k" "fuel \<le> k" by (metis Suc_le_D Suc_le_mono)
  with Suc.IH show ?case by (auto intro!: refining)
qed

lemma wait_ready_more [refining]:
  "fuel \<le> fuel' \<Longrightarrow> refines (wait_ready api fuel ord) (wait_ready api fuel' ord)"
  by (rule refinesI) (simp add: wait_ready_def refinesD [OF poll_ready_more])

lemma wait_cert_more [refining]:
  "fuel \<le> fuel' \<Longrightarrow> refines (wait_cert api fuel ord) (wait_cert api fuel' ord)"
  by (rule refinesI) (simp add: wait_cert_def refinesD [OF download_cert_until_more])

lemma with_lock_more: "refines inner inner' \<Longrightarrow> refines (with_lock faults cache fin inner) (with_lock faults cache fin inner')"
proof -
  assume "refines inner inner'"
  then have "refines (run_locked faults cache fin inner) (run_locked faults cache fin inner')"
    by (auto simp: refines_def run_locked_def)
  then have "refines (act_bind (on_files (\<lambda>fs. fs_write faults fs (lock_path cache) []) ''create lockfile: '')
      (\<lambda>_. run_locked faults cache fin inner))
    (act_bind (on_files (\<lambda>fs. fs_write faults fs (lock_path cache) []) ''create lockfile: '')
      (\<lambda>_. run_locked faults cache fin inner'))"
    by (intro refining)
  then show ?thesis unfolding refines_def with_lock_def by (simp split: sum.split)
qed

lemma provision_with_store_more:
  "fuel \<le> fuel' \<Longrightarrow> refines (provision_with_store api faults fuel tc) (provision_with_store api faults fuel' tc)"
  unfolding provision_with_store_def provision_inner_with_store_def order_with_store_def
  by (intro with_lock_more refining)

lemma provision_more:
  "fuel \<le> fuel' \<Longrightarrow>
   refines (provision api faults fuel tc listen_addr) (provision api faults fuel' tc listen_addr)"
proof -
  assume fuel: "fuel \<le> fuel'"
  have drop: "refines m m' \<Longrightarrow> refines (dropping_server m) (dropping_server m')"
    for m m' :: "('a, string \<times> string) act"
    by (auto simp: refines_def dropping_server_def)
  show ?thesis
    unfolding provision_def provision_inner_def order_with_server_def
    by (intro with_lock_more drop refining fuel download_cert_more)
qed

subsection \<open>The challenges\<close>

text \<open>The challenge of each authorization, and what is served for it.\<close>

definition served_keys ::
  "('w, 'acct, 'ord, 'par, 'kp, 'csr) acme_api \<Rightarrow> 'ord \<Rightarrow> challenge list \<Rightarrow> (string \<times> string) list" where
  "served_keys api ord cs = map (\<lambda>c. (ch_token c, acme_key_authorization api ord c)) cs"

lemma ex_cons_map: "(\<exists>cs. Ok c # xs = map Ok cs \<and> P cs) \<longleftrightarrow> (\<exists>cs. xs = map Ok cs \<and> P (c # cs))"
  by (auto simp: Cons_eq_map_conv)

lemma collect_challenges_Ok:
  "collect_challenges api ord auths m urls = Ok (m', us) \<longleftrightarrow>
   (\<exists>cs. map http01_challenge auths = map Ok cs \<and> us = urls @ map ch_url cs \<and>
      m' = m ++ map_of (rev (served_keys api ord cs)))"
proof (induction auths arbitrary: m urls)
  case Nil
  then show ?case by (auto simp: served_keys_def)
next
  case (Cons auth auths)
  show ?case
  proof (cases "http01_challenge auth")
    case (Inl e)
    then show ?thesis by (auto simp: map_eq_Cons_conv)
  next
    case (Inr c)
    let ?m = "m(ch_token c \<mapsto> acme_key_authorization api ord c)"
    have later: "?m ++ map_of (rev (served_keys api ord cs)) = m ++ map_of (rev (served_keys api ord (c # cs)))" for cs
      by (auto simp: served_keys_def map_add_def fun_eq_iff split: option.splits)
    have "collect_challenges api ord (auth # auths) m urls = Ok (m', us) \<longleftrightarrow>
        (\<exists>cs. map http01_challenge auths = map Ok cs \<and> us = urls @ map ch_url (c # cs) \<and>
           m' = m ++ map_of (rev (served_keys api ord (c # cs))))"
      using Inr by (simp add: Cons.IH [of ?m] later [symmetric] del: fun_upd_apply)
    also have "\<dots> \<longleftrightarrow> (\<exists>cs. map http01_challenge (auth # auths) = map Ok cs \<and> us = urls @ map ch_url cs \<and>
           m' = m ++ map_of (rev (served_keys api ord cs)))"
      using Inr by (simp only: list.map ex_cons_map)
    finally show ?thesis .
  qed
qed

text \<open>Writing into the store as it goes ends with the store the other function would have served.\<close>

lemma store_challenges_collect:
  "collect_challenges api ord auths (pv_store s) urls = Ok (m, us) \<Longrightarrow>
   store_challenges api ord auths urls s = Some (Ok us, s\<lparr>pv_store := m\<rparr>)"
proof (induction auths arbitrary: s urls)
  case Nil
  then show ?case by (auto simp: act_return_def)
next
  case (Cons auth auths)
  from Cons.prems obtain c where c: "http01_challenge auth = Ok c"
    and rest: "collect_challenges api ord auths ((pv_store s)(ch_token c \<mapsto> acme_key_authorization api ord c))
      (urls @ [ch_url c]) = Ok (m, us)"
    by (auto simp: result_simps)
  let ?s = "s\<lparr>pv_store := (pv_store s)(ch_token c \<mapsto> acme_key_authorization api ord c)\<rparr>"
  have "collect_challenges api ord auths (pv_store ?s) (urls @ [ch_url c]) = Ok (m, us)"
    using rest by simp
  then have "store_challenges api ord auths (urls @ [ch_url c]) ?s = Some (Ok us, ?s\<lparr>pv_store := m\<rparr>)"
    by (rule Cons.IH)
  with c show ?case by (simp add: act_bind_def act_result_def act_do_def)
qed

subsection \<open>The download that has no deadline\<close>

definition download_poll ::
  "('w, 'acct, 'ord, 'par, 'kp, 'csr) acme_api \<Rightarrow> 'ord \<Rightarrow> 'w \<Rightarrow> (string + string option) \<times> 'w" where
  "download_poll api ord w = acme_certificate api ord (acme_sleep api 1 w)"

lemma download_cert_Suc:
  "download_cert api ord (Suc fuel) s =
     (case download_poll api ord (pv_world s) of
        (Inl e, w) \<Rightarrow> Some (Err (AcmeError (''download cert: '' @ e)), s\<lparr>pv_world := w\<rparr>)
      | (Inr (Some c), w) \<Rightarrow> Some (Ok c, s\<lparr>pv_world := w\<rparr>)
      | (Inr None, w) \<Rightarrow> download_cert api ord fuel (s\<lparr>pv_world := w\<rparr>))"
  by (simp add: download_poll_def act_bind_def sleep_for_def act_do_def on_world_def act_return_def
      split: prod.split sum.split option.split)

primrec after_polls :: "('w, 'acct, 'ord, 'par, 'kp, 'csr) acme_api \<Rightarrow> 'ord \<Rightarrow> nat \<Rightarrow> 'w \<Rightarrow> 'w" where
  "after_polls api ord 0 w = w"
| "after_polls api ord (Suc n) w = after_polls api ord n (snd (download_poll api ord w))"

lemma download_cert_None:
  "download_cert api ord fuel s = None \<longleftrightarrow>
   (\<forall>n < fuel. fst (download_poll api ord (after_polls api ord n (pv_world s))) = Inr None)"
proof (induction fuel arbitrary: s)
  case 0
  then show ?case by simp
next
  case (Suc fuel)
  obtain r w where poll: "download_poll api ord (pv_world s) = (r, w)" by force
  with Suc.IH [of "s\<lparr>pv_world := w\<rparr>"] show ?case
    unfolding download_cert_Suc All_less_Suc2 by (auto split: sum.split option.split)
qed

end
