(* ===== verification/Provisioning.thy ===== *)
theory Provisioning
  imports Acme_Laws
begin

section \<open>Properties of provisioning\<close>

text \<open>
  What \<open>provision\<close> and \<open>provision_with_store\<close> of \<open>src/acme.rs\<close> guarantee, read off the interpretations of
  the contract \<open>provisioner\<close>, with runs on an example authority that has the order ready after nine
  seconds and the certificate after twelve.
\<close>

subsection \<open>An example authority\<close>

text \<open>The world is the monotonic clock; key, order and account carry nothing.\<close>

definition example_challenges :: "challenge list" where
  "example_challenges =
     [\<lparr>ch_type = Dns01, ch_url = ''https://ca/c/1'', ch_token = ''dns-token''\<rparr>,
      \<lparr>ch_type = Http01, ch_url = ''https://ca/c/2'', ch_token = ''tok''\<rparr>]"

definition example_acme :: "bool \<Rightarrow> (nat, unit, unit, unit, unit, unit) acme_api" where
  "example_acme delivers =
     \<lparr>acme_account = (\<lambda>contact dir w. (Ok (), w)),
      acme_new_order = (\<lambda>a ds w. (Ok (), w)),
      acme_authorizations = (\<lambda>ord w. (Ok [example_challenges], w)),
      acme_key_authorization = (\<lambda>ord c. ch_token c @ ''.thumbprint''),
      acme_set_ready = (\<lambda>ord url w. (Ok (), w)),
      acme_refresh = (\<lambda>ord w. (Ok (if seconds 9 \<le> w then OrderReady else OrderPending), w)),
      acme_finalize = (\<lambda>ord csr w. (Ok (), w)),
      acme_certificate = (\<lambda>ord w. (Ok (if delivers \<and> seconds 12 \<le> w then Some ''CERT2'' else None), w)),
      rcgen_params = (\<lambda>ds. Ok ()), rcgen_key = (\<lambda>w. (Ok (), w)), rcgen_csr = (\<lambda>par kp. Ok ()),
      rcgen_key_pem = (\<lambda>kp. ''KEY2''),
      acme_bind = (\<lambda>a w. (Ok (), w)),
      acme_sleep = (\<lambda>n w. w + seconds n),
      acme_instant = (\<lambda>w. w),
      acme_unix_now = (\<lambda>w. 1700000000)\<rparr>"

lemma example_acme_clock: "clock_laws (example_acme delivers)"
  by (simp add: clock_laws_def example_acme_def)

definition example_prov :: "nat prov" where
  "example_prov = \<lparr>pv_world = 0, pv_files = example_files, pv_server = None, pv_store = Map.empty\<rparr>"

text \<open>A disk on which the last rename fails.\<close>

definition rename_fault :: faults where
  "rename_fault = [FsRename (key_tmp_path ''certs'') (key_pem_path ''certs'') \<mapsto>
     \<lparr>fault_error = ''disk error'', fault_residue = None\<rparr>]"

definition example_provision ::
  "faults \<Rightarrow> ((proxy_error + string \<times> string) \<times> nat prov) option" where
  "example_provision faults = provision (example_acme True) faults 41 example_tls_config ''0.0.0.0:80'' example_prov"

definition example_provision_with_store ::
  "faults \<Rightarrow> ((proxy_error + string \<times> string) \<times> nat prov) option" where
  "example_provision_with_store faults =
     provision_with_store (example_acme True) faults 41 example_tls_config example_prov"

subsection \<open>Properties\<close>

text \<open>
  C9: when provisioning returns, the certificate and the key on disk are the old ones if it failed
  and the new ones, both of them, if it succeeded, provided that the rename of the key and the
  writing of the issue time do not fail.
\<close>
theorem provisioning_never_mixes_pair:
  assumes "provision api faults fuel tc listen_addr s = Some (r, s') \<or>
           provision_with_store api faults fuel tc s = Some (r, s')"
    and "\<not> late_fault faults (cache_dir tc)"
  shows "(pv_files s' (cert_pem_path (cache_dir tc)), pv_files s' (key_pem_path (cache_dir tc))) =
    (case r of
       Inl _ \<Rightarrow> (pv_files s (cert_pem_path (cache_dir tc)), pv_files s (key_pem_path (cache_dir tc)))
     | Inr (c, k) \<Rightarrow> (Some c, Some k))"
  using assms pv.pair_not_mixed [of api faults fuel tc listen_addr s r s']
    ps.pair_not_mixed [of api faults fuel tc s r s']
  by (auto split: sum.splits)

text \<open>The shape of a run that returns a value, for the witnesses.\<close>

lemma run_shape:
  assumes "map_option fst m = Some r"
  shows "m = Some (r, snd (the m))"
  using assms by (cases m) auto

theorem provisioning_never_mixes_pair_witness:
  "pv_files (snd (the (example_provision_with_store Map.empty))) ''certs/cert.pem'' = Some ''CERT2''"
proof -
  have "map_option fst (example_provision_with_store Map.empty) = Some (Ok (''CERT2'', ''KEY2''))" by code_simp
  from provisioning_never_mixes_pair [OF disjI2, OF run_shape [OF this, unfolded example_provision_with_store_def]]
  show ?thesis
    by (simp add: late_fault_def cert_pem_path_def path_join_def starts_with_def example_tls_config_def
        example_provision_with_store_def)
qed

text \<open>
  But when the last rename fails, the new certificate has already replaced the old one, and stays
  beside the old key: the pair on disk no longer matches although provisioning reports an error.
\<close>
theorem failed_key_rename_leaves_new_certificate:
  assumes "faults (FsWrite (cert_tmp_path cache) c) = None" "faults (FsWrite (key_tmp_path cache) k) = None"
    and "faults (FsRename (cert_tmp_path cache) (cert_pem_path cache)) = None"
    and "faults (FsRename (key_tmp_path cache) (key_pem_path cache)) \<noteq> None"
  shows "\<exists>e s'. install_pair faults cache c k s = Some (Err e, s') \<and>
     pv_files s' (cert_pem_path cache) = Some c \<and>
     pv_files s' (key_pem_path cache) = pv_files s (key_pem_path cache)"
  using assms
  by (auto simp: install_pair_def act_bind_def on_files_def fs_write_def fs_rename_def split: option.splits)

theorem failed_key_rename_leaves_new_certificate_witness:
  "\<exists>e s'. install_pair rename_fault ''certs'' ''CERT2'' ''KEY2'' example_prov = Some (Err e, s') \<and>
     pv_files s' (cert_pem_path ''certs'') = Some ''CERT2'' \<and>
     pv_files s' (key_pem_path ''certs'') = pv_files example_prov (key_pem_path ''certs'')"
  by (rule failed_key_rename_leaves_new_certificate) (simp_all add: rename_fault_def)

text \<open>
  Provisioning refuses to run while the lock file is there, changing nothing, and gives the lock
  back when it returns, with a value or an error.
\<close>
theorem provisioning_takes_turns:
  "(fs_exists faults (pv_files s) (lock_path (cache_dir tc)) \<longrightarrow>
      (\<exists>e. provision api faults fuel tc listen_addr s = Some (Err e, s)) \<and>
      (\<exists>e. provision_with_store api faults fuel tc s = Some (Err e, s))) \<and>
   (pv_files s (lock_path (cache_dir tc)) = None \<and>
    faults (FsWrite (lock_path (cache_dir tc)) []) = None \<and> faults (FsRemove (lock_path (cache_dir tc))) = None \<longrightarrow>
      (\<forall>r s'. provision api faults fuel tc listen_addr s = Some (r, s') \<or>
              provision_with_store api faults fuel tc s = Some (r, s') \<longrightarrow>
         pv_files s' (lock_path (cache_dir tc)) = None))"
  using pv.busy [of faults s tc api fuel listen_addr] ps.busy [of faults s tc api fuel]
    pv.unlocks [of api faults fuel tc listen_addr s] ps.unlocks [of api faults fuel tc s]
  by blast

theorem provisioning_takes_turns_witness:
  "pv_files (snd (the (example_provision rename_fault))) (lock_path ''certs'') = None"
proof -
  have "map_option (is_ok \<circ> fst) (example_provision rename_fault) = Some False" by code_simp
  then obtain r s' where run: "example_provision rename_fault = Some (r, s')" by auto
  have "pv_files example_prov (lock_path (cache_dir example_tls_config)) = None"
    "rename_fault (FsWrite (lock_path (cache_dir example_tls_config)) []) = None"
    "rename_fault (FsRemove (lock_path (cache_dir example_tls_config))) = None"
    by code_simp+
  with provisioning_takes_turns [of rename_fault example_prov example_tls_config "example_acme True" 41 "''0.0.0.0:80''"]
    run have "pv_files s' (lock_path (cache_dir example_tls_config)) = None"
    by (auto simp: example_provision_def)
  with run show ?thesis by (simp add: example_tls_config_def)
qed

text \<open>
  C31: a certificate just provisioned is due for renewal exactly when more than sixty days have passed
  since the time of its issue, as long as no file operation involved fails and the clock is far from
  wrapping around.
\<close>
theorem provisioned_certificate_lasts_sixty_days:
  assumes "provision api faults fuel tc listen_addr s = Some (Ok ck, s') \<or>
           provision_with_store api faults fuel tc s = Some (Ok ck, s')"
    and "\<not> late_fault faults (cache_dir tc)"
    and "faults (FsStat (cert_pem_path (cache_dir tc))) = None"
    and "faults (FsRead (issued_at_path (cache_dir tc))) = None"
    and "unat (acme_unix_now api (pv_world s')) + 5184000 < 2 ^ 64"
  shows "cert_needs_renewal faults (pv_files s') now (cache_dir tc) \<longleftrightarrow>
         unat (acme_unix_now api (pv_world s')) + 60 * 24 * 60 * 60 < unat now"
  using assms pv.due_after_sixty_days [of api faults fuel tc listen_addr s ck s' now]
    ps.due_after_sixty_days [of api faults fuel tc s ck s' now]
  by auto

theorem provisioned_certificate_lasts_sixty_days_witness:
  "\<not> cert_needs_renewal Map.empty (pv_files (snd (the (example_provision Map.empty)))) 1705184000 ''certs'' \<and>
   cert_needs_renewal Map.empty (pv_files (snd (the (example_provision Map.empty)))) 1705184001 ''certs''"
proof -
  have "map_option fst (example_provision Map.empty) = Some (Ok (''CERT2'', ''KEY2''))" by code_simp
  note run = run_shape [OF this]
  have "acme_unix_now (example_acme True) w = 1700000000" for w by (simp add: example_acme_def)
  then show ?thesis
    using provisioned_certificate_lasts_sixty_days [OF disjI1, OF run [unfolded example_provision_def]]
    by (simp add: late_fault_def example_tls_config_def example_provision_def)
qed

text \<open>
  C15: \<open>provision_with_store\<close> always returns when the clock runs on: 41 turns of its polling loops are
  enough, and more turns do not change what it returns.
\<close>
theorem provision_with_store_terminates:
  assumes "clock_laws api" "41 \<le> fuel"
  shows "\<exists>x. provision_with_store api faults 41 tc s = Some x \<and> provision_with_store api faults fuel tc s = Some x"
proof -
  from provision_with_store_returns [OF assms(1) order_refl] obtain x
    where x: "provision_with_store api faults 41 tc s = Some x"
    unfolding returns_def by fastforce
  with refinesD [OF provision_with_store_more [OF assms(2)] x] show ?thesis by blast
qed

theorem provision_with_store_terminates_witness:
  "\<exists>x. provision_with_store (example_acme False) Map.empty 41 example_tls_config example_prov = Some x \<and>
       provision_with_store (example_acme False) Map.empty 1000 example_tls_config example_prov = Some x"
  by (rule provision_with_store_terminates [OF example_acme_clock]) simp

text \<open>
  The download loop of \<open>provision_inner\<close> returns exactly when one of its polls brings something
  other than \<open>not yet\<close>; as long as the authority answers \<open>not yet\<close>, no number of turns ends it.
\<close>
theorem download_returns_iff_delivered:
  "(\<exists>fuel. download_cert api ord fuel s \<noteq> None) \<longleftrightarrow>
   (\<exists>n. fst (download_poll api ord (after_polls api ord n (pv_world s))) \<noteq> Ok None)"
  unfolding download_cert_None by (metis lessI)

text \<open>
  The tokens stored for the redirect server are, for each authorization of the order, that of its
  first HTTP-01 challenge with its key authorization, as \<open>provision_inner\<close> would serve them itself;
  and they are gone when \<open>provision_with_store\<close> returns, unless it was refused or could not take the
  lock, when the store is as it was.
\<close>
theorem stored_challenges:
  "(\<forall>m us. collect_challenges api ord auths (pv_store s) [] = Ok (m, us) \<longrightarrow>
      store_challenges api ord auths [] s = Some (Ok us, s\<lparr>pv_store := m\<rparr>) \<and>
      (\<exists>cs. map http01_challenge auths = map Ok cs \<and> us = map ch_url cs \<and>
         m = pv_store s ++ map_of (rev (map (\<lambda>c. (ch_token c, acme_key_authorization api ord c)) cs)))) \<and>
   (\<forall>r s'. provision_with_store api faults fuel tc s = Some (r, s') \<longrightarrow>
      pv_store s' = Map.empty \<or> (pv_store s' = pv_store s \<and> \<not> is_ok r))"
proof (intro conjI allI impI)
  fix m us assume collect: "collect_challenges api ord auths (pv_store s) [] = Ok (m, us)"
  then show "store_challenges api ord auths [] s = Some (Ok us, s\<lparr>pv_store := m\<rparr>)"
    by (rule store_challenges_collect)
  from collect show "\<exists>cs. map http01_challenge auths = map Ok cs \<and> us = map ch_url cs \<and>
      m = pv_store s ++ map_of (rev (map (\<lambda>c. (ch_token c, acme_key_authorization api ord c)) cs))"
    unfolding collect_challenges_Ok by (simp add: served_keys_def)
next
  fix r s' assume "provision_with_store api faults fuel tc s = Some (r, s')"
  then show "pv_store s' = Map.empty \<or> (pv_store s' = pv_store s \<and> \<not> is_ok r)"
    unfolding provision_with_store_def by (cases rule: with_lock_cases) simp_all
qed

theorem stored_challenges_witness:
  "\<exists>cs. map http01_challenge [example_challenges] = map Ok cs \<and> [''https://ca/c/2''] = map ch_url cs"
proof -
  let ?c = "collect_challenges (example_acme True) () [example_challenges] (pv_store example_prov) []"
  have "map_sum id snd ?c = Ok [''https://ca/c/2'']" by code_simp
  then obtain m where "?c = Ok (m, [''https://ca/c/2''])" by (cases ?c) auto
  from stored_challenges [THEN conjunct1, rule_format, OF this] obtain cs
    where "map http01_challenge [example_challenges] = map Ok cs" "[''https://ca/c/2''] = map ch_url cs"
    by (elim conjE exE)
  then show ?thesis by (intro exI [of _ cs] conjI)
qed

end
