(* ===== verification/Challenge_Http.thy ===== *)
theory Challenge_Http
  imports Handler Provisioning
begin

section \<open>Serving challenges and redirects (\<open>src/acme.rs\<close>, \<open>src/server.rs\<close>)\<close>

text \<open>
  The two request handlers of port 80: that of the challenge server \<open>provision_inner\<close> starts, and that of
  the redirect server, which also answers challenges, from the shared store. The locale
  \<open>challenge_responder\<close> is what the authority relies on: a request for a stored token gets its key
  authorization, and no other request gets a 200.
\<close>

subsection \<open>The handlers\<close>

definition challenge_prefix :: string where
  "challenge_prefix = ''/.well-known/acme-challenge/''"

text \<open>The key authorization a path asks for.\<close>

definition find_challenge :: "(string \<rightharpoonup> string) \<Rightarrow> string \<Rightarrow> string option" where
  "find_challenge challenges path =
     (case strip_prefix challenge_prefix path of
        None \<Rightarrow> None
      | Some token \<Rightarrow> challenges token)"

definition not_found :: "'h header_api \<Rightarrow> ('h, string) response" where
  "not_found api = \<lparr>resp_status = 404, resp_headers = hm_empty api, resp_body = []\<rparr>"

definition challenge_handler ::
  "'h header_api \<Rightarrow> (string \<rightharpoonup> string) \<Rightarrow> ('h, 'b) request \<Rightarrow> ('h, string) response outcome" where
  "challenge_handler api challenges req =
     (case find_challenge challenges (uri_path (req_uri req)) of
        Some key_auth \<Rightarrow> Returned (make_response api 200 ''text/plain'' key_auth)
      | None \<Rightarrow> Returned (not_found api))"

definition redirect_host :: "'h header_api \<Rightarrow> ('h, 'b) request \<Rightarrow> string" where
  "redirect_host api req =
     (case Option.bind (hm_get api (req_headers req) ''host'') (hv_to_str api) of
        None \<Rightarrow> []
      | Some h \<Rightarrow> split_head (CHR '':'') h)"

definition redirect_location :: "'h header_api \<Rightarrow> u16 \<Rightarrow> ('h, 'b) request \<Rightarrow> string" where
  "redirect_location api https_port req =
     (if https_port = 443 then ''https://'' @ redirect_host api req @ uri_text (req_uri req)
      else ''https://'' @ redirect_host api req @ '':'' @ dec (unat https_port) @ uri_text (req_uri req))"

definition redirect_handler ::
  "'h header_api \<Rightarrow> u16 \<Rightarrow> (string \<rightharpoonup> string) \<Rightarrow> ('h, 'b) request \<Rightarrow> ('h, string) response outcome" where
  "redirect_handler api https_port challenges req =
     (case find_challenge challenges (uri_path (req_uri req)) of
        Some key_auth \<Rightarrow> Returned (make_response api 200 ''text/plain'' key_auth)
      | None \<Rightarrow>
          (if hv_from_str api (redirect_location api https_port req) then
             Returned \<lparr>resp_status = 301,
                       resp_headers = hm_append api ''location'' (redirect_location api https_port req) (hm_empty api),
                       resp_body = []\<rparr>
           else Panicked))"

subsection \<open>The contract\<close>

locale challenge_responder =
  fixes answer :: "(string \<rightharpoonup> string) \<Rightarrow> ('h, 'b) request \<Rightarrow> ('h, string) response outcome"
  assumes serves: "uri_path (req_uri req) = challenge_prefix @ token \<Longrightarrow> challenges token = Some key_auth \<Longrightarrow>
      \<exists>resp. answer challenges req = Returned resp \<and> resp_status resp = 200 \<and> resp_body resp = key_auth"
    and serves_only: "answer challenges req = Returned resp \<Longrightarrow> resp_status resp = 200 \<Longrightarrow>
      \<exists>token. uri_path (req_uri req) = challenge_prefix @ token \<and> challenges token = Some (resp_body resp)"
begin

text \<open>Every key authorization put into the map is served, when the tokens differ.\<close>

lemma serves_all:
  assumes "distinct (map fst keys)" "(token, key_auth) \<in> set keys"
    and "uri_path (req_uri req) = challenge_prefix @ token"
  shows "\<exists>resp. answer (m ++ map_of (rev keys)) req = Returned resp \<and> resp_status resp = 200 \<and>
           resp_body resp = key_auth"
proof -
  from assms(1,2) have "map_of (rev keys) token = Some key_auth" by (simp add: rev_map [symmetric])
  then have "(m ++ map_of (rev keys)) token = Some key_auth" by simp
  with assms(3) show ?thesis by (intro serves)
qed

text \<open>Once the map is cleared nothing is served.\<close>

lemma serves_nothing: "answer Map.empty req = Returned resp \<Longrightarrow> resp_status resp \<noteq> 200"
  using serves_only [of Map.empty req resp] by auto

end

lemma find_challenge_Some:
  "find_challenge challenges path = Some k \<longleftrightarrow> (\<exists>token. path = challenge_prefix @ token \<and> challenges token = Some k)"
  by (auto simp: find_challenge_def strip_prefix_Some split: option.split)
    (metis option.distinct(1) option.inject strip_prefix_Some)+

lemma find_challenge_prefix [simp]: "find_challenge challenges (challenge_prefix @ token) = challenges token"
  by (simp add: find_challenge_def strip_prefix_def)

lemma find_challenge_outside: "\<not> starts_with challenge_prefix path \<Longrightarrow> find_challenge challenges path = None"
  by (simp add: find_challenge_def strip_prefix_def)

interpretation cs: challenge_responder "challenge_handler api" for api :: "'h header_api"
  by unfold_locales
    (auto simp: challenge_handler_def find_challenge_Some make_response_def not_found_def
      split: option.splits)

interpretation rd: challenge_responder "redirect_handler api https_port" for api :: "'h header_api" and https_port
  by unfold_locales
    (auto simp: redirect_handler_def find_challenge_Some make_response_def
      split: option.splits if_splits)

subsection \<open>The redirect\<close>

lemma visible_split_head [simp]: "visible_ascii h \<Longrightarrow> visible_ascii (split_head c h)"
  unfolding visible_ascii_def split_head_def list_all_iff by (auto dest: set_takeWhileD)

text \<open>The host a request names, up to the first colon.\<close>

lemma redirect_host_given:
  assumes "header_laws api" "hm_get_all api (req_headers req) ''host'' = h # hs" "visible_ascii h"
  shows "redirect_host api req = split_head (CHR '':'') h"
  using assms by (simp add: redirect_host_def hm_get_def hv_to_str_visible)

lemma redirect_host_missing:
  "hm_get_all api (req_headers req) ''host'' = [] \<Longrightarrow> redirect_host api req = []"
  by (simp add: redirect_host_def hm_get_def)

lemma visible_https [simp]: "visible_ascii ''https://''"
  by (simp add: visible_ascii_Cons)

subsection \<open>Properties\<close>

text \<open>
  While provisioning polls the order, both servers answer a request for the token of each
  authorization's HTTP-01 challenge with its key authorization, when the authority's tokens differ;
  and they answer nothing once the map is empty.
\<close>
theorem challenges_are_answered:
  assumes "collect_challenges acme ord auths m [] = Ok (served, urls)"
    and "map http01_challenge auths = map Ok cs" "distinct (map ch_token cs)" "c \<in> set cs"
    and "uri_path (req_uri req) = challenge_prefix @ ch_token c"
  shows "(\<exists>resp. challenge_handler api served req = Returned resp \<and> resp_status resp = 200 \<and>
            resp_body resp = acme_key_authorization acme ord c) \<and>
         (\<exists>resp. redirect_handler api https_port served req = Returned resp \<and> resp_status resp = 200 \<and>
            resp_body resp = acme_key_authorization acme ord c) \<and>
         (\<forall>resp. redirect_handler api https_port Map.empty req = Returned resp \<longrightarrow> resp_status resp \<noteq> 200)"
proof -
  from assms(1) obtain cs' where "map http01_challenge auths = map Ok cs'"
    and served: "served = m ++ map_of (rev (served_keys acme ord cs'))"
    unfolding collect_challenges_Ok by blast
  with assms(2) have "cs' = cs" by (metis inj_map_eq_map inj_Inr)
  moreover have "distinct (map fst (served_keys acme ord cs))"
    using assms(3) by (simp add: served_keys_def comp_def)
  moreover have "(ch_token c, acme_key_authorization acme ord c) \<in> set (served_keys acme ord cs)"
    using assms(4) by (auto simp: served_keys_def)
  ultimately show ?thesis
    using cs.serves_all [of "served_keys acme ord cs" "ch_token c" "acme_key_authorization acme ord c" req api m]
      rd.serves_all [of "served_keys acme ord cs" "ch_token c" "acme_key_authorization acme ord c" req api https_port m]
      rd.serves_nothing [of api https_port req] assms(5) served by blast
qed

definition example_redirect :: "string \<Rightarrow> string \<Rightarrow> ((string \<times> string) list, string) request" where
  "example_redirect host path = \<lparr>req_method = ''GET'', req_uri = \<lparr>uri_path = path, uri_text = path @ ''?q=1''\<rparr>,
     req_headers = [(''host'', host)], req_body = []\<rparr>"

theorem challenges_are_answered_witness:
  "\<exists>resp. redirect_handler list_headers 443 [''tok'' \<mapsto> ''tok.thumbprint'']
       (example_redirect ''a'' ''/.well-known/acme-challenge/tok'') = Returned resp \<and>
     resp_status resp = 200 \<and> resp_body resp = ''tok.thumbprint''"
proof -
  let ?c = "example_challenges ! 1"
  have pre: "collect_challenges (example_acme True) () [example_challenges] Map.empty [] =
      Ok ([''tok'' \<mapsto> ''tok.thumbprint''], [''https://ca/c/2''])"
    by (simp add: http01_challenge_def example_acme_def example_challenges_def)
  have chosen: "map http01_challenge [example_challenges] = map Ok [?c]" "distinct (map ch_token [?c])" "?c \<in> set [?c]"
    by (simp_all add: http01_challenge_def example_challenges_def)
  have "uri_path (req_uri (example_redirect ''a'' ''/.well-known/acme-challenge/tok'')) = challenge_prefix @ ch_token ?c"
    by (simp add: example_redirect_def challenge_prefix_def example_challenges_def)
  from challenges_are_answered [OF pre chosen this, of list_headers 443] show ?thesis
    by (simp add: example_acme_def example_challenges_def)
qed

text \<open>
  C37: every request for another path is redirected with status 301 to \<open>https\<close> on the host of its first
  \<open>Host\<close> header up to the first colon, the port left out when it is 443, and the request's URI; it
  does not panic when that header and the URI are visible ASCII.
\<close>
theorem redirect_location_exact:
  assumes "header_laws api" "\<not> starts_with challenge_prefix (uri_path (req_uri req))"
    and "hm_get_all api (req_headers req) ''host'' = h # hs" "visible_ascii h" "visible_ascii (uri_text (req_uri req))"
  shows "\<exists>resp. redirect_handler api https_port challenges req = Returned resp \<and> resp_status resp = 301 \<and>
     hm_get_all api (resp_headers resp) ''location'' =
       [''https://'' @ split_head (CHR '':'') h @
        (if https_port = 443 then [] else '':'' @ dec (unat https_port)) @ uri_text (req_uri req)]"
proof -
  let ?loc = "''https://'' @ split_head (CHR '':'') h @
    (if https_port = 443 then [] else '':'' @ dec (unat https_port)) @ uri_text (req_uri req)"
  have "redirect_location api https_port req = ?loc"
    using redirect_host_given [OF assms(1,3,4)] by (simp add: redirect_location_def)
  moreover have "visible_ascii ?loc"
    using assms(4,5) by (simp only: visible_ascii_append visible_https visible_split_head) (simp add: visible_ascii_Cons)
  ultimately show ?thesis
    using assms(1) find_challenge_outside [OF assms(2)]
    by (simp add: redirect_handler_def hv_from_str_visible get_all_append get_all_empty)
qed

theorem redirect_location_exact_witness:
  "\<exists>resp. redirect_handler list_headers 8443 Map.empty (example_redirect ''example.com:80'' ''/a'') = Returned resp \<and>
     resp_status resp = 301 \<and>
     hm_get_all list_headers (resp_headers resp) ''location'' = [''https://example.com:8443/a?q=1'']"
proof -
  have "hm_get_all list_headers (req_headers (example_redirect ''example.com:80'' ''/a'')) ''host'' = [''example.com:80'']"
    "\<not> starts_with challenge_prefix (uri_path (req_uri (example_redirect ''example.com:80'' ''/a'')))"
    "visible_ascii ''example.com:80''" "visible_ascii (uri_text (req_uri (example_redirect ''example.com:80'' ''/a'')))"
    "''https://'' @ split_head (CHR '':'') ''example.com:80'' @ (if 8443 = (443 :: u16) then [] else '':'' @ dec (unat (8443 :: u16))) @
       uri_text (req_uri (example_redirect ''example.com:80'' ''/a'')) = ''https://example.com:8443/a?q=1''"
    by code_simp+
  with redirect_location_exact [OF list_headers_laws, of "example_redirect ''example.com:80'' ''/a''" _ _ 8443]
  show ?thesis by metis
qed

text \<open>
  For a client that names an IPv6 address, the host is cut at its first colon: the redirect goes to
  what is left of it.
\<close>
theorem redirect_cuts_ipv6_host:
  assumes "header_laws api" "\<not> starts_with challenge_prefix (uri_path (req_uri req))"
    and "hm_get_all api (req_headers req) ''host'' = [''[::1]'']" "visible_ascii (uri_text (req_uri req))"
  shows "\<exists>resp. redirect_handler api 443 challenges req = Returned resp \<and>
     hm_get_all api (resp_headers resp) ''location'' = [''https://['' @ uri_text (req_uri req)]"
proof -
  have "redirect_location api 443 req = ''https://['' @ uri_text (req_uri req)"
    using redirect_host_given [OF assms(1,3)] by (simp add: redirect_location_def split_head_def visible_ascii_Cons)
  moreover have "visible_ascii (''https://['' @ uri_text (req_uri req))"
    using assms(4) by (simp only: visible_ascii_append) (simp add: visible_ascii_Cons)
  ultimately show ?thesis
    using assms(1) find_challenge_outside [OF assms(2)]
    by (simp add: redirect_handler_def hv_from_str_visible get_all_append get_all_empty)
qed

theorem redirect_cuts_ipv6_host_witness:
  "\<exists>resp. redirect_handler list_headers 443 Map.empty (example_redirect ''[::1]'' ''/a'') = Returned resp \<and>
     hm_get_all list_headers (resp_headers resp) ''location'' =
       [''https://['' @ uri_text (req_uri (example_redirect ''[::1]'' ''/a''))]"
proof (rule redirect_cuts_ipv6_host [OF list_headers_laws])
  show "\<not> starts_with challenge_prefix (uri_path (req_uri (example_redirect ''[::1]'' ''/a'')))" by code_simp
  show "hm_get_all list_headers (req_headers (example_redirect ''[::1]'' ''/a'')) ''host'' = [''[::1]'']" by code_simp
  show "visible_ascii (uri_text (req_uri (example_redirect ''[::1]'' ''/a'')))" by code_simp
qed

end
