(* ===== verification/Reload.thy ===== *)
theory Reload
  imports App_State
begin

section \<open>Hot reload (\<open>src/server.rs\<close>, \<open>reload_loop\<close> and \<open>try_reload\<close>)\<close>

text \<open>
  The task that polls the configuration file's modification time and swaps the application state
  when the file is newer and loads. One turn of the loop is \<open>reload_tick\<close>; what it finds outside
  (the \<open>stat\<close> result, the files and their faults, the plugins' compiler) is a \<open>tick_env\<close>, fresh for
  every turn. The locale \<open>state_loader\<close> is the contract of whatever builds a new application state:
  its health flags are new cells, all \<open>true\<close>.
\<close>

subsection \<open>\<open>SystemTime\<close>\<close>

datatype system_time = SystemTime (st_secs: int) (st_nanos: nat)

instantiation system_time :: linorder
begin

fun less_eq_system_time :: "system_time \<Rightarrow> system_time \<Rightarrow> bool" where
  "less_eq_system_time (SystemTime s n) (SystemTime t m) \<longleftrightarrow> s < t \<or> (s = t \<and> n \<le> m)"

fun less_system_time :: "system_time \<Rightarrow> system_time \<Rightarrow> bool" where
  "less_system_time (SystemTime s n) (SystemTime t m) \<longleftrightarrow> s < t \<or> (s = t \<and> n < m)"

instance
proof
  fix x y z :: system_time
  show "(x < y) = (x \<le> y \<and> \<not> y \<le> x)" by (cases x; cases y) auto
  show "x \<le> x" by (cases x) auto
  show "x \<le> y \<Longrightarrow> y \<le> z \<Longrightarrow> x \<le> z" by (cases x; cases y; cases z) auto
  show "x \<le> y \<Longrightarrow> y \<le> x \<Longrightarrow> x = y" by (cases x; cases y) auto
  show "x \<le> y \<or> y \<le> x" by (cases x; cases y) auto
qed

end

definition unix_epoch :: system_time where
  "unix_epoch = SystemTime 0 0"

subsection \<open>One turn of the loop\<close>

datatype stat_result = StatFailed string | NoMtime string | Modified system_time

record ('m, 's) tick_env =
  te_stat :: stat_result
  te_faults :: faults
  te_files :: files
  te_wasm :: "('m, 's) wasm_api"

definition try_reload ::
  "toml \<Rightarrow> ('cert, 'key, 'srv, 'acc) tls_api \<Rightarrow> path \<Rightarrow> ('m, 's) tick_env \<Rightarrow> flag_heap \<Rightarrow>
   (proxy_error + ('m, 'acc) app_state) \<times> flag_heap" where
  "try_reload toml_from_str tapi config_path env hp =
     (case result_bind (config_from_file toml_from_str (te_faults env) (te_files env) config_path)
             (\<lambda>c. result_bind (validate c) (\<lambda>_. Ok c)) of
        Inl e \<Rightarrow> (Err e, hp)
      | Inr c \<Rightarrow> build_state (te_wasm env) tapi (te_faults env) (te_files env) c hp)"

text \<open>The state the task shares (the application state, the flag cells) and its own last mtime.\<close>

record ('m, 'acc) reload =
  rl_state :: "('m, 'acc) app_state"
  rl_heap :: flag_heap
  rl_last_mtime :: system_time

definition reload_tick ::
  "toml \<Rightarrow> ('cert, 'key, 'srv, 'acc) tls_api \<Rightarrow> path \<Rightarrow> ('m, 's) tick_env \<Rightarrow> ('m, 'acc) reload \<Rightarrow>
   ('m, 'acc) reload" where
  "reload_tick toml_from_str tapi config_path env s =
     (case te_stat env of
        StatFailed _ \<Rightarrow> s
      | NoMtime _ \<Rightarrow> s
      | Modified mtime \<Rightarrow>
          (if mtime \<le> rl_last_mtime s then s
           else
             (case try_reload toml_from_str tapi config_path env (rl_heap s) of
                (Inr st, hp) \<Rightarrow> s\<lparr>rl_state := st, rl_heap := hp, rl_last_mtime := mtime\<rparr>
              | (Inl _, hp) \<Rightarrow> s\<lparr>rl_heap := hp\<rparr>)))"

definition reload_loop ::
  "toml \<Rightarrow> ('cert, 'key, 'srv, 'acc) tls_api \<Rightarrow> path \<Rightarrow> ('m, 's) tick_env list \<Rightarrow> ('m, 'acc) reload \<Rightarrow>
   ('m, 'acc) reload" where
  "reload_loop toml_from_str tapi config_path envs s =
     fold (reload_tick toml_from_str tapi config_path) envs s"

subsection \<open>The contract of a state builder\<close>

text \<open>The cells a state's routes refer to.\<close>

definition cells :: "('m, 'acc) app_state \<Rightarrow> nat list" where
  "cells st = map rs_healthy (app_routes st)"

locale state_loader =
  fixes load :: "'e \<Rightarrow> flag_heap \<Rightarrow> (proxy_error + 'st) \<times> flag_heap"
    and state_cells :: "'st \<Rightarrow> nat list"
  assumes load_grows: "load e hp = (r, hp') \<Longrightarrow> \<exists>n. hp' = hp @ replicate n True"
    and load_cells: "load e hp = (Inr st, hp') \<Longrightarrow> a \<in> set (state_cells st) \<Longrightarrow>
      length hp \<le> a \<and> a < length hp'"
begin

lemma load_keeps: "load e hp = (r, hp') \<Longrightarrow> a < length hp \<Longrightarrow> flag_load hp' a = flag_load hp a"
  using load_grows by (fastforce simp: flag_load_def nth_append)

lemma load_length: "load e hp = (r, hp') \<Longrightarrow> length hp \<le> length hp'"
  using load_grows by fastforce

text \<open>All routes of a new state start healthy.\<close>

lemma load_healthy:
  assumes "load e hp = (Inr st, hp')" "a \<in> set (state_cells st)"
  shows "flag_load hp' a"
proof -
  from load_grows [OF assms(1)] obtain n where "hp' = hp @ replicate n True" by blast
  with load_cells [OF assms] show ?thesis by (auto simp: flag_load_def nth_append)
qed

text \<open>A task that was given cells of the old heap has none of the new state's.\<close>

lemma load_disjoint:
  assumes "load e hp = (Inr st, hp')" "\<forall>a \<in> A. a < length hp"
  shows "A \<inter> set (state_cells st) = {}"
  using load_cells [OF assms(1)] assms(2) by fastforce

end

lemma build_state_cells:
  assumes "build_state wasm tapi faults fs c hp = (Inr st, hp')" "a \<in> set (cells st)"
  shows "length hp \<le> a \<and> a < length hp'"
proof -
  from assms(2) obtain rs where "rs \<in> set (app_routes st)" "a = rs_healthy rs"
    by (auto simp: cells_def)
  with build_state_Ok [OF assms(1)] fresh_routes_healthy show ?thesis by blast
qed

interpretation bs: state_loader
  "\<lambda>(wasm, tapi, faults, fs, c). build_state wasm tapi faults fs c" cells
proof unfold_locales
  fix e :: "('m, 's) wasm_api \<times> ('cert, 'key, 'srv, 'acc) tls_api \<times> faults \<times> files \<times> config"
    and hp hp' :: flag_heap and r :: "proxy_error + ('m, 'acc) app_state"
  assume "(case e of (wasm, tapi, faults, fs, c) \<Rightarrow> build_state wasm tapi faults fs c) hp = (r, hp')"
  then show "\<exists>n. hp' = hp @ replicate n True"
    by (cases e) (auto dest: build_state_heap)
next
  fix e :: "('m, 's) wasm_api \<times> ('cert, 'key, 'srv, 'acc) tls_api \<times> faults \<times> files \<times> config"
    and hp hp' :: flag_heap and st :: "('m, 'acc) app_state" and a
  assume "(case e of (wasm, tapi, faults, fs, c) \<Rightarrow> build_state wasm tapi faults fs c) hp = (Inr st, hp')"
    "a \<in> set (cells st)"
  then show "length hp \<le> a \<and> a < length hp'"
    by (cases e) (auto dest: build_state_cells)
qed

lemma try_reload_Ok:
  "try_reload toml_from_str tapi config_path env hp = (Inr st, hp') \<Longrightarrow>
   \<exists>c. config_from_file toml_from_str (te_faults env) (te_files env) config_path = Inr c \<and> config_ok c \<and>
     build_state (te_wasm env) tapi (te_faults env) (te_files env) c hp = (Inr st, hp')"
  by (auto simp: try_reload_def result_simps validate_accepts split: sum.splits)

lemma try_reload_cases:
  "try_reload toml_from_str tapi config_path env hp = (r, hp') \<Longrightarrow>
   hp' = hp \<or> (\<exists>c. build_state (te_wasm env) tapi (te_faults env) (te_files env) c hp = (r, hp'))"
  by (auto simp: try_reload_def split: sum.splits)

interpretation tr: state_loader
  "\<lambda>(toml_from_str, tapi, config_path, env). try_reload toml_from_str tapi config_path env" cells
proof unfold_locales
  fix e :: "toml \<times> ('cert, 'key, 'srv, 'acc) tls_api \<times> path \<times> ('m, 's) tick_env"
    and hp hp' :: flag_heap and r :: "proxy_error + ('m, 'acc) app_state"
  assume "(case e of (toml_from_str, tapi, config_path, env) \<Rightarrow>
      try_reload toml_from_str tapi config_path env) hp = (r, hp')"
  then show "\<exists>n. hp' = hp @ replicate n True"
    by (cases e) (metis (no_types, lifting) append_Nil2 build_state_heap case_prod_conv replicate_0
        try_reload_cases)
next
  fix e :: "toml \<times> ('cert, 'key, 'srv, 'acc) tls_api \<times> path \<times> ('m, 's) tick_env"
    and hp hp' :: flag_heap and st :: "('m, 'acc) app_state" and a
  assume "(case e of (toml_from_str, tapi, config_path, env) \<Rightarrow>
      try_reload toml_from_str tapi config_path env) hp = (Inr st, hp')" "a \<in> set (cells st)"
  then show "length hp \<le> a \<and> a < length hp'"
    by (cases e) (auto dest!: try_reload_Ok dest: build_state_cells)
qed

subsection \<open>What a turn does\<close>

lemma reload_tick_cases:
  obtains (kept) "rl_state (reload_tick toml_from_str tapi config_path env s) = rl_state s"
      "rl_last_mtime (reload_tick toml_from_str tapi config_path env s) = rl_last_mtime s"
  | (swapped) mtime st hp where "te_stat env = Modified mtime" "rl_last_mtime s < mtime"
      "try_reload toml_from_str tapi config_path env (rl_heap s) = (Inr st, hp)"
      "reload_tick toml_from_str tapi config_path env s =
        s\<lparr>rl_state := st, rl_heap := hp, rl_last_mtime := mtime\<rparr>"
proof (cases "te_stat env")
  case (Modified mtime)
  obtain r hp where run: "try_reload toml_from_str tapi config_path env (rl_heap s) = (r, hp)"
    by force
  show ?thesis
  proof (cases "mtime \<le> rl_last_mtime s")
    case True
    with Modified kept show ?thesis by (simp add: reload_tick_def)
  next
    case newer: False
    show ?thesis
    proof (cases r)
      case (Inl e)
      with Modified run newer kept show ?thesis by (simp add: reload_tick_def)
    next
      case (Inr st)
      with Modified run newer swapped show ?thesis by (simp add: reload_tick_def)
    qed
  qed
qed (use kept in \<open>simp_all add: reload_tick_def\<close>)

text \<open>A failing load keeps the state and the time, so the next turn tries again.\<close>

lemma reload_tick_failed:
  assumes "fst (try_reload toml_from_str tapi config_path env (rl_heap s)) = Inl e"
  shows "rl_state (reload_tick toml_from_str tapi config_path env s) = rl_state s \<and>
         rl_last_mtime (reload_tick toml_from_str tapi config_path env s) = rl_last_mtime s"
  using assms by (auto simp: reload_tick_def split: stat_result.split prod.split sum.split)

lemma reload_tick_newer:
  assumes "te_stat env = Modified mtime" "rl_last_mtime s < mtime"
    and "try_reload toml_from_str tapi config_path env (rl_heap s) = (Inr st, hp)"
  shows "reload_tick toml_from_str tapi config_path env s =
    s\<lparr>rl_state := st, rl_heap := hp, rl_last_mtime := mtime\<rparr>"
  using assms by (simp add: reload_tick_def)

lemma reload_tick_mtime_mono:
  "rl_last_mtime s \<le> rl_last_mtime (reload_tick toml_from_str tapi config_path env s)"
  by (cases rule: reload_tick_cases [of toml_from_str tapi config_path env s]) auto

subsection \<open>The live state is always a validated one\<close>

definition serving_ok :: "('m, 'acc) app_state \<Rightarrow> bool" where
  "serving_ok st \<longleftrightarrow> routes_ok (map rs_route (app_routes st))"

lemma build_state_serving_ok:
  "config_ok c \<Longrightarrow> build_state wasm tapi faults fs c hp = (Inr st, hp') \<Longrightarrow> serving_ok st"
  using build_state_Ok by (fastforce simp: serving_ok_def config_ok_def)

lemma reload_tick_serving_ok:
  assumes "serving_ok (rl_state s)"
  shows "serving_ok (rl_state (reload_tick toml_from_str tapi config_path env s))"
proof (cases rule: reload_tick_cases [of toml_from_str tapi config_path env s])
  case kept
  with assms show ?thesis by simp
next
  case (swapped mtime st hp)
  with try_reload_Ok [OF swapped(3)] build_state_serving_ok show ?thesis by auto
qed

lemma reload_loop_serving_ok:
  "serving_ok (rl_state s) \<Longrightarrow> serving_ok (rl_state (reload_loop toml_from_str tapi config_path envs s))"
  by (induction envs arbitrary: s) (simp_all add: reload_loop_def reload_tick_serving_ok)

subsection \<open>Properties\<close>

text \<open>
  A turn whose load fails, for whatever reason, keeps the application state, every health flag it
  can see and the recorded time, so that the next turn tries again.
\<close>
theorem failed_reload_keeps_serving:
  assumes "fst (try_reload toml_from_str tapi config_path env (rl_heap s)) = Err e"
  shows "rl_state (reload_tick toml_from_str tapi config_path env s) = rl_state s \<and>
    rl_last_mtime (reload_tick toml_from_str tapi config_path env s) = rl_last_mtime s \<and>
    (\<forall>a < length (rl_heap s).
       flag_load (rl_heap (reload_tick toml_from_str tapi config_path env s)) a = flag_load (rl_heap s) a)"
proof -
  obtain hp where run: "try_reload toml_from_str tapi config_path env (rl_heap s) = (Err e, hp)"
    using assms by (cases "try_reload toml_from_str tapi config_path env (rl_heap s)") auto
  from run have "rl_heap (reload_tick toml_from_str tapi config_path env s) \<in> {rl_heap s, hp}"
    by (auto simp: reload_tick_def split: stat_result.split)
  with tr.load_keeps [of "(toml_from_str, tapi, config_path, env)" "rl_heap s" "Err e" hp] run
    reload_tick_failed [OF assms] show ?thesis by auto
qed

text \<open>
  A turn that finds the file newer and its configuration valid and buildable swaps in the state
  built from it, with the file's routes, all marked healthy, and records the time.
\<close>
theorem newer_config_takes_over:
  assumes "te_stat env = Modified mtime" "rl_last_mtime s < mtime"
    and "config_from_file toml_from_str (te_faults env) (te_files env) config_path = Ok c" "validate c = Ok ()"
    and "build_state (te_wasm env) tapi (te_faults env) (te_files env) c (rl_heap s) = (Ok st, hp)"
  shows "reload_tick toml_from_str tapi config_path env s =
      s\<lparr>rl_state := st, rl_heap := hp, rl_last_mtime := mtime\<rparr> \<and>
    map rs_route (app_routes st) = routes c \<and>
    (\<forall>rs \<in> set (app_routes st). flag_load hp (rs_healthy rs))"
proof -
  have load: "try_reload toml_from_str tapi config_path env (rl_heap s) = (Ok st, hp)"
    using assms(3-5) by (simp add: try_reload_def)
  from reload_tick_newer [OF assms(1,2) this] build_state_Ok [OF assms(5)]
    bs.load_healthy [of "(te_wasm env, tapi, te_faults env, te_files env, c)" "rl_heap s" st hp] assms(5)
  show ?thesis by (auto simp: cells_def)
qed

text \<open>
  C12: a turn of the reload loop keeps or replaces: a load that fails, for whatever reason, keeps the
  application state, every health flag it can see and the recorded time, so that the next turn tries
  again; a newer file with a valid and buildable configuration is swapped in, with the file's routes,
  all marked healthy, and its time is recorded.
\<close>
theorem reload_turn_keeps_or_replaces:
  "(\<forall>e. fst (try_reload toml_from_str tapi config_path env (rl_heap s)) = Err e \<longrightarrow>
      rl_state (reload_tick toml_from_str tapi config_path env s) = rl_state s \<and>
      rl_last_mtime (reload_tick toml_from_str tapi config_path env s) = rl_last_mtime s \<and>
      (\<forall>a < length (rl_heap s).
         flag_load (rl_heap (reload_tick toml_from_str tapi config_path env s)) a = flag_load (rl_heap s) a)) \<and>
   (\<forall>mtime c st hp. te_stat env = Modified mtime \<and> rl_last_mtime s < mtime \<and>
      config_from_file toml_from_str (te_faults env) (te_files env) config_path = Ok c \<and> validate c = Ok () \<and>
      build_state (te_wasm env) tapi (te_faults env) (te_files env) c (rl_heap s) = (Ok st, hp) \<longrightarrow>
      reload_tick toml_from_str tapi config_path env s = s\<lparr>rl_state := st, rl_heap := hp, rl_last_mtime := mtime\<rparr> \<and>
      map rs_route (app_routes st) = routes c \<and> (\<forall>rs \<in> set (app_routes st). flag_load hp (rs_healthy rs)))"
proof -
  note kept = failed_reload_keeps_serving [of toml_from_str tapi config_path env s]
    and replaced = newer_config_takes_over [of env _ s toml_from_str config_path _ tapi]
  show ?thesis by (rule conjI; intro allI impI; (elim conjE)?; (drule kept | drule (4) replaced); blast)
qed

subsection \<open>Examples\<close>

definition example_raw :: "string list \<Rightarrow> raw_config" where
  "example_raw paths =
     \<lparr>raw_server_table = \<lparr>raw_listen = ''127.0.0.1:8080'', raw_max_idle_connections = None,
        raw_timeout_ms = None, raw_http_challenge_listen = None\<rparr>,
      raw_routes = Some (map (\<lambda>p. \<lparr>raw_path_prefix = p, raw_upstream = ''10.0.0.1:80'', raw_plugins = None\<rparr>) paths),
      raw_tls_table = None\<rparr>"

definition example_toml :: toml where
  "example_toml text =
     (if text = ''two routes'' then Ok (example_raw [''/a'', ''/b''])
      else if text = ''same route twice'' then Ok (example_raw [''/a'', ''/a''])
      else Err ''expected a table'')"

definition example_tick :: "string \<Rightarrow> (example_module, example_instance) tick_env" where
  "example_tick text =
     \<lparr>te_stat = Modified (SystemTime 100 5), te_faults = Map.empty, te_files = [''proxy.toml'' \<mapsto> text],
      te_wasm = example_wasm\<rparr>"

definition example_reload :: "(example_module, string) reload" where
  "example_reload = \<lparr>rl_state = example_state, rl_heap = [False, True, True], rl_last_mtime = SystemTime 100 0\<rparr>"

definition example_two :: config where
  "example_two = config_of_raw (example_raw [''/a'', ''/b''])"

definition example_built :: "(proxy_error + (example_module, string) app_state) \<times> flag_heap" where
  "example_built = build_state example_wasm example_tls Map.empty [''proxy.toml'' \<mapsto> ''two routes'']
     example_two [False, True, True]"

lemma example_built: "example_built = (Ok (projr (fst example_built)), [False, True, True, True, True])"
proof -
  have "is_ok (fst example_built)" "snd example_built = [False, True, True, True, True]" by code_simp+
  then show ?thesis by (rule is_ok_projr)
qed

lemma example_fails:
  "\<exists>e. fst (try_reload example_toml example_tls ''proxy.toml'' (example_tick ''same route twice'') (rl_heap example_reload)) = Err e"
proof -
  let ?load = "try_reload example_toml example_tls ''proxy.toml'' (example_tick ''same route twice'') (rl_heap example_reload)"
  have "\<not> is_ok (fst ?load)" by code_simp
  then show ?thesis by (cases "fst ?load") auto
qed

lemma example_newer:
  "te_stat (example_tick ''two routes'') = Modified (SystemTime 100 5)"
  "rl_last_mtime example_reload < SystemTime 100 5" "validate example_two = Ok ()"
  "config_from_file example_toml (te_faults (example_tick ''two routes''))
     (te_files (example_tick ''two routes'')) ''proxy.toml'' = Ok example_two"
  "map path_prefix (routes example_two) = [''/a'', ''/b'']"
  by code_simp+

lemma example_builds:
  "build_state (te_wasm (example_tick ''two routes'')) example_tls (te_faults (example_tick ''two routes''))
      (te_files (example_tick ''two routes'')) example_two (rl_heap example_reload) =
      (Ok (projr (fst example_built)), [False, True, True, True, True])"
  using example_built by (simp add: example_built_def example_tick_def example_reload_def)

theorem reload_turn_keeps_or_replaces_witness:
  "rl_state (reload_tick example_toml example_tls ''proxy.toml'' (example_tick ''same route twice'') example_reload) =
     example_state \<and>
   map (path_prefix \<circ> rs_route) (app_routes (rl_state
     (reload_tick example_toml example_tls ''proxy.toml'' (example_tick ''two routes'') example_reload))) =
   [''/a'', ''/b'']"
proof
  obtain e where "fst (try_reload example_toml example_tls ''proxy.toml'' (example_tick ''same route twice'') (rl_heap example_reload)) = Err e"
    using example_fails by blast
  with reload_turn_keeps_or_replaces show "rl_state (reload_tick example_toml example_tls ''proxy.toml''
      (example_tick ''same route twice'') example_reload) = example_state"
    by (metis (no_types, lifting) example_reload_def reload.select_convs(1))
  have "reload_tick example_toml example_tls ''proxy.toml'' (example_tick ''two routes'') example_reload =
      example_reload\<lparr>rl_state := projr (fst example_built), rl_heap := [False, True, True, True, True],
        rl_last_mtime := SystemTime 100 5\<rparr> \<and> map rs_route (app_routes (projr (fst example_built))) = routes example_two"
    using reload_turn_keeps_or_replaces [of example_toml example_tls "''proxy.toml''" "example_tick ''two routes''" example_reload]
      example_newer(1-4) example_builds by blast
  with example_newer(5) show "map (path_prefix \<circ> rs_route) (app_routes (rl_state
     (reload_tick example_toml example_tls ''proxy.toml'' (example_tick ''two routes'') example_reload))) =
   [''/a'', ''/b'']" by (simp flip: map_map)
qed

end
