(* ===== verification/Renewal.thy ===== *)
theory Renewal
  imports Provisioning Reload
begin

section \<open>The renewal loop (\<open>src/acme.rs\<close>, \<open>renewal_loop\<close>)\<close>

text \<open>
  One turn of the daily task: read the configuration, and when the certificate is due provision a
  new one and swap in a state built from the configuration just read. The task shares the
  application state and its flags with the rest of the server, and the files and the challenge store
  with provisioning: \<open>node\<close>. A turn is \<open>None\<close> when provisioning has not returned within its fuel.
\<close>

subsection \<open>One turn\<close>

record ('w, 'm, 'acc) node =
  nd_state :: "('m, 'acc) app_state"
  nd_heap :: flag_heap
  nd_prov :: "'w prov"

text \<open>
  The provisioning a turn uses: with the store of the redirect server when there is one, otherwise on
  the configured address; \<open>None\<close> when that is missing.
\<close>

definition renewal_action ::
  "('w, 'acct, 'ord, 'par, 'kp, 'csr) acme_api \<Rightarrow> faults \<Rightarrow> nat \<Rightarrow> bool \<Rightarrow> config \<Rightarrow> tls_config \<Rightarrow>
   ('w, string \<times> string) act option" where
  "renewal_action api faults fuel has_store c tc =
     (if has_store then Some (provision_with_store api faults fuel tc)
      else map_option (provision api faults fuel tc) (http_challenge_listen (server c)))"

definition renewal_tick ::
  "toml \<Rightarrow> ('m, 's) wasm_api \<Rightarrow> ('cert, 'key, 'srv, 'acc) tls_api \<Rightarrow>
   ('w, 'acct, 'ord, 'par, 'kp, 'csr) acme_api \<Rightarrow> faults \<Rightarrow> nat \<Rightarrow> bool \<Rightarrow> path \<Rightarrow>
   ('w, 'm, 'acc) node \<Rightarrow> ('w, 'm, 'acc) node option" where
  "renewal_tick toml_from_str wasm tapi api faults fuel has_store config_path nd =
     (case config_from_file toml_from_str faults (pv_files (nd_prov nd)) config_path of
        Inl _ \<Rightarrow> Some nd
      | Inr c \<Rightarrow>
          (case tls c of
             None \<Rightarrow> Some nd
           | Some tc \<Rightarrow>
               (if \<not> cert_needs_renewal faults (pv_files (nd_prov nd)) (acme_unix_now api (pv_world (nd_prov nd)))
                       (cache_dir tc)
                then Some nd
                else
                  (case renewal_action api faults fuel has_store c tc of
                     None \<Rightarrow> Some nd
                   | Some prov \<Rightarrow>
                       (case prov (nd_prov nd) of
                          None \<Rightarrow> None
                        | Some (Inl _, pv1) \<Rightarrow> Some (nd\<lparr>nd_prov := pv1\<rparr>)
                        | Some (Inr _, pv1) \<Rightarrow>
                            (case build_state wasm tapi faults (pv_files pv1) c (nd_heap nd) of
                               (Inl _, hp) \<Rightarrow> Some (nd\<lparr>nd_heap := hp, nd_prov := pv1\<rparr>)
                             | (Inr st, hp) \<Rightarrow> Some \<lparr>nd_state = st, nd_heap = hp, nd_prov = pv1\<rparr>))))))"

subsection \<open>What a turn does\<close>

text \<open>When a certificate is due for a configuration.\<close>

definition renewal_due ::
  "('w, 'acct, 'ord, 'par, 'kp, 'csr) acme_api \<Rightarrow> faults \<Rightarrow> 'w prov \<Rightarrow> tls_config \<Rightarrow> bool" where
  "renewal_due api faults pv tc =
     cert_needs_renewal faults (pv_files pv) (acme_unix_now api (pv_world pv)) (cache_dir tc)"

text \<open>The provisioning of a turn, whichever it is, meets the contract.\<close>

lemma renewal_action_provisioner:
  assumes "renewal_action api faults fuel has_store c tc = Some prov"
  shows "provisioner prov pv_files (\<lambda>s. acme_unix_now api (pv_world s)) faults (cache_dir tc)"
  using assms pv.provisioner_axioms [of api faults fuel tc] ps.provisioner_axioms [of api faults fuel tc]
  by (auto simp: renewal_action_def split: if_splits)

lemma renewal_tick_cases:
  assumes "renewal_tick toml_from_str wasm tapi api faults fuel has_store config_path nd = Some nd'"
  obtains (idle) "nd' = nd"
  | (failed) c tc prov e where
      "config_from_file toml_from_str faults (pv_files (nd_prov nd)) config_path = Ok c" "tls c = Some tc"
      "renewal_due api faults (nd_prov nd) tc" "renewal_action api faults fuel has_store c tc = Some prov"
      "prov (nd_prov nd) = Some (Err e, nd_prov nd')"
      "nd_state nd' = nd_state nd" "nd_heap nd' = nd_heap nd"
  | (provisioned) c tc prov ck r where
      "config_from_file toml_from_str faults (pv_files (nd_prov nd)) config_path = Ok c" "tls c = Some tc"
      "renewal_due api faults (nd_prov nd) tc" "renewal_action api faults fuel has_store c tc = Some prov"
      "prov (nd_prov nd) = Some (Ok ck, nd_prov nd')"
      "build_state wasm tapi faults (pv_files (nd_prov nd')) c (nd_heap nd) = (r, nd_heap nd')"
      "nd_state nd' = (case r of Inl _ \<Rightarrow> nd_state nd | Inr st \<Rightarrow> st)"
proof (cases "config_from_file toml_from_str faults (pv_files (nd_prov nd)) config_path")
  case (Inl e)
  with assms idle show ?thesis by (simp add: renewal_tick_def)
next
  case config: (Inr c)
  show ?thesis
  proof (cases "\<exists>tc. tls c = Some tc \<and> renewal_due api faults (nd_prov nd) tc \<and>
      renewal_action api faults fuel has_store c tc \<noteq> None")
    case False
    with assms config idle show ?thesis
      by (auto simp: renewal_tick_def renewal_due_def split: option.splits if_splits)
  next
    case True
    then obtain tc prov where tc: "tls c = Some tc" "renewal_due api faults (nd_prov nd) tc"
      "renewal_action api faults fuel has_store c tc = Some prov" by blast
    from assms config tc obtain q pv1 where run: "prov (nd_prov nd) = Some (q, pv1)"
      by (auto simp: renewal_tick_def renewal_due_def split: option.splits)
    show ?thesis
    proof (cases q)
      case (Inl e)
      with assms config tc run have "nd' = nd\<lparr>nd_prov := pv1\<rparr>"
        by (simp add: renewal_tick_def renewal_due_def)
      with failed [OF config tc] run Inl show ?thesis by simp
    next
      case (Inr ck)
      obtain r hp where built: "build_state wasm tapi faults (pv_files pv1) c (nd_heap nd) = (r, hp)" by force
      with assms config tc run Inr
      have "nd_prov nd' = pv1" "nd_heap nd' = hp" "nd_state nd' = (case r of Inl _ \<Rightarrow> nd_state nd | Inr st \<Rightarrow> st)"
        by (auto simp: renewal_tick_def renewal_due_def split: sum.splits)
      with provisioned [OF config tc] run Inr built show ?thesis by simp
    qed
  qed
qed

text \<open>
  The pair a provisioning that succeeds returns is the authority's: the chain it delivered for an order
  finalised with a request for the configured domains, and the private key that request was made with.
\<close>

definition issued_pair ::
  "('w, 'acct, 'ord, 'par, 'kp, 'csr) acme_api \<Rightarrow> tls_config \<Rightarrow> string \<Rightarrow> string \<Rightarrow> bool" where
  "issued_pair api tc cert key \<longleftrightarrow>
     (\<exists>ord par kp csr w1 w2 w3.
        rcgen_params api (domains tc) = Ok par \<and> fst (rcgen_key api w1) = Ok kp \<and> rcgen_csr api par kp = Ok csr \<and>
        fst (acme_finalize api ord csr w2) = Ok () \<and> fst (acme_certificate api ord w3) = Ok (Some cert) \<and>
        key = rcgen_key_pem api kp)"

lemma on_world_Ok:
  "on_world f msg s = Some (Inr x, s') \<Longrightarrow> fst (f (pv_world s)) = Ok x"
  by (auto simp: on_world_def result_simps split: prod.splits)

lemma lift_result_Ok:
  "lift_result r msg s = Some (Inr x, s') \<Longrightarrow> r = Ok x"
  by (cases r) (auto simp: lift_result_def act_simps)

lemma request_cert_Ok:
  assumes "request_cert api tc ord s = Some (Inr kp, s')"
  obtains par csr w1 w2 where "rcgen_params api (domains tc) = Ok par" "fst (rcgen_key api w1) = Ok kp"
    "rcgen_csr api par kp = Ok csr" "fst (acme_finalize api ord csr w2) = Ok ()"
  using assms that unfolding request_cert_def
  by (auto simp: act_simps dest!: on_world_Ok lift_result_Ok)

lemma download_cert_Ok:
  "download_cert api ord fuel s = Some (Inr cert, s') \<Longrightarrow> \<exists>w. fst (acme_certificate api ord w) = Ok (Some cert)"
proof (induction fuel arbitrary: s)
  case (Suc fuel)
  then show ?case by (auto simp: act_simps split: option.splits dest!: on_world_Ok)
qed simp

lemma download_cert_until_Ok:
  "download_cert_until api ord deadline fuel s = Some (Inr cert, s') \<Longrightarrow>
   \<exists>w. fst (acme_certificate api ord w) = Ok (Some cert)"
proof (induction fuel arbitrary: s)
  case (Suc fuel)
  then show ?case by (auto simp: act_simps split: option.splits if_splits dest!: on_world_Ok)
qed simp

lemma order_issues:
  "order_with_server api fuel tc listen_addr s = Some (Inr (cert, key), s') \<Longrightarrow> issued_pair api tc cert key"
  "order_with_store api fuel tc s = Some (Inr (cert, key), s') \<Longrightarrow> issued_pair api tc cert key"
  unfolding order_with_server_def order_with_store_def wait_cert_def
  by (auto simp: act_simps issued_pair_def split: prod.splits elim!: request_cert_Ok
      dest!: download_cert_Ok download_cert_until_Ok) blast+

lemma inner_issues:
  "provision_inner api faults fuel tc listen_addr s = Some (Inr (cert, key), s') \<Longrightarrow> issued_pair api tc cert key"
  "provision_inner_with_store api faults fuel tc s = Some (Inr (cert, key), s') \<Longrightarrow> issued_pair api tc cert key"
  unfolding provision_inner_def provision_inner_with_store_def dropping_server_def
  by (auto simp: act_simps split: prod.splits dest: order_issues)

lemma renewal_action_issues:
  assumes "renewal_action api faults fuel has_store c tc = Some prov" "prov s = Some (Ok (cert, key), s')"
  shows "issued_pair api tc cert key"
proof -
  from assms obtain l where "provision_with_store api faults fuel tc s = Some (Ok (cert, key), s') \<or>
      provision api faults fuel tc l s = Some (Ok (cert, key), s')"
    by (auto simp: renewal_action_def split: if_splits)
  then show ?thesis
    unfolding provision_with_store_def provision_def by (elim disjE with_lock_cases) (auto dest: inner_issues)
qed

subsection \<open>Properties\<close>

text \<open>
  C16: a turn either leaves the live state alone or has read a configuration with TLS whose certificate
  was due, got a pair for it from the authority (\<open>issued_pair\<close>), put that pair on disk, and swapped in
  the state built from that configuration; and if the files of the cache can be examined, this state
  serves TLS with that pair.
\<close>
theorem renewal_swaps_in_new_pair:
  assumes "renewal_tick toml_from_str wasm tapi api faults fuel has_store config_path nd = Some nd'"
    and "nd_state nd' \<noteq> nd_state nd" "\<And>p. faults (FsStat p) = None"
  shows "\<exists>c tc prov cert key ts.
     config_from_file toml_from_str faults (pv_files (nd_prov nd)) config_path = Ok c \<and> tls c = Some tc \<and>
     cert_needs_renewal faults (pv_files (nd_prov nd)) (acme_unix_now api (pv_world (nd_prov nd))) (cache_dir tc) \<and>
     renewal_action api faults fuel has_store c tc = Some prov \<and>
     prov (nd_prov nd) = Some (Ok (cert, key), nd_prov nd') \<and> issued_pair api tc cert key \<and>
     pv_files (nd_prov nd') (cert_pem_path (cache_dir tc)) = Some cert \<and>
     pv_files (nd_prov nd') (key_pem_path (cache_dir tc)) = Some key \<and>
     build_tls_state tapi tc cert key = Ok ts \<and> app_tls (nd_state nd') = Some ts \<and>
     map rs_route (app_routes (nd_state nd')) = routes c \<and> app_timeout_ms (nd_state nd') = timeout_ms (server c)"
  using assms(1)
proof (cases rule: renewal_tick_cases)
  case (provisioned c tc prov ck r)
  with assms(2) obtain st where st: "r = Ok st" "nd_state nd' = st" by (cases r) auto
  obtain cert key where ck: "ck = (cert, key)" by (cases ck)
  from provisioned(5) have run: "prov (nd_prov nd) = Some (Ok (cert, key), nd_prov nd')" by (simp only: ck)
  from provisioner.success [OF renewal_action_provisioner [OF provisioned(4)] run]
  have pair: "pv_files (nd_prov nd') (cert_pem_path (cache_dir tc)) = Some cert"
    "pv_files (nd_prov nd') (key_pem_path (cache_dir tc)) = Some key" by blast+
  note built = build_state_Ok [OF provisioned(6) [unfolded st(1)]]
  then have tls_built: "build_tls tapi faults (pv_files (nd_prov nd')) (Some tc) = Ok (app_tls st)"
    using provisioned(2) by simp
  have "app_tls st \<noteq> None"
    using build_tls_absent [of tapi faults "pv_files (nd_prov nd')" "Some tc"] tls_built assms(3) pair
    by (auto simp: fs_exists_def cert_files)
  then obtain ts where ts: "app_tls st = Some ts" by blast
  with build_tls_present [of tapi faults "pv_files (nd_prov nd')" tc ts] tls_built pair
  have "build_tls_state tapi tc cert key = Ok ts" by (auto simp: cert_files)
  with ts pair run built provisioned(1-4) st(2) renewal_action_issues [OF provisioned(4) run] show ?thesis
    unfolding renewal_due_def
    by (intro exI [of _ c] exI [of _ tc] exI [of _ prov] exI [of _ cert] exI [of _ key] exI [of _ ts] conjI) simp_all
qed (use assms(2) in simp_all)

text \<open>
  A turn that does not provision, or whose provisioning fails, keeps the live state and its flags;
  and without a fault in the last rename or in writing the issue time, the pair on disk too.
\<close>
theorem failed_renewal_keeps_serving:
  assumes "renewal_tick toml_from_str wasm tapi api faults fuel has_store config_path nd = Some nd'"
    and "\<forall>prov ck pv1. renewal_action api faults fuel has_store c tc = Some prov \<longrightarrow> prov (nd_prov nd) \<noteq> Some (Ok ck, pv1)"
    and "config_from_file toml_from_str faults (pv_files (nd_prov nd)) config_path = Ok c" "tls c = Some tc"
    and "\<not> late_fault faults (cache_dir tc)"
  shows "nd_state nd' = nd_state nd \<and> nd_heap nd' = nd_heap nd \<and>
     pv_files (nd_prov nd') (cert_pem_path (cache_dir tc)) = pv_files (nd_prov nd) (cert_pem_path (cache_dir tc)) \<and>
     pv_files (nd_prov nd') (key_pem_path (cache_dir tc)) = pv_files (nd_prov nd) (key_pem_path (cache_dir tc))"
  using assms(1)
proof (cases rule: renewal_tick_cases)
  case (failed c' tc' prov e)
  with assms(3,4) have same: "c' = c" "tc' = tc" by simp_all
  from provisioner.failure [OF renewal_action_provisioner [OF failed(4)] failed(5)] assms(5) failed same
  show ?thesis by simp
next
  case (provisioned c' tc' prov ck r)
  with assms(2-4) have False by (cases ck) simp
  then show ?thesis ..
qed simp

text \<open>
  A renewal swaps in the routes of whatever configuration it read, valid or not: unlike the reload
  loop it does not validate.
\<close>
theorem renewal_skips_validation:
  assumes "config_from_file toml_from_str faults (pv_files (nd_prov nd)) config_path = Ok c" "tls c = Some tc"
    and "renewal_due api faults (nd_prov nd) tc" "renewal_action api faults fuel has_store c tc = Some prov"
    and "prov (nd_prov nd) = Some (Ok ck, pv1)"
    and "build_state wasm tapi faults (pv_files pv1) c (nd_heap nd) = (Ok st, hp)"
    and "\<not> config_ok c"
  shows "\<exists>nd'. renewal_tick toml_from_str wasm tapi api faults fuel has_store config_path nd = Some nd' \<and>
     map rs_route (app_routes (nd_state nd')) = routes c \<and> validate c \<noteq> Ok ()"
  using assms build_state_Ok [OF assms(6)]
  by (simp add: renewal_tick_def renewal_due_def validate_accepts)

subsection \<open>Examples\<close>

definition example_raw_tls :: "string list \<Rightarrow> raw_config" where
  "example_raw_tls paths = (example_raw paths)\<lparr>raw_tls_table :=
     Some \<lparr>raw_acme_email = ''ops@example.com'', raw_acme_directory = None, raw_cache_dir = ''certs'',
           raw_domains = [''example.com'']\<rparr>\<rparr>"

definition example_toml_tls :: toml where
  "example_toml_tls text =
     (if text = ''two routes'' then Ok (example_raw_tls [''/a'', ''/b''])
      else if text = ''same route twice'' then Ok (example_raw_tls [''/a'', ''/a''])
      else Err ''expected a table'')"

definition example_node :: "string \<Rightarrow> (nat, example_module, string) node" where
  "example_node text =
     \<lparr>nd_state = example_state, nd_heap = [False, True, True],
      nd_prov = example_prov\<lparr>pv_files := example_files(''proxy.toml'' \<mapsto> text)\<rparr>\<rparr>"

definition example_renewal :: "bool \<Rightarrow> string \<Rightarrow> (nat, example_module, string) node option" where
  "example_renewal delivers text =
     renewal_tick example_toml_tls example_wasm example_tls (example_acme delivers) Map.empty 41 True ''proxy.toml''
       (example_node text)"

lemma example_renewal_some:
  "example_renewal True ''two routes'' = Some (the (example_renewal True ''two routes''))"
  "example_renewal False ''two routes'' = Some (the (example_renewal False ''two routes''))"
proof -
  have "\<not> Option.is_none (example_renewal True ''two routes'')" by code_simp
  then show "example_renewal True ''two routes'' = Some (the (example_renewal True ''two routes''))"
    by (simp add: Option.is_none_def)
  have "\<not> Option.is_none (example_renewal False ''two routes'')" by code_simp
  then show "example_renewal False ''two routes'' = Some (the (example_renewal False ''two routes''))"
    by (simp add: Option.is_none_def)
qed

theorem renewal_swaps_in_new_pair_witness:
  "\<exists>tc cert key ts. issued_pair (example_acme True) tc cert key \<and>
     build_tls_state example_tls tc cert key = Ok ts \<and>
     app_tls (nd_state (the (example_renewal True ''two routes''))) = Some ts"
proof -
  have "map (path_prefix \<circ> rs_route) (app_routes (nd_state (the (example_renewal True ''two routes'')))) =
      [''/a'', ''/b'']"
    "map (path_prefix \<circ> rs_route) (app_routes (nd_state (example_node ''two routes''))) = [''/admin'', ''/'']"
    by code_simp+
  then have "nd_state (the (example_renewal True ''two routes'')) \<noteq> nd_state (example_node ''two routes'')" by auto
  from renewal_swaps_in_new_pair [OF example_renewal_some(1) [unfolded example_renewal_def]
      this [unfolded example_renewal_def]]
  show ?thesis unfolding example_renewal_def by simp blast
qed

theorem failed_renewal_keeps_serving_witness:
  "nd_state (the (example_renewal False ''two routes'')) = example_state"
proof -
  let ?c = "config_of_raw (example_raw_tls [''/a'', ''/b''])"
  have pre: "config_from_file example_toml_tls Map.empty (pv_files (nd_prov (example_node ''two routes''))) ''proxy.toml'' = Ok ?c"
    "tls ?c = Some example_tls_config" by code_simp+
  have "map_option (\<lambda>m. map_option (is_ok \<circ> fst) (m (nd_prov (example_node ''two routes''))))
      (renewal_action (example_acme False) Map.empty 41 True ?c example_tls_config) = Some (Some False)"
    by code_simp
  then have fails: "\<forall>prov ck pv1. renewal_action (example_acme False) Map.empty 41 True ?c example_tls_config = Some prov \<longrightarrow>
      prov (nd_prov (example_node ''two routes'')) \<noteq> Some (Ok ck, pv1)"
    by auto
  have "\<not> late_fault Map.empty (cache_dir example_tls_config)" by (simp add: late_fault_def)
  from failed_renewal_keeps_serving [OF example_renewal_some(2) [unfolded example_renewal_def] fails pre this]
  show ?thesis by (simp add: example_renewal_def example_node_def)
qed

theorem renewal_skips_validation_witness:
  "\<exists>nd'. example_renewal True ''same route twice'' = Some nd' \<and>
     map rs_route (app_routes (nd_state nd')) = routes (config_of_raw (example_raw_tls [''/a'', ''/a'']))"
proof -
  let ?c = "config_of_raw (example_raw_tls [''/a'', ''/a''])"
  let ?nd = "example_node ''same route twice''"
  let ?prov = "provision_with_store (example_acme True) Map.empty 41 example_tls_config"
  let ?pv = "snd (the (?prov (nd_prov ?nd)))"
  let ?built = "build_state example_wasm example_tls Map.empty (pv_files ?pv) ?c (nd_heap ?nd)"
  have pre: "config_from_file example_toml_tls Map.empty (pv_files (nd_prov ?nd)) ''proxy.toml'' = Ok ?c"
    "tls ?c = Some example_tls_config" "renewal_due (example_acme True) Map.empty (nd_prov ?nd) example_tls_config"
    "\<not> config_ok ?c" "map_option fst (?prov (nd_prov ?nd)) = Some (Ok (''CERT2'', ''KEY2''))"
    "is_ok (fst ?built)"
    by code_simp+
  have act: "renewal_action (example_acme True) Map.empty 41 True ?c example_tls_config = Some ?prov"
    by (simp add: renewal_action_def)
  from renewal_skips_validation [OF pre(1-3) act run_shape [OF pre(5)] is_ok_projr [OF pre(6) refl] pre(4)]
  show ?thesis by (auto simp: example_renewal_def)
qed

end
