(* ===== verification/Server.thy ===== *)
theory Server
  imports Challenge_Http Renewal
begin

section \<open>Starting and serving (\<open>src/server.rs\<close>, \<open>src/main.rs\<close>)\<close>

text \<open>
  Startup with its provisioning, the tasks it spawns, the accept loops and the service of one
  connection. Startup reads the configuration file up to four times; what others write to the disk
  between two reads is \<open>start_env\<close>. A started server is a \<open>running\<close> record: the shared state, the pool
  and the counters, the health loops as the address they poll and the flag they set, and what the
  background tasks were started with. A result \<open>None\<close> means that provisioning has not returned yet.
\<close>

subsection \<open>What a server runs with\<close>

record ('w, 'm, 'acc, 'c) running =
  run_node :: "('w, 'm, 'acc) node"
  run_pool :: "'c pool"
  run_metrics :: metrics
  run_health :: "(string \<times> nat) list"
  run_mtime :: system_time
  run_redirect :: "(string \<times> u16) option"
  run_renews :: bool

record start_env =
  se_edit0 :: "files \<Rightarrow> files"
  se_edit1 :: "files \<Rightarrow> files"
  se_edit2 :: "files \<Rightarrow> files"
  se_edit3 :: "files \<Rightarrow> files"
  se_stat :: stat_result

definition edited :: "(files \<Rightarrow> files) \<Rightarrow> 'w prov \<Rightarrow> 'w prov" where
  "edited f pv = pv\<lparr>pv_files := f (pv_files pv)\<rparr>"

text \<open>One health loop per route, with the route's upstream and its flag.\<close>

definition spawn_health :: "('m, 'acc) app_state \<Rightarrow> (string \<times> nat) list" where
  "spawn_health st = map (\<lambda>rs. (upstream (rs_route rs), rs_healthy rs)) (app_routes st)"

definition initial_mtime :: "stat_result \<Rightarrow> system_time" where
  "initial_mtime r = (case r of Modified t \<Rightarrow> t | _ \<Rightarrow> unix_epoch)"

subsection \<open>Startup\<close>

text \<open>The certificate missing at startup: provision it, then build the state again.\<close>

definition ensure_certificate ::
  "toml \<Rightarrow> ('m, 's) wasm_api \<Rightarrow> ('cert, 'key, 'srv, 'acc) tls_api \<Rightarrow>
   ('w, 'acct, 'ord, 'par, 'kp, 'csr) acme_api \<Rightarrow> faults \<Rightarrow> nat \<Rightarrow> path \<Rightarrow> start_env \<Rightarrow> config \<Rightarrow>
   ('m, 'acc) app_state \<Rightarrow> flag_heap \<Rightarrow> 'w prov \<Rightarrow>
   ((proxy_error + ('m, 'acc) app_state) outcome \<times> flag_heap \<times> 'w prov) option" where
  "ensure_certificate toml_from_str wasm tapi api faults fuel config_path env c st hp pv =
     (if tls c \<noteq> None \<and> app_tls st = None then
        (let pv1 = edited (se_edit1 env) pv
         in case config_from_file toml_from_str faults (pv_files pv1) config_path of
              Inl e \<Rightarrow> Some (Returned (Err e), hp, pv1)
            | Inr c1 \<Rightarrow>
                (case tls c1 of
                   None \<Rightarrow> Some (Panicked, hp, pv1)
                 | Some tc \<Rightarrow>
                     (case http_challenge_listen (server c) of
                        None \<Rightarrow> Some (Returned (Err (ConfigError
                                   ''http_challenge_listen required when [tls] is configured'')), hp, pv1)
                      | Some challenge_listen \<Rightarrow>
                          (case provision api faults fuel tc challenge_listen pv1 of
                             None \<Rightarrow> None
                           | Some (Inl e, pv2) \<Rightarrow> Some (Returned (Err e), hp, pv2)
                           | Some (Inr _, pv2) \<Rightarrow>
                               (let pv3 = edited (se_edit2 env) pv2
                                in case result_bind (config_from_file toml_from_str faults (pv_files pv3) config_path)
                                          (\<lambda>c2. result_bind (validate c2) (\<lambda>_. Ok c2)) of
                                     Inl e \<Rightarrow> Some (Returned (Err e), hp, pv3)
                                   | Inr c2 \<Rightarrow>
                                       (case build_state wasm tapi faults (pv_files pv3) c2 hp of
                                          (r, hp1) \<Rightarrow> Some (Returned r, hp1, pv3)))))))
      else Some (Returned (Ok st), hp, pv))"

text \<open>The port the redirect server names.\<close>

definition fallback_toml :: string where
  "fallback_toml = ''[server]'' @ newline @ ''listen='' @ dquoted ''0.0.0.0:443''"

definition listen_port :: "config \<Rightarrow> u16" where
  "listen_port c = (case parse_socket_addr (listen (server c)) of Inl _ \<Rightarrow> 443 | Inr a \<Rightarrow> sa_port a)"

definition https_port_of :: "toml \<Rightarrow> faults \<Rightarrow> files \<Rightarrow> path \<Rightarrow> u16 outcome" where
  "https_port_of toml_from_str faults fs config_path =
     (case config_from_file toml_from_str faults fs config_path of
        Inr c \<Rightarrow> Returned (listen_port c)
      | Inl _ \<Rightarrow>
          (case config_parse toml_from_str fallback_toml of
             Inr c \<Rightarrow> Returned (listen_port c)
           | Inl _ \<Rightarrow> Panicked))"

definition start_hot ::
  "toml \<Rightarrow> ('m, 's) wasm_api \<Rightarrow> ('cert, 'key, 'srv, 'acc) tls_api \<Rightarrow>
   ('w, 'acct, 'ord, 'par, 'kp, 'csr) acme_api \<Rightarrow> faults \<Rightarrow> nat \<Rightarrow> path \<Rightarrow> start_env \<Rightarrow> flag_heap \<Rightarrow> 'w prov \<Rightarrow>
   (proxy_error + ('w, 'm, 'acc, 'c) running) outcome option" where
  "start_hot toml_from_str wasm tapi api faults fuel config_path env hp pv =
     (case result_bind (config_from_file toml_from_str faults (pv_files pv) config_path)
             (\<lambda>c. result_bind (validate c) (\<lambda>_. Ok c)) of
        Inl e \<Rightarrow> Some (Returned (Err e))
      | Inr c \<Rightarrow>
          (case build_state wasm tapi faults (pv_files pv) c hp of
             (Inl e, hp1) \<Rightarrow> Some (Returned (Err e))
           | (Inr st0, hp1) \<Rightarrow>
               (case ensure_certificate toml_from_str wasm tapi api faults fuel config_path env c st0 hp1 pv of
                  None \<Rightarrow> None
                | Some (Panicked, hp2, pv2) \<Rightarrow> Some Panicked
                | Some (Returned (Inl e), hp2, pv2) \<Rightarrow> Some (Returned (Err e))
                | Some (Returned (Inr st), hp2, pv2) \<Rightarrow>
                    (let pv3 = edited (se_edit3 env) pv2;
                         rn = \<lparr>run_node = \<lparr>nd_state = st, nd_heap = hp2, nd_prov = pv3\<lparr>pv_store := Map.empty\<rparr>\<rparr>,
                               run_pool = pool_new (max_idle_connections (server c)),
                               run_metrics = metrics_new,
                               run_health = spawn_health st,
                               run_mtime = initial_mtime (se_stat env),
                               run_redirect = None,
                               run_renews = (tls c \<noteq> None)\<rparr>
                     in if tls c = None then Some (Returned (Ok rn))
                        else
                          (let bind = (case http_challenge_listen (server c) of None \<Rightarrow> [] | Some b \<Rightarrow> b)
                           in case https_port_of toml_from_str faults (pv_files pv3) config_path of
                                Panicked \<Rightarrow> Some Panicked
                              | Returned port \<Rightarrow>
                                  Some (Returned (Ok (if bind = [] then rn
                                    else rn\<lparr>run_redirect := Some (bind, port)\<rparr>))))))))"

text \<open>The entry points without hot reload.\<close>

definition start_with_config ::
  "('m, 's) wasm_api \<Rightarrow> ('cert, 'key, 'srv, 'acc) tls_api \<Rightarrow> faults \<Rightarrow> files \<Rightarrow> config \<Rightarrow> flag_heap \<Rightarrow>
   (proxy_error + ('m, 'acc) app_state \<times> 'c pool \<times> metrics \<times> (string \<times> nat) list) \<times> flag_heap" where
  "start_with_config wasm tapi faults fs c hp =
     (case build_state wasm tapi faults fs c hp of
        (Inl e, hp1) \<Rightarrow> (Err e, hp1)
      | (Inr st, hp1) \<Rightarrow>
          (Ok (st, pool_new (max_idle_connections (server c)), metrics_new, spawn_health st), hp1))"

definition start_with_app_state :: "('m, 'acc) app_state \<Rightarrow> ('m, 'acc) app_state \<times> 'c pool \<times> metrics" where
  "start_with_app_state st = (st, pool_new 8, metrics_new)"

definition main_start ::
  "toml \<Rightarrow> ('m, 's) wasm_api \<Rightarrow> ('cert, 'key, 'srv, 'acc) tls_api \<Rightarrow>
   ('w, 'acct, 'ord, 'par, 'kp, 'csr) acme_api \<Rightarrow> faults \<Rightarrow> nat \<Rightarrow> (string \<Rightarrow> string + unit) \<Rightarrow> string option \<Rightarrow>
   start_env \<Rightarrow> flag_heap \<Rightarrow> 'w prov \<Rightarrow> (proxy_error + ('w, 'm, 'acc, 'c) running) outcome option" where
  "main_start toml_from_str wasm tapi api faults fuel tcp_bind arg env hp pv =
     (let config_path = (case arg of None \<Rightarrow> ''config/default.toml'' | Some p \<Rightarrow> p)
      in case result_bind (config_from_file toml_from_str faults (pv_files pv) config_path)
                (\<lambda>c. result_bind (validate c) (\<lambda>_. Ok c)) of
           Inl e \<Rightarrow> Some (Returned (Err e))
         | Inr c \<Rightarrow>
             (case tcp_bind (listen (server c)) of
                Inl e \<Rightarrow> Some (Returned (Err (IoError e)))
              | Inr _ \<Rightarrow> start_hot toml_from_str wasm tapi api faults fuel config_path env hp (edited (se_edit0 env) pv)))"

subsection \<open>Accepting\<close>

datatype 'x accept_event = Accepted 'x | AcceptFailed string | ShutdownFired

text \<open>The main loop: its result when it has ended, and the connections it has spawned a task for.\<close>

fun accept_loop :: "'x accept_event list \<Rightarrow> (proxy_error + unit) option \<times> 'x list" where
  "accept_loop [] = (None, [])"
| "accept_loop (Accepted x # es) = (case accept_loop es of (r, xs) \<Rightarrow> (r, x # xs))"
| "accept_loop (AcceptFailed m # es) = (Some (Err (IoError m)), [])"
| "accept_loop (ShutdownFired # es) = (Some (Ok ()), [])"

text \<open>The challenge server's loop goes on after an error; the redirect server's never ends.\<close>

fun challenge_accepts :: "'x accept_event list \<Rightarrow> 'x list" where
  "challenge_accepts [] = []"
| "challenge_accepts (Accepted x # es) = x # challenge_accepts es"
| "challenge_accepts (AcceptFailed m # es) = challenge_accepts es"
| "challenge_accepts (ShutdownFired # es) = []"

fun redirect_loop :: "(string + 'x) list \<Rightarrow> 'x list" where
  "redirect_loop [] = []"
| "redirect_loop (Inr x # es) = x # redirect_loop es"
| "redirect_loop (Inl e # es) = redirect_loop es"

definition redirect_server :: "(string \<Rightarrow> string + unit) \<Rightarrow> string \<Rightarrow> (string + 'x) list \<Rightarrow> 'x list" where
  "redirect_server tcp_bind bind_addr es =
     (case tcp_bind bind_addr of Inl e \<Rightarrow> [] | Inr _ \<Rightarrow> redirect_loop es)"

subsection \<open>Serving a connection\<close>

text \<open>
  The requests of a connection, one after the other, each with the clocks, the state and the flags
  it finds. A panic ends the connection's task.
\<close>

record ('m, 'acc, 'h, 'b) turn =
  tn_env :: req_env
  tn_state :: "('m, 'acc) app_state"
  tn_heap :: flag_heap
  tn_request :: "('h, 'b) request"

fun serve_requests ::
  "'h header_api \<Rightarrow> ('w, 'io, 'c, 'h, 'b) net \<Rightarrow> ('m, 's) wasm_api \<Rightarrow> socket_addr \<Rightarrow> bool \<Rightarrow>
   ('m, 'acc, 'h, 'b) turn list \<Rightarrow> 'c pool \<Rightarrow> 'w \<Rightarrow> metrics \<Rightarrow>
   ('h, string) response list \<times> 'c pool \<times> 'w \<times> metrics" where
  "serve_requests api net wasm addr tls_on [] p w m = ([], p, w, m)"
| "serve_requests api net wasm addr tls_on (t # ts) p w m =
     (case handle api net wasm ((tn_env t)\<lparr>env_client := addr, env_is_tls := tls_on\<rparr>) (tn_state t) (tn_heap t)
             (tn_request t) p w m of
        (Panicked, p1, w1, m1) \<Rightarrow> ([], p1, w1, m1)
      | (Returned resp, p1, w1, m1) \<Rightarrow>
          (case serve_requests api net wasm addr tls_on ts p1 w1 m1 of (rs, s) \<Rightarrow> (resp # rs, s)))"

definition serve_plain ::
  "'h header_api \<Rightarrow> ('w, 'io, 'c, 'h, 'b) net \<Rightarrow> ('m, 's) wasm_api \<Rightarrow> socket_addr \<Rightarrow>
   ('m, 'acc, 'h, 'b) turn list \<Rightarrow> 'c pool \<Rightarrow> 'w \<Rightarrow> metrics \<Rightarrow>
   ('h, string) response list \<times> 'c pool \<times> 'w \<times> metrics" where
  "serve_plain api net wasm addr ts p w m = serve_requests api net wasm addr False ts p w m"

definition serve_tls ::
  "'h header_api \<Rightarrow> ('w, 'io, 'c, 'h, 'b) net \<Rightarrow> ('m, 's) wasm_api \<Rightarrow> socket_addr \<Rightarrow> string + unit \<Rightarrow>
   ('m, 'acc, 'h, 'b) turn list \<Rightarrow> 'c pool \<Rightarrow> 'w \<Rightarrow> metrics \<Rightarrow>
   ('h, string) response list \<times> 'c pool \<times> 'w \<times> metrics" where
  "serve_tls api net wasm addr handshake ts p w m =
     (case handshake of
        Inr _ \<Rightarrow> serve_requests api net wasm addr True ts p w m
      | Inl e \<Rightarrow> ([], p, w, m))"

text \<open>The task of an accepted connection; \<open>st\<close> is the state it loads first.\<close>

definition serve_connection ::
  "'h header_api \<Rightarrow> ('w, 'io, 'c, 'h, 'b) net \<Rightarrow> ('m, 's) wasm_api \<Rightarrow> socket_addr \<Rightarrow>
   ('acc \<Rightarrow> string + unit) \<Rightarrow> ('m, 'acc) app_state \<Rightarrow> ('m, 'acc, 'h, 'b) turn list \<Rightarrow> 'c pool \<Rightarrow> 'w \<Rightarrow> metrics \<Rightarrow>
   ('h, string) response list \<times> 'c pool \<times> 'w \<times> metrics" where
  "serve_connection api net wasm addr tls_accept st ts p w m =
     (case app_tls st of
        Some tls_st \<Rightarrow> serve_tls api net wasm addr (tls_accept (acceptor tls_st)) ts p w m
      | None \<Rightarrow> serve_plain api net wasm addr ts p w m)"

end
