(* ===== verification/Server_Laws.thy ===== *)
theory Server_Laws
  imports Server
begin

section \<open>What a started server is\<close>

text \<open>
  Facts about startup and the accept loops of \<open>src/server.rs\<close> and \<open>src/main.rs\<close>: a server that starts
  serves validated routes with a health loop each, terminates TLS when TLS is configured, and its
  main loop ends with the first accept error or the shutdown signal.
\<close>

subsection \<open>Startup\<close>

text \<open>How a state comes out of \<open>ensure_certificate\<close>.\<close>

lemma ensure_certificate_Ok:
  assumes "ensure_certificate toml_from_str wasm tapi api faults fuel config_path env c st hp pv =
      Some (Returned (Ok st'), hp', pv')"
  obtains (present) "st' = st" "hp' = hp" "pv' = pv" "tls c = None \<or> app_tls st \<noteq> None"
  | (provisioned) c1 tc l ck pv2 c2 where "tls c \<noteq> None" "app_tls st = None"
      "config_from_file toml_from_str faults (pv_files (edited (se_edit1 env) pv)) config_path = Ok c1"
      "tls c1 = Some tc" "http_challenge_listen (server c) = Some l"
      "provision api faults fuel tc l (edited (se_edit1 env) pv) = Some (Ok ck, pv2)"
      "pv' = edited (se_edit2 env) pv2"
      "config_from_file toml_from_str faults (pv_files pv') config_path = Ok c2" "config_ok c2"
      "build_state wasm tapi faults (pv_files pv') c2 hp = (Ok st', hp')"
proof (cases "tls c \<noteq> None \<and> app_tls st = None")
  case False
  with assms present show ?thesis by (auto simp: ensure_certificate_def)
next
  case True
  let ?pv1 = "edited (se_edit1 env) pv"
  from assms True obtain c1 where c1: "config_from_file toml_from_str faults (pv_files ?pv1) config_path = Ok c1"
    by (auto simp: ensure_certificate_def Let_def split: sum.splits)
  from assms True c1 obtain tc where tc: "tls c1 = Some tc"
    by (auto simp: ensure_certificate_def Let_def split: option.splits)
  from assms True c1 tc obtain l where l: "http_challenge_listen (server c) = Some l"
    by (auto simp: ensure_certificate_def Let_def split: option.splits)
  from assms True c1 tc l obtain ck pv2 where run: "provision api faults fuel tc l ?pv1 = Some (Ok ck, pv2)"
    by (auto simp: ensure_certificate_def Let_def split: option.splits prod.splits sum.splits)
  let ?pv3 = "edited (se_edit2 env) pv2"
  from assms True c1 tc l run obtain c2
    where c2: "config_from_file toml_from_str faults (pv_files ?pv3) config_path = Ok c2" "config_ok c2"
    by (auto simp: ensure_certificate_def Let_def result_simps validate_accepts
        split: sum.splits prod.splits)
  then have "result_bind (config_from_file toml_from_str faults (pv_files ?pv3) config_path)
      (\<lambda>c2. result_bind (validate c2) (\<lambda>_. Ok c2)) = Ok c2"
    by (simp add: validate_accepts [symmetric])
  with assms True c1 tc l run
  have "pv' = ?pv3" "build_state wasm tapi faults (pv_files ?pv3) c2 hp = (Ok st', hp')"
    by (auto simp: ensure_certificate_def Let_def split: prod.splits)
  with provisioned [OF _ _ c1 tc l run] True c2 show ?thesis by simp
qed

text \<open>How a server comes out of \<open>start_hot\<close>.\<close>

lemma start_hot_Ok:
  assumes "start_hot toml_from_str wasm tapi api faults fuel config_path env hp pv = Some (Returned (Ok rn))"
  obtains c st0 hp1 pv2 where
    "config_from_file toml_from_str faults (pv_files pv) config_path = Ok c" "config_ok c"
    "build_state wasm tapi faults (pv_files pv) c hp = (Ok st0, hp1)"
    "ensure_certificate toml_from_str wasm tapi api faults fuel config_path env c st0 hp1 pv =
       Some (Returned (Ok (nd_state (run_node rn))), nd_heap (run_node rn), pv2)"
    "run_pool rn = pool_new (max_idle_connections (server c))" "run_metrics rn = metrics_new"
    "run_health rn = spawn_health (nd_state (run_node rn))"
    "run_renews rn \<longleftrightarrow> tls c \<noteq> None" "run_redirect rn \<noteq> None \<longrightarrow> tls c \<noteq> None"
    "run_mtime rn = initial_mtime (se_stat env)" "pv_store (nd_prov (run_node rn)) = Map.empty"
proof -
  from assms obtain c where c: "config_from_file toml_from_str faults (pv_files pv) config_path = Ok c" "config_ok c"
    by (auto simp: start_hot_def result_simps validate_accepts split: sum.splits)
  then have first: "result_bind (config_from_file toml_from_str faults (pv_files pv) config_path)
      (\<lambda>c. result_bind (validate c) (\<lambda>_. Ok c)) = Ok c"
    by (simp add: validate_accepts [symmetric])
  from assms first obtain st0 hp1 where built: "build_state wasm tapi faults (pv_files pv) c hp = (Ok st0, hp1)"
    by (auto simp: start_hot_def split: sum.splits prod.splits)
  from assms first built obtain st hp2 pv2 where
    ensured: "ensure_certificate toml_from_str wasm tapi api faults fuel config_path env c st0 hp1 pv =
      Some (Returned (Ok st), hp2, pv2)"
    by (auto simp: start_hot_def split: sum.splits prod.splits option.splits outcome.splits)
  from assms first built ensured
  have "nd_state (run_node rn) = st" "nd_heap (run_node rn) = hp2"
    "run_pool rn = pool_new (max_idle_connections (server c))" "run_metrics rn = metrics_new"
    "run_health rn = spawn_health st" "run_renews rn \<longleftrightarrow> tls c \<noteq> None" "run_redirect rn \<noteq> None \<longrightarrow> tls c \<noteq> None"
    "run_mtime rn = initial_mtime (se_stat env)" "pv_store (nd_prov (run_node rn)) = Map.empty"
    by (auto simp: start_hot_def Let_def split: if_splits outcome.splits)
  with that [OF c built] ensured show ?thesis by simp
qed

text \<open>The state that ends up serving is built from a valid configuration.\<close>

lemma start_hot_built:
  assumes "start_hot toml_from_str wasm tapi api faults fuel config_path env hp pv = Some (Returned (Ok rn))"
  shows "\<exists>fs c hp0. config_ok c \<and>
     build_state wasm tapi faults fs c hp0 = (Ok (nd_state (run_node rn)), nd_heap (run_node rn))"
  using assms
proof (rule start_hot_Ok)
  fix c st0 hp1 pv2
  assume c: "config_ok c" and built: "build_state wasm tapi faults (pv_files pv) c hp = (Ok st0, hp1)"
    and ensured: "ensure_certificate toml_from_str wasm tapi api faults fuel config_path env c st0 hp1 pv =
       Some (Returned (Ok (nd_state (run_node rn))), nd_heap (run_node rn), pv2)"
  from ensured show ?thesis
  proof (cases rule: ensure_certificate_Ok)
    case present
    with c built show ?thesis by metis
  next
    case (provisioned c1 tc l ck pv2' c2)
    then show ?thesis by blast
  qed
qed

subsection \<open>Properties\<close>

text \<open>
  C27: a server that has started serves routes that a valid configuration may have, all of them healthy,
  with exactly one health loop per route, on its upstream and its own flag, an empty pool and counters
  at zero; it redirects and renews only when TLS is configured.
\<close>
theorem started_server:
  assumes "start_hot toml_from_str wasm tapi api faults fuel config_path env hp pv = Some (Returned (Ok rn))"
  shows "routes_ok (map rs_route (app_routes (nd_state (run_node rn)))) \<and>
    run_health rn = map (\<lambda>rs. (upstream (rs_route rs), rs_healthy rs)) (app_routes (nd_state (run_node rn))) \<and>
    distinct (map snd (run_health rn)) \<and>
    (\<forall>(addr, flag) \<in> set (run_health rn). flag_load (nd_heap (run_node rn)) flag) \<and>
    (\<forall>addr. idle_list (run_pool rn) addr = []) \<and> run_metrics rn = metrics_new \<and>
    (\<exists>c. config_from_file toml_from_str faults (pv_files pv) config_path = Ok c \<and> validate c = Ok () \<and>
       max_idle_per_host (run_pool rn) = max_idle_connections (server c) \<and>
       (run_renews rn \<longleftrightarrow> tls c \<noteq> None) \<and> (run_redirect rn \<noteq> None \<longrightarrow> tls c \<noteq> None))"
proof -
  from start_hot_built [OF assms] obtain fs c' hp0 where c': "config_ok c'"
    and built: "build_state wasm tapi faults fs c' hp0 = (Ok (nd_state (run_node rn)), nd_heap (run_node rn))" by blast
  from build_state_Ok [OF built] have fresh: "fresh_routes hp0 (nd_heap (run_node rn)) (app_routes (nd_state (run_node rn)))"
    by blast
  then have flags: "distinct (map rs_healthy (app_routes (nd_state (run_node rn))))"
    "\<forall>rs \<in> set (app_routes (nd_state (run_node rn))). flag_load (nd_heap (run_node rn)) (rs_healthy rs)"
    using fresh_routes_healthy [OF fresh] by (auto simp: fresh_routes_def)
  have serving: "routes_ok (map rs_route (app_routes (nd_state (run_node rn))))"
    using build_state_serving_ok [OF c' built] by (simp add: serving_ok_def)
  from assms show ?thesis
  proof (rule start_hot_Ok)
    fix c st0 hp1 pv2
    assume "config_from_file toml_from_str faults (pv_files pv) config_path = Ok c" "config_ok c"
      "run_pool rn = pool_new (max_idle_connections (server c))" "run_metrics rn = metrics_new"
      "run_health rn = spawn_health (nd_state (run_node rn))"
      "run_renews rn \<longleftrightarrow> tls c \<noteq> None" "run_redirect rn \<noteq> None \<longrightarrow> tls c \<noteq> None"
    with serving flags show ?thesis
      by (auto simp: spawn_health_def validate_accepts pool_new_def comp_def idle_list_def)
  qed
qed

text \<open>
  What others write while the server starts may change anything but this: it leaves a TLS section with
  the same cache directory in the configuration, if that still parses, and the pair in that directory.
\<close>

definition leaves_tls :: "toml \<Rightarrow> faults \<Rightarrow> path \<Rightarrow> path \<Rightarrow> (files \<Rightarrow> files) \<Rightarrow> bool" where
  "leaves_tls toml_from_str faults config_path dir f \<longleftrightarrow>
     (\<forall>fs c tc c'. config_from_file toml_from_str faults fs config_path = Ok c \<and> tls c = Some tc \<and>
        cache_dir tc = dir \<and> config_from_file toml_from_str faults (f fs) config_path = Ok c' \<longrightarrow>
        (\<exists>tc'. tls c' = Some tc' \<and> cache_dir tc' = dir)) \<and>
     (\<forall>fs. f fs (cert_pem_path dir) = fs (cert_pem_path dir) \<and> f fs (key_pem_path dir) = fs (key_pem_path dir))"

lemma leaves_tls_id: "leaves_tls toml_from_str faults config_path dir id"
  by (auto simp: leaves_tls_def)

lemma leaves_tls_config:
  assumes "leaves_tls toml_from_str faults config_path dir f"
    and "config_from_file toml_from_str faults fs config_path = Ok c" "tls c = Some tc" "cache_dir tc = dir"
    and "config_from_file toml_from_str faults (f fs) config_path = Ok c'"
  obtains tc' where "tls c' = Some tc'" "cache_dir tc' = dir"
  using assms unfolding leaves_tls_def by blast

lemma leaves_tls_pair:
  assumes "leaves_tls toml_from_str faults config_path dir f"
  shows "f fs (cert_pem_path dir) = fs (cert_pem_path dir)" "f fs (key_pem_path dir) = fs (key_pem_path dir)"
  using assms unfolding leaves_tls_def by blast+

text \<open>
  C8: with TLS configured a server only starts with a certificate: whether it found one or had to
  provision it, the state it serves terminates TLS. This holds when nobody removes the TLS section,
  changes its cache directory or touches the pair while the server starts (\<open>leaves_tls\<close>), the two files
  of the pair can be examined, and the configuration is not itself one of the files of the cache.
\<close>
theorem tls_configured_is_tls_served:
  assumes "start_hot toml_from_str wasm tapi api faults fuel config_path env hp pv = Some (Returned (Ok rn))"
    and "config_from_file toml_from_str faults (pv_files pv) config_path = Ok c" "tls c = Some tc"
    and "leaves_tls toml_from_str faults config_path (cache_dir tc) (se_edit1 env)"
      "leaves_tls toml_from_str faults config_path (cache_dir tc) (se_edit2 env)"
    and "faults (FsStat (cert_pem_path (cache_dir tc))) = None" "faults (FsStat (key_pem_path (cache_dir tc))) = None"
    and "config_path \<notin> insert (lock_path (cache_dir tc)) (cache_files (cache_dir tc))"
  shows "app_tls (nd_state (run_node rn)) \<noteq> None"
  using assms(1)
proof (rule start_hot_Ok)
  fix c' st0 hp1 pv2
  assume "config_from_file toml_from_str faults (pv_files pv) config_path = Ok c'"
    and ensured: "ensure_certificate toml_from_str wasm tapi api faults fuel config_path env c' st0 hp1 pv =
       Some (Returned (Ok (nd_state (run_node rn))), nd_heap (run_node rn), pv2)"
  with assms(2) have "c' = c" by simp
  from ensured show ?thesis
  proof (cases rule: ensure_certificate_Ok)
    case present
    with assms(3) \<open>c' = c\<close> show ?thesis by simp
  next
    case (provisioned c1 tc1 l ck pv3 c2)
    let ?dir = "cache_dir tc"
    have pv2: "pv_files pv2 = se_edit2 env (pv_files pv3)" using provisioned(7) by (simp add: edited_def)
    have "config_from_file toml_from_str faults (se_edit1 env (pv_files pv)) config_path = Ok c1"
      using provisioned(3) by (simp add: edited_def)
    from leaves_tls_config [OF assms(4,2,3) refl this] provisioned(4) have tc1: "cache_dir tc1 = ?dir" by auto
    obtain cert key where ck: "ck = (cert, key)" by (cases ck)
    from pv.success [OF provisioned(6) [unfolded ck]]
    have pair: "pv_files pv3 (cert_pem_path ?dir) = Some cert" "pv_files pv3 (key_pem_path ?dir) = Some key"
      unfolding tc1 by blast+
    have "config_path \<notin> insert (lock_path (cache_dir tc1)) (cache_files (cache_dir tc1))"
      using assms(8) by (simp only: tc1) simp
    from pv.frame [OF provisioned(6) this]
    have "config_from_file toml_from_str faults (pv_files pv3) config_path = Ok c1"
      using provisioned(3) by (simp add: config_from_file_def fs_read_def split: option.splits)
    from leaves_tls_config [OF assms(5) this provisioned(4) tc1 provisioned(8) [unfolded pv2]]
    obtain tc2 where tc2: "tls c2 = Some tc2" "cache_dir tc2 = ?dir" by blast
    have "pv_files pv2 (cert_pem_path ?dir) = Some cert" "pv_files pv2 (key_pem_path ?dir) = Some key"
      using pair by (simp_all add: pv2 leaves_tls_pair [OF assms(5)])
    with assms(6,7) have "fs_exists faults (pv_files pv2) (cert_file tc2)" "fs_exists faults (pv_files pv2) (key_file tc2)"
      by (simp_all add: fs_exists_def cert_files tc2)
    moreover from build_state_Ok [OF provisioned(10)] tc2(1)
    have "build_tls tapi faults (pv_files pv2) (Some tc2) = Ok (app_tls (nd_state (run_node rn)))" by simp
    ultimately show ?thesis using build_tls_absent [of tapi faults "pv_files pv2" "Some tc2"] by auto
  qed
qed

lemma accept_loop_accepted: "accept_loop (map Accepted xs @ es) = (fst (accept_loop es), xs @ snd (accept_loop es))"
  by (induction xs) (simp_all split: prod.split)

text \<open>
  The main accept loop spawns a task for each connection, in order, until an accept fails, when it
  returns that error and the server ends, or the shutdown signal fires; the accept loop of the redirect
  server goes on after any error.
\<close>
theorem accept_loops:
  "accept_loop (map Accepted xs) = (None, xs) \<and>
   accept_loop (map Accepted xs @ AcceptFailed m # es) = (Some (Err (IoError m)), xs) \<and>
   accept_loop (map Accepted xs @ ShutdownFired # es) = (Some (Ok ()), xs) \<and>
   redirect_loop (map Inr xs @ Inl m # rest) = xs @ redirect_loop rest"
proof -
  have "redirect_loop (map Inr xs @ Inl m # rest) = xs @ redirect_loop rest"
    by (induction xs) simp_all
  then show ?thesis using accept_loop_accepted [of xs "[]"] by (simp add: accept_loop_accepted)
qed

subsection \<open>Examples\<close>

definition example_start_env :: start_env where
  "example_start_env = \<lparr>se_edit0 = id, se_edit1 = id, se_edit2 = id, se_edit3 = id, se_stat = Modified (SystemTime 100 0)\<rparr>"

text \<open>A disk with the configuration and no certificate.\<close>

definition example_disk :: "nat prov" where
  "example_disk = example_prov\<lparr>pv_files := [''proxy.toml'' \<mapsto> ''two routes'']\<rparr>"

definition example_start_toml :: toml where
  "example_start_toml text =
     map_sum id (\<lambda>r. r\<lparr>raw_server_table := (raw_server_table r)\<lparr>raw_http_challenge_listen := Some ''0.0.0.0:80''\<rparr>\<rparr>)
       (example_toml_tls text)"

definition example_started ::
  "(proxy_error + (nat, example_module, string, nat) running) outcome option" where
  "example_started = start_hot example_start_toml example_wasm example_tls (example_acme True) Map.empty 41
     ''proxy.toml'' example_start_env [] example_disk"

definition returned_ok :: "(proxy_error + 'a) outcome option \<Rightarrow> bool" where
  "returned_ok r = (case r of Some (Returned x) \<Rightarrow> is_ok x | _ \<Rightarrow> False)"

definition example_running :: "(nat, example_module, string, nat) running" where
  "example_running = (case the example_started of Returned x \<Rightarrow> projr x)"

lemma returned_ok_shape:
  "returned_ok m \<Longrightarrow> m = Some (Returned (Ok (case the m of Returned x \<Rightarrow> projr x)))"
  by (auto simp: returned_ok_def is_ok_iff split: option.splits outcome.splits)

lemma example_started: "example_started = Some (Returned (Ok example_running))"
proof -
  have "returned_ok example_started" by code_simp
  then show ?thesis unfolding example_running_def by (rule returned_ok_shape)
qed

theorem started_server_witness:
  "routes_ok (map rs_route (app_routes (nd_state (run_node example_running)))) \<and>
   list_all (\<lambda>(addr, flag). flag_load (nd_heap (run_node example_running)) flag) (run_health example_running)"
  using started_server [OF example_started [unfolded example_started_def]] by (simp add: list_all_iff)

theorem tls_configured_is_tls_served_witness: "app_tls (nd_state (run_node example_running)) \<noteq> None"
proof (rule tls_configured_is_tls_served [OF example_started [unfolded example_started_def]])
  show "config_from_file example_start_toml Map.empty (pv_files example_disk) ''proxy.toml'' =
      Ok (projr (config_from_file example_start_toml Map.empty (pv_files example_disk) ''proxy.toml''))" by code_simp
  show "tls (projr (config_from_file example_start_toml Map.empty (pv_files example_disk) ''proxy.toml'')) =
      Some example_tls_config" by code_simp
  show "leaves_tls example_start_toml Map.empty ''proxy.toml'' (cache_dir example_tls_config) (se_edit1 example_start_env)"
    "leaves_tls example_start_toml Map.empty ''proxy.toml'' (cache_dir example_tls_config) (se_edit2 example_start_env)"
    by (simp_all add: example_start_env_def leaves_tls_id)
  show "Map.empty (FsStat (cert_pem_path (cache_dir example_tls_config))) = None"
    "Map.empty (FsStat (key_pem_path (cache_dir example_tls_config))) = None" by simp_all
  show "''proxy.toml'' \<notin> insert (lock_path (cache_dir example_tls_config)) (cache_files (cache_dir example_tls_config))"
    by (simp add: cache_files_def example_tls_config_def lock_path_def cert_pem_path_def key_pem_path_def
        cert_tmp_path_def key_tmp_path_def issued_at_path_def path_join_def starts_with_def)
qed

end
