(* ===== verification/Forward_Tasks.thy ===== *)
theory Forward_Tasks
  imports Proxy_Forward
begin

section \<open>Requests in flight\<close>

text \<open>
  Many requests are forwarded at once, each an instance of the state machine of
  \<open>src/proxy.rs\<close>, all sharing one pool (\<open>src/pool.rs\<close>) behind its lock. A step lets one of them run
  to its next suspension point, lets a new one arrive, or drops one: it has finished, its timeout
  fired, or its client went away. \<open>sys_opened\<close> remembers, for the statement only, the address each
  connection was opened for; \<open>hyper\<close> gives a new connection per handshake (\<open>fresh_connection\<close>).
\<close>

record ('w, 'io, 'c, 'h, 'b) fwd_sys =
  sys_pool :: "'c pool"
  sys_world :: 'w
  sys_tasks :: "nat \<rightharpoonup> fwd_ctx \<times> ('io, 'c, 'h, 'b) fwd"
  sys_opened :: "'c \<rightharpoonup> string"

definition sys_init :: "nat \<Rightarrow> 'w \<Rightarrow> ('w, 'io, 'c, 'h, 'b) fwd_sys" where
  "sys_init n w = \<lparr>sys_pool = pool_new n, sys_world = w, sys_tasks = Map.empty, sys_opened = Map.empty\<rparr>"

text \<open>The connection a suspended request holds.\<close>

fun held :: "('io, 'c, 'h, 'b) fwd \<Rightarrow> 'c option" where
  "held (Send n c parts) = Some c"
| "held (GiveBack c resp) = Some c"
| "held _ = None"

fun new_connection :: "('io, 'c, 'h, 'b) fwd \<Rightarrow> ('io, 'c, 'h, 'b) fwd \<Rightarrow> 'c option" where
  "new_connection (Handshake n io parts) (Send m c parts') = Some c"
| "new_connection _ _ = None"

definition fresh_connection ::
  "('c \<rightharpoonup> string) \<Rightarrow> ('io, 'c, 'h, 'b) fwd \<Rightarrow> ('io, 'c, 'h, 'b) fwd \<Rightarrow> bool" where
  "fresh_connection opened st st' \<longleftrightarrow>
     (case new_connection st st' of None \<Rightarrow> True | Some c \<Rightarrow> opened c = None)"

definition note_opened ::
  "fwd_ctx \<Rightarrow> ('io, 'c, 'h, 'b) fwd \<Rightarrow> ('io, 'c, 'h, 'b) fwd \<Rightarrow> ('c \<rightharpoonup> string) \<Rightarrow> ('c \<rightharpoonup> string)" where
  "note_opened ctx st st' opened =
     (case new_connection st st' of None \<Rightarrow> opened | Some c \<Rightarrow> opened(c \<mapsto> upstream_addr ctx))"

inductive sys_step ::
  "('w, 'io, 'c, 'h, 'b) net \<Rightarrow> 'h header_api \<Rightarrow> ('w, 'io, 'c, 'h, 'b) fwd_sys \<Rightarrow>
   ('w, 'io, 'c, 'h, 'b) fwd_sys \<Rightarrow> bool"
  for net :: "('w, 'io, 'c, 'h, 'b) net" and api :: "'h header_api" where
  arrive: "sys_tasks s i = None \<Longrightarrow>
     sys_step net api s (s\<lparr>sys_tasks := (sys_tasks s)(i \<mapsto> (ctx, CollectRequest req))\<rparr>)"
| move: "sys_tasks s i = Some (ctx, st) \<Longrightarrow>
     fwd_step net api ctx (st, sys_pool s, sys_world s) = (st', p', w') \<Longrightarrow>
     fresh_connection (sys_opened s) st st' \<Longrightarrow>
     sys_step net api s
       \<lparr>sys_pool = p', sys_world = w', sys_tasks = (sys_tasks s)(i \<mapsto> (ctx, st')),
        sys_opened = note_opened ctx st st' (sys_opened s)\<rparr>"
| leave: "sys_tasks s i = Some t \<Longrightarrow>
     sys_step net api s (s\<lparr>sys_tasks := (sys_tasks s)(i := None)\<rparr>)"
| outside: "sys_step net api s (s\<lparr>sys_world := w\<rparr>)"

inductive sys_reachable ::
  "('w, 'io, 'c, 'h, 'b) net \<Rightarrow> 'h header_api \<Rightarrow> nat \<Rightarrow> ('w, 'io, 'c, 'h, 'b) fwd_sys \<Rightarrow> bool"
  for net :: "('w, 'io, 'c, 'h, 'b) net" and api :: "'h header_api" and n :: nat where
  start: "sys_reachable net api n (sys_init n w)"
| step: "sys_reachable net api n s \<Longrightarrow> sys_step net api s s' \<Longrightarrow> sys_reachable net api n s'"

inductive_cases sys_stepE: "sys_step net api s s'"

subsection \<open>Ownership\<close>

definition task_holds :: "('w, 'io, 'c, 'h, 'b) fwd_sys \<Rightarrow> nat \<Rightarrow> 'c option" where
  "task_holds s i = (case sys_tasks s i of None \<Rightarrow> None | Some (_, st) \<Rightarrow> held st)"

definition task_target :: "('w, 'io, 'c, 'h, 'b) fwd_sys \<Rightarrow> nat \<Rightarrow> string" where
  "task_target s i = (case sys_tasks s i of None \<Rightarrow> [] | Some (ctx, _) \<Rightarrow> upstream_addr ctx)"

definition sys_inv :: "('w, 'io, 'c, 'h, 'b) fwd_sys \<Rightarrow> bool" where
  "sys_inv s \<longleftrightarrow>
     owned (idle_list (sys_pool s)) (max_idle_per_host (sys_pool s)) (task_holds s) (task_target s)
       (sys_opened s)"

text \<open>What one step of the machine does to the pool and to the connection held.\<close>

lemma fwd_step_effect:
  assumes "fwd_step net api ctx (st, p, w) = (st', p', w')"
  shows "(p' = p \<and> held st' = held st \<and> new_connection st st' = None) \<or>
    (p' = p \<and> held st' = None \<and> new_connection st st' = None) \<or>
    (\<exists>c. p' = p \<and> new_connection st st' = Some c \<and> held st' = Some c) \<or>
    (\<exists>c. pop_idle (upstream_addr ctx) p = (Some c, p') \<and> held st' = Some c \<and> new_connection st st' = None) \<or>
    (\<exists>c. held st = Some c \<and> held st' = None \<and> p' = release (upstream_addr ctx) c p \<and>
         new_connection st st' = None)"
  using assms
proof (cases st)
  case (Acquire parts)
  with assms cp.pop_empty show ?thesis
    by (auto split: prod.splits option.splits)
qed (auto split: prod.splits sum.splits option.splits attempt.splits)

lemma task_holds_update:
  "(\<lambda>j. case (ts(i := t)) j of None \<Rightarrow> None | Some (_, st) \<Rightarrow> held st) =
   (\<lambda>j. case ts j of None \<Rightarrow> None | Some (_, st) \<Rightarrow> held st)
     (i := (case t of None \<Rightarrow> None | Some (_, st) \<Rightarrow> held st))"
  by auto

lemma task_target_update:
  "(\<lambda>j. case (ts(i := t)) j of None \<Rightarrow> [] | Some (ctx, _) \<Rightarrow> upstream_addr ctx) =
   (\<lambda>j. case ts j of None \<Rightarrow> [] | Some (ctx, _) \<Rightarrow> upstream_addr ctx)
     (i := (case t of None \<Rightarrow> [] | Some (ctx, _) \<Rightarrow> upstream_addr ctx))"
  by auto

lemmas task_defs = task_holds_def [abs_def] task_target_def [abs_def]

lemma sys_inv_init: "sys_inv (sys_init n w)"
  unfolding sys_inv_def sys_init_def task_defs
  by (simp add: owned_new [of n, unfolded pool_new_def] pool_new_def)

lemma sys_step_inv:
  assumes "sys_step net api s s'" "sys_inv s"
  shows "sys_inv s'"
  using assms(1)
proof cases
  case (arrive i ctx req)
  have none: "task_holds s i = None" using arrive(2) by (simp add: task_holds_def)
  from assms(2) have "owned (idle_list (sys_pool s)) (max_idle_per_host (sys_pool s))
      (task_holds s) ((task_target s)(i := upstream_addr ctx)) (sys_opened s)"
    unfolding sys_inv_def using none by (rule owned_retarget)
  moreover have "task_holds s' = task_holds s"
    using none by (auto simp: arrive(1) task_holds_def fun_eq_iff)
  moreover have "task_target s' = (task_target s)(i := upstream_addr ctx)"
    by (auto simp: arrive(1) task_target_def fun_eq_iff)
  ultimately show ?thesis by (simp add: sys_inv_def arrive(1))
next
  case (move i ctx st st' p' w')
  let ?own = "\<lambda>p h. owned (idle_list p) (max_idle_per_host p) h (task_target s)"
  have holds: "task_holds s' = (task_holds s)(i := held st')"
    by (auto simp: move(1) task_holds_def fun_eq_iff)
  have target: "task_target s' = task_target s" "task_target s i = upstream_addr ctx"
    using move(2) by (auto simp: move(1) task_target_def fun_eq_iff)
  have mine: "task_holds s i = held st" using move(2) by (simp add: task_holds_def)
  from assms(2) have inv: "?own (sys_pool s) (task_holds s) (sys_opened s)" by (simp add: sys_inv_def)
  have "?own p' ((task_holds s)(i := held st')) (note_opened ctx st st' (sys_opened s))"
    using fwd_step_effect [OF move(3)]
  proof (elim disjE exE conjE)
    assume "p' = sys_pool s" "held st' = held st" "new_connection st st' = None"
    with inv mine show ?thesis by (simp add: note_opened_def fun_upd_idem)
  next
    assume "p' = sys_pool s" "held st' = None" "new_connection st st' = None"
    with inv show ?thesis by (simp add: note_opened_def owned_drop)
  next
    fix c assume c: "p' = sys_pool s" "new_connection st st' = Some c" "held st' = Some c"
    with move(4) have "sys_opened s c = None" by (simp add: fresh_connection_def)
    from owned_open [OF inv this, of i] c target(2) show ?thesis by (simp add: note_opened_def)
  next
    fix c assume "pop_idle (upstream_addr ctx) (sys_pool s) = (Some c, p')" "held st' = Some c"
      "new_connection st st' = None"
    with cp.owned_pop [OF inv, of i c p'] target(2) show ?thesis by (simp add: note_opened_def)
  next
    fix c assume c: "held st = Some c" "held st' = None" "p' = release (upstream_addr ctx) c (sys_pool s)"
      "new_connection st st' = None"
    with cp.owned_give_back [OF inv, of i c] mine target(2) show ?thesis by (simp add: note_opened_def)
  qed
  then show ?thesis by (simp add: sys_inv_def holds target(1)) (simp add: move(1))
next
  case (leave i t)
  have "task_holds s' = (task_holds s)(i := None)"
    by (auto simp: leave(1) task_holds_def fun_eq_iff)
  with assms(2) have "owned (idle_list (sys_pool s)) (max_idle_per_host (sys_pool s))
      (task_holds s') ((task_target s)(i := [])) (sys_opened s)"
    by (simp add: sys_inv_def owned_drop owned_retarget)
  moreover have "task_target s' = (task_target s)(i := [])"
    by (auto simp: leave(1) task_target_def fun_eq_iff)
  ultimately show ?thesis by (simp add: sys_inv_def leave(1))
next
  case (outside w)
  with assms(2) show ?thesis by (simp add: sys_inv_def task_defs)
qed

lemma sys_reachable_inv: "sys_reachable net api n s \<Longrightarrow> sys_inv s"
  by (induction rule: sys_reachable.induct) (auto intro: sys_inv_init sys_step_inv)

text \<open>No step changes the bound of the pool.\<close>

lemma fwd_step_cap:
  "fwd_step net api ctx (st, p, w) = (st', p', w') \<Longrightarrow> max_idle_per_host p' = max_idle_per_host p"
  by (auto dest!: fwd_step_effect cp.pop_some simp: cp.give_back_cap)

lemma sys_step_cap:
  "sys_step net api s s' \<Longrightarrow> max_idle_per_host (sys_pool s') = max_idle_per_host (sys_pool s)"
  by (erule sys_stepE) (auto dest: fwd_step_cap)

lemma sys_reachable_cap: "sys_reachable net api n s \<Longrightarrow> max_idle_per_host (sys_pool s) = n"
  by (induction rule: sys_reachable.induct) (auto simp: sys_init_def pool_new_def sys_step_cap)

subsection \<open>Runs\<close>

text \<open>Executable runs: one task's next step, and a new task.\<close>

definition sys_move ::
  "('w, 'io, 'c, 'h, 'b) net \<Rightarrow> 'h header_api \<Rightarrow> nat \<Rightarrow> ('w, 'io, 'c, 'h, 'b) fwd_sys \<Rightarrow>
   ('w, 'io, 'c, 'h, 'b) fwd_sys" where
  "sys_move net api i s =
     (case sys_tasks s i of
        None \<Rightarrow> s
      | Some (ctx, st) \<Rightarrow>
          (case fwd_step net api ctx (st, sys_pool s, sys_world s) of
             (st', p', w') \<Rightarrow>
               (if fresh_connection (sys_opened s) st st' then
                  \<lparr>sys_pool = p', sys_world = w', sys_tasks = (sys_tasks s)(i \<mapsto> (ctx, st')),
                   sys_opened = note_opened ctx st st' (sys_opened s)\<rparr>
                else s)))"

definition sys_arrive ::
  "nat \<Rightarrow> fwd_ctx \<Rightarrow> ('h, 'b) request \<Rightarrow> ('w, 'io, 'c, 'h, 'b) fwd_sys \<Rightarrow> ('w, 'io, 'c, 'h, 'b) fwd_sys" where
  "sys_arrive i ctx req s =
     (if sys_tasks s i = None then s\<lparr>sys_tasks := (sys_tasks s)(i \<mapsto> (ctx, CollectRequest req))\<rparr> else s)"

lemma sys_move_reachable:
  assumes "sys_reachable net api n s"
  shows "sys_reachable net api n (sys_move net api i s)"
proof (cases "sys_tasks s i")
  case None
  with assms show ?thesis by (simp add: sys_move_def)
next
  case (Some t)
  obtain ctx st where t: "t = (ctx, st)" by (cases t)
  obtain st' p' w' where run: "fwd_step net api ctx (st, sys_pool s, sys_world s) = (st', p', w')"
    by (metis prod_cases3)
  show ?thesis
  proof (cases "fresh_connection (sys_opened s) st st'")
    case True
    from sys_step.move [OF Some [unfolded t] run True] assms
    have "sys_reachable net api n
        \<lparr>sys_pool = p', sys_world = w', sys_tasks = (sys_tasks s)(i \<mapsto> (ctx, st')),
         sys_opened = note_opened ctx st st' (sys_opened s)\<rparr>"
      by (rule sys_reachable.step [rotated])
    with Some t run True show ?thesis by (simp add: sys_move_def)
  next
    case False
    with assms Some t run show ?thesis by (simp add: sys_move_def)
  qed
qed

lemma sys_arrive_reachable:
  "sys_reachable net api n s \<Longrightarrow> sys_reachable net api n (sys_arrive i ctx req s)"
  by (auto simp: sys_arrive_def intro: sys_reachable.step sys_step.arrive)

lemma sys_moves_reachable:
  "sys_reachable net api n s \<Longrightarrow> sys_reachable net api n (fold (sys_move net api) is s)"
  by (induction "is" arbitrary: s) (simp_all add: sys_move_reachable)

subsection \<open>Properties\<close>

text \<open>
  Whatever requests arrive, run, time out or are dropped in whatever order, a connection a
  request holds was opened for the upstream of that request, is not idle in the pool under any
  address, and is held by no other request.
\<close>
theorem connections_have_one_owner:
  assumes "sys_reachable net api n s" "task_holds s i = Some c"
  shows "sys_opened s c = Some (task_target s i) \<and>
         (\<forall>a. c \<notin> set (idle_list (sys_pool s) a)) \<and> (\<forall>j. j \<noteq> i \<longrightarrow> task_holds s j \<noteq> Some c)"
  using sys_reachable_inv [OF assms(1)] assms(2) unfolding sys_inv_def owned_def by blast

text \<open>
  In every reachable state each address has at most \<open>n\<close> idle connections, all different, and
  all opened for that address.
\<close>
theorem idle_connections_bounded:
  assumes "sys_reachable net api n s"
  shows "length (idle_list (sys_pool s) a) \<le> n \<and> distinct (idle_list (sys_pool s) a) \<and>
         (\<forall>c \<in> set (idle_list (sys_pool s) a). sys_opened s c = Some a)"
  using sys_reachable_inv [OF assms] sys_reachable_cap [OF assms]
  unfolding sys_inv_def owned_def by auto

definition example_sys :: "nat list \<Rightarrow> (nat, string, nat, (string \<times> string) list, string) fwd_sys" where
  "example_sys moves =
     fold (sys_move (numbered_net {0}) list_headers) moves
       (sys_arrive 1 example_ctx example_request
         (sys_arrive 0 example_ctx example_request (sys_init 1 0)))"

lemma example_sys_reachable: "sys_reachable (numbered_net {0}) list_headers 1 (example_sys moves)"
  unfolding example_sys_def
  by (intro sys_moves_reachable sys_arrive_reachable sys_reachable.start)

theorem connections_have_one_owner_witness:
  "task_holds (example_sys [0, 1, 0, 1, 0, 1, 1, 0]) 1 = Some 0 \<and>
   task_holds (example_sys [0, 1, 0, 1, 0, 1, 1, 0]) 0 \<noteq> Some 0"
proof -
  have "task_holds (example_sys [0, 1, 0, 1, 0, 1, 1, 0]) 1 = Some 0" by code_simp
  with connections_have_one_owner [OF example_sys_reachable this] show ?thesis by simp
qed

theorem idle_connections_bounded_witness:
  "length (idle_list (sys_pool (example_sys [0, 1, 0, 1, 0, 0, 0, 0, 0, 0, 0, 0])) ''10.0.0.1:80'') \<le> 1"
  using idle_connections_bounded [OF example_sys_reachable] by blast

end
