(* ===== verification/Request_Task.thy ===== *)
theory Request_Task
  imports Handler Forward_Tasks
begin

section \<open>A request as a task (\<open>src/handler.rs\<close>, \<open>src/proxy.rs\<close>)\<close>

text \<open>
  \<open>handle\<close> cut where other tasks may run: \<open>route_begin\<close> is what \<open>route\<close> does before its first
  suspension, on the application state and the flags it finds at that moment; an admitted request is
  then forwarded, one suspension point after the other, and \<open>handle_end\<close> is the rest of \<open>handle\<close>. Run
  without interruption the three parts are \<open>handle\<close> (\<open>handle_phases\<close>). \<open>fwd_rank\<close> bounds the moves a
  forwarded request has left, whatever the pool and the network are at each of them.
\<close>

subsection \<open>The parts of \<open>handle\<close>\<close>

type_synonym 'h routed = "proxy_error + ('h, string) response \<times> bool"

datatype 'h begun =
    Decided "'h routed"
  | Admitted fwd_ctx u64

definition route_begin ::
  "'h header_api \<Rightarrow> ('m, 's) wasm_api \<Rightarrow> req_env \<Rightarrow> ('m, 'acc) app_state \<Rightarrow> flag_heap \<Rightarrow>
   ('h, 'b) request \<Rightarrow> 'h begun" where
  "route_begin api wasm env st hp req =
     (let path = uri_path (req_uri req)
      in if path = ''/health'' then
           Decided (Ok (health_response api (env_uptime env) (length (app_routes st)) (app_tls st \<noteq> None), False))
         else
           (case find_route (app_routes st) path of
              None \<Rightarrow> Decided (Err (NoRoute path))
            | Some rs \<Rightarrow>
                (if \<not> flag_load hp (rs_healthy rs) then
                   Decided (Err (UpstreamUnhealthy (upstream (rs_route rs))))
                 else
                   (case run_on_request wasm (rs_runtime rs) (req_method req) path of
                      Inl e \<Rightarrow> Decided (Err e)
                    | Inr True \<Rightarrow> Decided (Ok (blocked_response api, True))
                    | Inr False \<Rightarrow> Admitted (forward_ctx env rs) (app_timeout_ms st)))))"

text \<open>What \<open>route\<close> makes of the result of \<open>forward\<close>.\<close>

fun routed_of :: "proxy_error + ('h, string) response \<Rightarrow> 'h routed" where
  "routed_of (Inl e) = Err e"
| "routed_of (Inr resp) = Ok (resp, False)"

definition handle_end ::
  "'h header_api \<Rightarrow> u64 \<Rightarrow> 'h routed \<Rightarrow> metrics \<Rightarrow> ('h, string) response outcome \<times> metrics" where
  "handle_end api elapsed_ms r m =
     (case r of
        Inr (resp, blocked) \<Rightarrow>
          (if \<not> hv_from_str api (response_time_value elapsed_ms) then (Panicked, m)
           else
             (let resp' = resp\<lparr>resp_headers := hm_insert api ''x-response-time''
                            (response_time_value elapsed_ms) (resp_headers resp)\<rparr>
              in (Returned resp', metrics_record (resp_status resp') elapsed_ms blocked m)))
      | Inl e \<Rightarrow>
          (Returned (error_response api e), metrics_record (resp_status (error_response api e)) elapsed_ms False m))"

lemma route_phases:
  "route api net wasm env st hp req p w =
     (case route_begin api wasm env st hp req of
        Decided r \<Rightarrow> (Returned r, p, w)
      | Admitted ctx timeout \<Rightarrow>
          (case forward net api ctx timeout (env_steps env) req p w of
             (Panicked, p1, w1) \<Rightarrow> (Panicked, p1, w1)
           | (Returned x, p1, w1) \<Rightarrow> (Returned (routed_of x), p1, w1)))"
  by (auto simp: route_def route_begin_def Let_def
      split: option.split sum.split bool.split prod.split outcome.split)

lemma handle_phases:
  "uri_path (req_uri req) \<noteq> ''/metrics'' \<Longrightarrow>
   handle api net wasm env st hp req p w m =
     (case route_begin api wasm env st hp req of
        Decided r \<Rightarrow> (case handle_end api (env_elapsed_ms env) r m of (x, m1) \<Rightarrow> (x, p, w, m1))
      | Admitted ctx timeout \<Rightarrow>
          (case forward net api ctx timeout (env_steps env) req p w of
             (Panicked, p1, w1) \<Rightarrow> (Panicked, p1, w1, m)
           | (Returned x, p1, w1) \<Rightarrow>
               (case handle_end api (env_elapsed_ms env) (routed_of x) m of (y, m1) \<Rightarrow> (y, p1, w1, m1))))"
  unfolding handle_def route_phases
  by (auto simp: handle_end_def Let_def
      split: begun.split sum.split bool.split prod.split outcome.split)

text \<open>The last part under the laws of header maps: one response, one observation.\<close>

fun routed_status :: "'h routed \<Rightarrow> u16" where
  "routed_status (Inl e) = fst (error_status_body e)"
| "routed_status (Inr (resp, blocked)) = resp_status resp"

fun routed_blocked :: "'h routed \<Rightarrow> bool" where
  "routed_blocked (Inl e) = False"
| "routed_blocked (Inr (resp, blocked)) = blocked"

lemma handle_end_records:
  assumes "header_laws api"
  obtains resp where "resp_status resp = routed_status r"
    "handle_end api ms r m = (Returned resp, metrics_record (routed_status r) ms (routed_blocked r) m)"
proof (cases r)
  case (Inl e)
  then show ?thesis
    by (intro that [of "error_response api e"]) (simp_all add: handle_end_def resp_status_error)
next
  case (Inr x)
  obtain resp blocked where x: "x = (resp, blocked)" by (cases x)
  have "hv_from_str api (response_time_value ms)" using assms by (simp add: hv_from_str_visible)
  with Inr x show ?thesis
    by (intro that [of "resp\<lparr>resp_headers := hm_insert api ''x-response-time'' (response_time_value ms)
          (resp_headers resp)\<rparr>"]) (simp_all add: handle_end_def)
qed

subsection \<open>The moves left\<close>

fun fwd_rank :: "('io, 'c, 'h, 'b) fwd \<Rightarrow> nat" where
  "fwd_rank (CollectRequest req) = 10"
| "fwd_rank (Acquire parts) = 9"
| "fwd_rank (Connect FirstTry parts) = 8"
| "fwd_rank (Handshake FirstTry io parts) = 7"
| "fwd_rank (Send FirstTry c parts) = 6"
| "fwd_rank (Connect Retry parts) = 5"
| "fwd_rank (Handshake Retry io parts) = 4"
| "fwd_rank (Send Retry c parts) = 3"
| "fwd_rank (GiveBack c resp) = 2"
| "fwd_rank (CollectResponse resp) = 1"
| "fwd_rank (Finished r) = 0"
| "fwd_rank FwdPanicked = 0"

lemma fwd_rank_0: "fwd_rank st = 0 \<longleftrightarrow> fwd_result st \<noteq> None"
  by (cases st rule: fwd_rank.cases) simp_all

lemma fwd_step_rank:
  assumes "fwd_step net api ctx (st, p, w) = (st', p', w')" "fwd_result st = None"
  shows "fwd_rank st' < fwd_rank st"
  using assms
  by (cases st rule: fwd_rank.cases) (auto split: prod.splits sum.splits option.splits)

lemma fwd_step_keeps_running:
  assumes "header_laws api" "fwd_step net api ctx (st, p, w) = (st', p', w')" "st \<noteq> FwdPanicked"
  shows "st' \<noteq> FwdPanicked"
  using fwd_step_no_panic assms by (metis fst_conv)

end
