(* ===== verification/Order_Task.thy ===== *)
theory Order_Task
  imports Acme_Laws
begin

section \<open>An ACME order as a task (\<open>src/acme.rs\<close>)\<close>

text \<open>
  \<open>provision_with_store\<close> cut into the steps between which other tasks run: one call of the ACME client,
  one sleep, one write to the challenge store or one file operation each. The phase holds the local
  variables that are still needed. Without interruption the steps are \<open>provision_with_store\<close>
  (\<open>order_run_provision\<close>).
\<close>

subsection \<open>The steps\<close>

datatype ('acct, 'ord, 'kp) ordering =
    CheckLock
  | TakeLock
  | CreateAccount
  | PlaceOrder 'acct
  | FetchAuthorizations 'ord
  | StoreTokens 'ord "challenge list list" nat "string list"
  | Announce 'ord "challenge list list" "string list"
  | SleepReady 'ord "challenge list list" nat
  | AskReady 'ord "challenge list list" nat
  | RequestCert 'ord "challenge list list"
  | SleepCert 'ord 'kp nat
  | AskCert 'ord 'kp nat
  | WriteCert string string
  | WriteKey string string
  | RenameCert string string
  | RenameKey string string
  | WriteIssued string string
  | CleanUp "proxy_error + string \<times> string"
  | ClearStore "proxy_error + string \<times> string"
  | Ordered "proxy_error + string \<times> string"

text \<open>
  \<open>StoreTokens ord auths k urls\<close> is in the loop over the authorizations, at the \<open>k\<close>-th. A call of the
  inner function that fails makes it return, after which the caller cleans up.
\<close>

definition proceed ::
  "('acct, 'ord, 'kp) ordering \<Rightarrow> ('w, 'a) act \<Rightarrow> ('a \<Rightarrow> 'w prov \<Rightarrow> ('acct, 'ord, 'kp) ordering) \<Rightarrow>
   'w prov \<Rightarrow> ('acct, 'ord, 'kp) ordering \<times> 'w prov" where
  "proceed ph m next s =
     (case m s of
        None \<Rightarrow> (ph, s)
      | Some (Inl e, s1) \<Rightarrow> (CleanUp (Err e), s1)
      | Some (Inr x, s1) \<Rightarrow> (next x s1, s1))"

definition store_token ::
  "('w, 'acct, 'ord, 'par, 'kp, 'csr) acme_api \<Rightarrow> 'ord \<Rightarrow> challenge list \<Rightarrow> ('w, challenge) act" where
  "store_token api ord auth =
     act_bind (act_result (http01_challenge auth)) (\<lambda>c.
     act_bind (act_do (\<lambda>s. s\<lparr>pv_store := (pv_store s)(ch_token c \<mapsto> acme_key_authorization api ord c)\<rparr>)) (\<lambda>_.
     act_return c))"

fun order_step ::
  "('w, 'acct, 'ord, 'par, 'kp, 'csr) acme_api \<Rightarrow> faults \<Rightarrow> tls_config \<Rightarrow> ('acct, 'ord, 'kp) ordering \<Rightarrow>
   'w prov \<Rightarrow> ('acct, 'ord, 'kp) ordering \<times> 'w prov" where
  "order_step api faults tc CheckLock s =
     (case fs_create_dir_all faults (pv_files s) (cache_dir tc) of
        Inl e \<Rightarrow> (Ordered (Err (AcmeError (''create cache_dir: '' @ e))), s)
      | Inr _ \<Rightarrow>
          (if fs_exists faults (pv_files s) (lock_path (cache_dir tc)) then
             (Ordered (Err (AcmeError ''another renewal is in progress (.renewing exists)'')), s)
           else (TakeLock, s)))"
| "order_step api faults tc TakeLock s =
     (case fs_write faults (pv_files s) (lock_path (cache_dir tc)) [] of
        (Inl e, fs) \<Rightarrow> (Ordered (Err (AcmeError (''create lockfile: '' @ e))), s\<lparr>pv_files := fs\<rparr>)
      | (Inr _, fs) \<Rightarrow> (CreateAccount, s\<lparr>pv_files := fs\<rparr>))"
| "order_step api faults tc CreateAccount s =
     proceed CreateAccount
       (on_world (acme_account api (''mailto:'' @ acme_email tc) (acme_directory tc)) ''create account: '')
       (\<lambda>account _. PlaceOrder account) s"
| "order_step api faults tc (PlaceOrder account) s =
     proceed (PlaceOrder account) (on_world (acme_new_order api account (domains tc)) ''new order: '')
       (\<lambda>ord _. FetchAuthorizations ord) s"
| "order_step api faults tc (FetchAuthorizations ord) s =
     proceed (FetchAuthorizations ord) (on_world (acme_authorizations api ord) ''get authorizations: '')
       (\<lambda>auths _. StoreTokens ord auths 0 []) s"
| "order_step api faults tc (StoreTokens ord auths k urls) s =
     (if k < length auths then
        proceed (StoreTokens ord auths k urls) (store_token api ord (auths ! k))
          (\<lambda>c _. StoreTokens ord auths (Suc k) (urls @ [ch_url c])) s
      else (Announce ord auths urls, s))"
| "order_step api faults tc (Announce ord auths []) s =
     (SleepReady ord auths (acme_instant api (pv_world s) + seconds 120), s)"
| "order_step api faults tc (Announce ord auths (url # urls)) s =
     proceed (Announce ord auths (url # urls)) (on_world (acme_set_ready api ord url) ''set challenge ready: '')
       (\<lambda>_ _. Announce ord auths urls) s"
| "order_step api faults tc (SleepReady ord auths deadline) s =
     proceed (SleepReady ord auths deadline) (sleep_for api 3) (\<lambda>_ _. AskReady ord auths deadline) s"
| "order_step api faults tc (AskReady ord auths deadline) s =
     proceed (AskReady ord auths deadline) (on_world (acme_refresh api ord) ''refresh order: '')
       (\<lambda>status s1.
          if status = OrderReady then RequestCert ord auths
          else if status = OrderInvalid then CleanUp (Err (AcmeError ''ACME order became invalid''))
          else if deadline < acme_instant api (pv_world s1)
          then CleanUp (Err (AcmeError ''ACME order timed out after 120s''))
          else SleepReady ord auths deadline) s"
| "order_step api faults tc (RequestCert ord auths) s =
     proceed (RequestCert ord auths) (request_cert api tc ord)
       (\<lambda>key_pair s1. SleepCert ord key_pair (acme_instant api (pv_world s1) + seconds 60)) s"
| "order_step api faults tc (SleepCert ord key_pair deadline) s =
     proceed (SleepCert ord key_pair deadline) (sleep_for api 2) (\<lambda>_ _. AskCert ord key_pair deadline) s"
| "order_step api faults tc (AskCert ord key_pair deadline) s =
     proceed (AskCert ord key_pair deadline) (on_world (acme_certificate api ord) ''get certificate: '')
       (\<lambda>cert s1.
          case cert of
            Some chain \<Rightarrow> WriteCert chain (rcgen_key_pem api key_pair)
          | None \<Rightarrow>
              if deadline < acme_instant api (pv_world s1)
              then CleanUp (Err (AcmeError ''cert not ready after 60s''))
              else SleepCert ord key_pair deadline) s"
| "order_step api faults tc (WriteCert cert key) s =
     proceed (WriteCert cert key)
       (on_files (\<lambda>fs. fs_write faults fs (cert_tmp_path (cache_dir tc)) cert) ''write cert.pem.tmp: '')
       (\<lambda>_ _. WriteKey cert key) s"
| "order_step api faults tc (WriteKey cert key) s =
     proceed (WriteKey cert key)
       (on_files (\<lambda>fs. fs_write faults fs (key_tmp_path (cache_dir tc)) key) ''write key.pem.tmp: '')
       (\<lambda>_ _. RenameCert cert key) s"
| "order_step api faults tc (RenameCert cert key) s =
     proceed (RenameCert cert key)
       (on_files (\<lambda>fs. fs_rename faults fs (cert_tmp_path (cache_dir tc)) (cert_pem_path (cache_dir tc)))
          ''rename cert.pem: '')
       (\<lambda>_ _. RenameKey cert key) s"
| "order_step api faults tc (RenameKey cert key) s =
     proceed (RenameKey cert key)
       (on_files (\<lambda>fs. fs_rename faults fs (key_tmp_path (cache_dir tc)) (key_pem_path (cache_dir tc)))
          ''rename key.pem: '')
       (\<lambda>_ _. WriteIssued cert key) s"
| "order_step api faults tc (WriteIssued cert key) s =
     proceed (WriteIssued cert key) (write_issued_at api faults (cache_dir tc)) (\<lambda>_ _. CleanUp (Ok (cert, key))) s"
| "order_step api faults tc (CleanUp r) s =
     (ClearStore r, s\<lparr>pv_files := clean_up faults (cache_dir tc) (\<not> is_ok r) (pv_files s)\<rparr>)"
| "order_step api faults tc (ClearStore r) s = (Ordered r, s\<lparr>pv_store := Map.empty\<rparr>)"
| "order_step api faults tc (Ordered r) s = (Ordered r, s)"

primrec order_run ::
  "('w, 'acct, 'ord, 'par, 'kp, 'csr) acme_api \<Rightarrow> faults \<Rightarrow> tls_config \<Rightarrow> nat \<Rightarrow>
   ('acct, 'ord, 'kp) ordering \<times> 'w prov \<Rightarrow> ('acct, 'ord, 'kp) ordering \<times> 'w prov" where
  "order_run api faults tc 0 x = x"
| "order_run api faults tc (Suc n) x = order_run api faults tc n (order_step api faults tc (fst x) (snd x))"

subsection \<open>The steps are the function\<close>

definition leads ::
  "('w, 'acct, 'ord, 'par, 'kp, 'csr) acme_api \<Rightarrow> faults \<Rightarrow> tls_config \<Rightarrow> ('acct, 'ord, 'kp) ordering \<Rightarrow>
   'w prov \<Rightarrow> ('acct, 'ord, 'kp) ordering \<Rightarrow> 'w prov \<Rightarrow> bool" where
  "leads api faults tc ph s ph' s' \<longleftrightarrow> (\<exists>n. order_run api faults tc n (ph, s) = (ph', s'))"

lemma order_run_add: "order_run api faults tc (m + n) x = order_run api faults tc n (order_run api faults tc m x)"
  by (induction m arbitrary: x) simp_all

lemma leads_refl [simp]: "leads api faults tc ph s ph s"
  by (auto simp: leads_def intro: exI [of _ 0])

lemma leads_trans:
  "leads api faults tc ph s ph1 s1 \<Longrightarrow> leads api faults tc ph1 s1 ph2 s2 \<Longrightarrow> leads api faults tc ph s ph2 s2"
  unfolding leads_def by (metis order_run_add)

lemma leads_step: "order_step api faults tc ph s = (ph1, s1) \<Longrightarrow> leads api faults tc ph s ph1 s1"
  by (auto simp: leads_def intro: exI [of _ 1])

text \<open>
  \<open>performs ph m next s\<close>: from phase \<open>ph\<close> in \<open>s\<close>, the steps do what \<open>m\<close> does, then are in phase \<open>next\<close>,
  or clean up when \<open>m\<close> fails.
\<close>

definition performs ::
  "('w, 'acct, 'ord, 'par, 'kp, 'csr) acme_api \<Rightarrow> faults \<Rightarrow> tls_config \<Rightarrow> ('acct, 'ord, 'kp) ordering \<Rightarrow>
   ('w, 'a) act \<Rightarrow> ('a \<Rightarrow> 'w prov \<Rightarrow> ('acct, 'ord, 'kp) ordering) \<Rightarrow> 'w prov \<Rightarrow> bool" where
  "performs api faults tc ph m next s \<longleftrightarrow>
     (\<forall>r s1. m s = Some (r, s1) \<longrightarrow>
        leads api faults tc ph s (case r of Inl e \<Rightarrow> CleanUp (Err e) | Inr x \<Rightarrow> next x s1) s1)"

lemma performs_step:
  assumes "order_step api faults tc ph s = proceed ph m next s"
  shows "performs api faults tc ph m next s"
  unfolding performs_def
proof (intro allI impI)
  fix r s1 assume "m s = Some (r, s1)"
  with assms show "leads api faults tc ph s (case r of Inl e \<Rightarrow> CleanUp (Err e) | Inr x \<Rightarrow> next x s1) s1"
    by (intro leads_step) (simp add: proceed_def split: sum.split)
qed

lemma performs_bind:
  assumes "performs api faults tc ph m next s"
    and "\<And>x s1. m s = Some (Inr x, s1) \<Longrightarrow> performs api faults tc (next x s1) (f x) next' s1"
  shows "performs api faults tc ph (act_bind m f) next' s"
  unfolding performs_def
proof (intro allI impI)
  fix r s2 assume run: "act_bind m f s = Some (r, s2)"
  then consider (failed) e where "m s = Some (Inl e, s2)" "r = Inl e"
    | (went_on) x s1 where "m s = Some (Inr x, s1)" "f x s1 = Some (r, s2)"
    by (auto simp: act_simps)
  then show "leads api faults tc ph s (case r of Inl e \<Rightarrow> CleanUp (Err e) | Inr x \<Rightarrow> next' x s2) s2"
  proof cases
    case failed
    with assms(1) show ?thesis by (force simp: performs_def)
  next
    case went_on
    with assms(1) have "leads api faults tc ph s (next x s1) s1" by (force simp: performs_def)
    moreover have "leads api faults tc (next x s1) s1 (case r of Inl e \<Rightarrow> CleanUp (Err e) | Inr x \<Rightarrow> next' x s2) s2"
      using assms(2) [OF went_on(1)] went_on(2) by (simp add: performs_def)
    ultimately show ?thesis by (rule leads_trans)
  qed
qed

text \<open>A silent step before the first.\<close>

lemma performs_before:
  assumes "order_step api faults tc ph s = (ph1, s)" "performs api faults tc ph1 m next s"
  shows "performs api faults tc ph m next s"
  using assms leads_trans [OF leads_step [OF assms(1)]] by (auto simp: performs_def)

lemma begin_order_steps:
  "performs api faults tc CreateAccount (begin_order api tc) (\<lambda>(ord, auths) _. StoreTokens ord auths 0 []) s"
  unfolding begin_order_def
proof (intro performs_bind)
  show "performs api faults tc CreateAccount
      (on_world (acme_account api (''mailto:'' @ acme_email tc) (acme_directory tc)) ''create account: '')
      (\<lambda>account _. PlaceOrder account) s" by (rule performs_step) simp
  show "performs api faults tc (PlaceOrder account) (on_world (acme_new_order api account (domains tc)) ''new order: '')
      (\<lambda>ord _. FetchAuthorizations ord) s1" for account s1 by (rule performs_step) simp
  show "performs api faults tc (FetchAuthorizations ord) (on_world (acme_authorizations api ord) ''get authorizations: '')
      (\<lambda>auths _. StoreTokens ord auths 0 []) s2" for ord s2 by (rule performs_step) simp
  show "performs api faults tc (StoreTokens ord auths 0 []) (act_return (ord, auths))
      (\<lambda>(ord, auths) _. StoreTokens ord auths 0 []) s3" for ord auths s3
    by (simp add: performs_def act_simps)
qed

lemma act_bind_assoc: "act_bind (act_bind m f) g = act_bind m (\<lambda>x. act_bind (f x) g)"
  by (rule ext) (simp add: act_bind_def split: option.split prod.split sum.split)

lemma act_bind_return: "act_bind (act_return x) f = f x"
  by (rule ext) (simp add: act_bind_def act_return_def)

lemma store_challenges_steps:
  "k \<le> length auths \<Longrightarrow>
   performs api faults tc (StoreTokens ord auths k urls) (store_challenges api ord (drop k auths) urls)
     (\<lambda>urls _. Announce ord auths urls) s"
proof (induction "length auths - k" arbitrary: k urls s)
  case 0
  then have k: "k = length auths" by simp
  show ?case
    by (rule performs_before [of api faults tc _ _ "Announce ord auths urls"]) (simp_all add: k performs_def act_simps)
next
  case (Suc n k urls s)
  then have k: "k < length auths" and more: "n = length auths - Suc k" by simp_all
  have "store_challenges api ord (drop k auths) urls =
      act_bind (store_token api ord (auths ! k)) (\<lambda>c. store_challenges api ord (drop (Suc k) auths) (urls @ [ch_url c]))"
    by (simp add: Cons_nth_drop_Suc [OF k, symmetric] store_token_def act_bind_assoc act_bind_return)
  moreover have "performs api faults tc (StoreTokens ord auths k urls) (store_token api ord (auths ! k))
      (\<lambda>c _. StoreTokens ord auths (Suc k) (urls @ [ch_url c])) s"
    by (rule performs_step) (simp add: k)
  ultimately show ?case using Suc.hyps(1) [OF more] k by (auto intro: performs_bind)
qed

lemma announce_steps:
  "performs api faults tc (Announce ord auths urls) (announce_ready api ord urls)
     (\<lambda>_ s1. SleepReady ord auths (acme_instant api (pv_world s1) + seconds 120)) s"
proof (induction urls arbitrary: s)
  case Nil
  show ?case by (rule performs_before [OF order_step.simps(7)]) (simp add: performs_def act_simps)
next
  case (Cons url urls s)
  have "performs api faults tc (Announce ord auths (url # urls))
      (on_world (acme_set_ready api ord url) ''set challenge ready: '') (\<lambda>_ _. Announce ord auths urls) s"
    by (rule performs_step) simp
  with Cons.IH show ?case by (auto intro: performs_bind)
qed

lemma poll_ready_steps:
  "performs api faults tc (SleepReady ord auths deadline) (poll_ready api ord deadline fuel)
     (\<lambda>_ _. RequestCert ord auths) s"
proof (induction fuel arbitrary: s)
  case 0
  then show ?case by (simp add: performs_def)
next
  case (Suc fuel s)
  have sleep: "performs api faults tc (SleepReady ord auths deadline) (sleep_for api 3) (\<lambda>_ _. AskReady ord auths deadline) s"
    by (rule performs_step) simp
  have ask: "performs api faults tc (AskReady ord auths deadline) (on_world (acme_refresh api ord) ''refresh order: '')
      (\<lambda>status s1.
          if status = OrderReady then RequestCert ord auths
          else if status = OrderInvalid then CleanUp (Err (AcmeError ''ACME order became invalid''))
          else if deadline < acme_instant api (pv_world s1)
          then CleanUp (Err (AcmeError ''ACME order timed out after 120s''))
          else SleepReady ord auths deadline) s1" for s1
    by (rule performs_step) simp
  show ?case unfolding poll_ready.simps
    by (intro performs_bind [OF sleep] performs_bind [OF ask]) (use Suc.IH in \<open>simp add: performs_def act_simps\<close>)
qed

lemma download_cert_until_steps:
  "performs api faults tc (SleepCert ord key_pair deadline) (download_cert_until api ord deadline fuel)
     (\<lambda>chain _. WriteCert chain (rcgen_key_pem api key_pair)) s"
proof (induction fuel arbitrary: s)
  case 0
  then show ?case by (simp add: performs_def)
next
  case (Suc fuel s)
  have sleep: "performs api faults tc (SleepCert ord key_pair deadline) (sleep_for api 2)
      (\<lambda>_ _. AskCert ord key_pair deadline) s"
    by (rule performs_step) simp
  have ask: "performs api faults tc (AskCert ord key_pair deadline) (on_world (acme_certificate api ord) ''get certificate: '')
      (\<lambda>cert s1.
          case cert of
            Some chain \<Rightarrow> WriteCert chain (rcgen_key_pem api key_pair)
          | None \<Rightarrow>
              if deadline < acme_instant api (pv_world s1)
              then CleanUp (Err (AcmeError ''cert not ready after 60s''))
              else SleepCert ord key_pair deadline) s1" for s1
    by (rule performs_step) simp
  show ?case unfolding download_cert_until.simps
    by (intro performs_bind [OF sleep] performs_bind [OF ask])
      (use Suc.IH in \<open>simp add: performs_def act_simps split: option.split\<close>)
qed

lemma install_steps:
  "performs api faults tc (WriteCert cert key) (install_pair faults (cache_dir tc) cert key)
     (\<lambda>_ _. WriteIssued cert key) s"
  unfolding install_pair_def
proof (intro performs_bind)
  show "performs api faults tc (WriteCert cert key)
      (on_files (\<lambda>fs. fs_write faults fs (cert_tmp_path (cache_dir tc)) cert) ''write cert.pem.tmp: '')
      (\<lambda>_ _. WriteKey cert key) s" by (rule performs_step) simp
  show "performs api faults tc (WriteKey cert key)
      (on_files (\<lambda>fs. fs_write faults fs (key_tmp_path (cache_dir tc)) key) ''write key.pem.tmp: '')
      (\<lambda>_ _. RenameCert cert key) s1" for s1 by (rule performs_step) simp
  show "performs api faults tc (RenameCert cert key)
      (on_files (\<lambda>fs. fs_rename faults fs (cert_tmp_path (cache_dir tc)) (cert_pem_path (cache_dir tc)))
        ''rename cert.pem: '') (\<lambda>_ _. RenameKey cert key) s1" for s1 by (rule performs_step) simp
  show "performs api faults tc (RenameKey cert key)
      (on_files (\<lambda>fs. fs_rename faults fs (key_tmp_path (cache_dir tc)) (key_pem_path (cache_dir tc)))
        ''rename key.pem: '') (\<lambda>_ _. WriteIssued cert key) s1" for s1 by (rule performs_step) simp
qed

lemma wait_ready_steps:
  "performs api faults tc (SleepReady ord auths (acme_instant api (pv_world s) + seconds 120)) (wait_ready api fuel ord)
     (\<lambda>_ _. RequestCert ord auths) s"
  using poll_ready_steps by (simp add: performs_def wait_ready_def)

lemma wait_cert_steps:
  "performs api faults tc (SleepCert ord key_pair (acme_instant api (pv_world s) + seconds 60)) (wait_cert api fuel ord)
     (\<lambda>chain _. WriteCert chain (rcgen_key_pem api key_pair)) s"
  using download_cert_until_steps by (simp add: performs_def wait_cert_def)

lemma order_with_store_steps:
  "performs api faults tc CreateAccount (order_with_store api fuel tc) (\<lambda>(cert, key) _. WriteCert cert key) s"
proof -
  have rest: "performs api faults tc (StoreTokens ord auths 0 [])
     (act_bind (store_challenges api ord auths []) (\<lambda>urls.
      act_bind (announce_ready api ord urls) (\<lambda>_.
      act_bind (wait_ready api fuel ord) (\<lambda>_.
      act_bind (request_cert api tc ord) (\<lambda>key_pair.
      act_bind (wait_cert api fuel ord) (\<lambda>cert_chain_pem.
      act_return (cert_chain_pem, rcgen_key_pem api key_pair)))))))
     (\<lambda>(cert, key) _. WriteCert cert key) s1" for ord auths s1
  proof (intro performs_bind)
    show "performs api faults tc (StoreTokens ord auths 0 []) (store_challenges api ord auths [])
        (\<lambda>urls _. Announce ord auths urls) s1"
      using store_challenges_steps [of 0 auths] by simp
    show "performs api faults tc (RequestCert ord auths) (request_cert api tc ord)
        (\<lambda>key_pair s. SleepCert ord key_pair (acme_instant api (pv_world s) + seconds 60)) s2" for s2
      by (rule performs_step) simp
  qed (rule announce_steps wait_ready_steps wait_cert_steps | simp add: performs_def act_simps)+
  show ?thesis unfolding order_with_store_def
  proof (rule performs_bind [OF begin_order_steps])
    fix x s1
    show "performs api faults tc ((case x of (ord, auths) \<Rightarrow> \<lambda>_. StoreTokens ord auths 0 []) s1)
        (case x of (ord, auths) \<Rightarrow> act_bind (store_challenges api ord auths []) (\<lambda>urls.
          act_bind (announce_ready api ord urls) (\<lambda>_.
          act_bind (wait_ready api fuel ord) (\<lambda>_.
          act_bind (request_cert api tc ord) (\<lambda>key_pair.
          act_bind (wait_cert api fuel ord) (\<lambda>cert_chain_pem.
          act_return (cert_chain_pem, rcgen_key_pem api key_pair)))))))
        (\<lambda>(cert, key) _. WriteCert cert key) s1"
      using rest by (cases x) simp
  qed
qed

lemma inner_steps:
  "performs api faults tc CreateAccount (provision_inner_with_store api faults fuel tc) (\<lambda>ck _. CleanUp (Ok ck)) s"
proof -
  have rest: "performs api faults tc (WriteCert cert key)
      (act_bind (install_pair faults (cache_dir tc) cert key) (\<lambda>_.
       act_bind (write_issued_at api faults (cache_dir tc)) (\<lambda>_. act_return (cert, key))))
      (\<lambda>ck _. CleanUp (Ok ck)) s1" for cert key s1
  proof (intro performs_bind)
    show "performs api faults tc (WriteIssued cert key) (write_issued_at api faults (cache_dir tc))
        (\<lambda>_ _. CleanUp (Ok (cert, key))) s2" for s2
      by (rule performs_step) simp
  qed (rule install_steps | simp add: performs_def act_simps)+
  show ?thesis unfolding provision_inner_with_store_def
  proof (rule performs_bind [OF order_with_store_steps])
    fix x s1
    show "performs api faults tc ((case x of (cert, key) \<Rightarrow> \<lambda>_. WriteCert cert key) s1)
        (case x of (cert_chain_pem, key_pem) \<Rightarrow>
           act_bind (install_pair faults (cache_dir tc) cert_chain_pem key_pem) (\<lambda>_.
           act_bind (write_issued_at api faults (cache_dir tc)) (\<lambda>_. act_return (cert_chain_pem, key_pem))))
        (\<lambda>ck _. CleanUp (Ok ck)) s1"
      using rest by (cases x) simp
  qed
qed

text \<open>Without interruption the steps end with what \<open>provision_with_store\<close> returns.\<close>

theorem order_run_provision:
  assumes "provision_with_store api faults fuel tc s = Some (r, s')"
  shows "leads api faults tc CheckLock s (Ordered r) s'"
proof (cases "\<exists>s1. order_step api faults tc CheckLock s = (Ordered r, s1) \<and> s' = s1")
  case True
  then show ?thesis using leads_step by blast
next
  case False
  with assms have free: "order_step api faults tc CheckLock s = (TakeLock, s)"
    by (auto simp: provision_with_store_def with_lock_def split: sum.splits if_splits)
  from assms free obtain r1 fs where lock: "fs_write faults (pv_files s) (lock_path (cache_dir tc)) [] = (r1, fs)"
    by (cases "fs_write faults (pv_files s) (lock_path (cache_dir tc)) []")
  from assms free have go: "act_bind (on_files (\<lambda>fs. fs_write faults fs (lock_path (cache_dir tc)) []) ''create lockfile: '')
      (\<lambda>_. run_locked faults (cache_dir tc) (\<lambda>s. s\<lparr>pv_store := Map.empty\<rparr>) (provision_inner_with_store api faults fuel tc)) s =
      Some (r, s')"
    by (auto simp: provision_with_store_def with_lock_def split: sum.splits if_splits)
  have "leads api faults tc TakeLock s (Ordered r) s'"
  proof (cases r1)
    case (Inl e)
    with go lock show ?thesis
      by (intro leads_step) (auto simp: act_simps)
  next
    case (Inr u)
    let ?s = "s\<lparr>pv_files := fs\<rparr>"
    from go lock Inr obtain s1 where inner: "provision_inner_with_store api faults fuel tc ?s = Some (r, s1)"
      and s': "s' = (s1\<lparr>pv_files := clean_up faults (cache_dir tc) (\<not> is_ok r) (pv_files s1)\<rparr>)\<lparr>pv_store := Map.empty\<rparr>"
      by (auto simp: act_simps run_locked_def)
    have "leads api faults tc TakeLock s CreateAccount ?s" using lock Inr by (intro leads_step) simp
    moreover have "leads api faults tc CreateAccount ?s (CleanUp r) s1"
      using inner_steps [of api faults tc fuel ?s] inner by (cases r) (auto simp: performs_def)
    moreover have "leads api faults tc (CleanUp r) s1 (ClearStore r)
        (s1\<lparr>pv_files := clean_up faults (cache_dir tc) (\<not> is_ok r) (pv_files s1)\<rparr>)"
      by (rule leads_step) simp
    moreover have "leads api faults tc (ClearStore r)
        (s1\<lparr>pv_files := clean_up faults (cache_dir tc) (\<not> is_ok r) (pv_files s1)\<rparr>) (Ordered r) s'"
      by (rule leads_step) (simp add: s')
    ultimately show ?thesis by (blast intro: leads_trans)
  qed
  with leads_step [OF free] show ?thesis by (rule leads_trans)
qed

end
