(* ===== verification/Order_Laws.thy ===== *)
theory Order_Laws
  imports Order_Task
begin

section \<open>What an order guarantees step by step\<close>

text \<open>
  An order reaches its result from every phase when nothing interrupts it and the clock runs on
  (\<open>order_always_ends\<close>). \<open>order_step_frame\<close> bounds the files a step touches; \<open>order_disk\<close> and
  \<open>order_store\<close> say what the cache directory and the challenge store hold in each phase, whatever runs
  between the steps.
\<close>

subsection \<open>The order ends\<close>

text \<open>Left alone, an order reaches its result from every phase when the clock runs on.\<close>

definition order_ends ::
  "('w, 'acct, 'ord, 'par, 'kp, 'csr) acme_api \<Rightarrow> faults \<Rightarrow> tls_config \<Rightarrow> ('acct, 'ord, 'kp) ordering \<Rightarrow>
   'w prov \<Rightarrow> bool" where
  "order_ends api faults tc ph s \<longleftrightarrow> (\<exists>r s'. leads api faults tc ph s (Ordered r) s')"

lemma ends_leads: "leads api faults tc ph s ph1 s1 \<Longrightarrow> order_ends api faults tc ph1 s1 \<Longrightarrow> order_ends api faults tc ph s"
  unfolding order_ends_def by (blast intro: leads_trans)

lemma ends_step: "order_step api faults tc ph s = (ph1, s1) \<Longrightarrow> order_ends api faults tc ph1 s1 \<Longrightarrow> order_ends api faults tc ph s"
  by (blast intro: ends_leads leads_step)

lemma ends_ordered [simp]: "order_ends api faults tc (Ordered r) s"
  unfolding order_ends_def by (blast intro: leads_refl)

lemma ends_clear [simp]: "order_ends api faults tc (ClearStore r) s"
  by (rule ends_step [OF order_step.simps(20)]) simp

lemma ends_clean_up [simp]: "order_ends api faults tc (CleanUp r) s"
  by (rule ends_step [OF order_step.simps(19)]) simp

lemma ends_performs:
  assumes "performs api faults tc ph m next s" "m s \<noteq> None" "\<And>x s1. order_ends api faults tc (next x s1) s1"
  shows "order_ends api faults tc ph s"
proof -
  from assms(2) obtain r s1 where "m s = Some (r, s1)" by auto
  with assms(1) have "leads api faults tc ph s (case r of Inl e \<Rightarrow> CleanUp (Err e) | Inr x \<Rightarrow> next x s1) s1"
    by (simp add: performs_def)
  then show ?thesis using assms(3) by (auto intro: ends_leads split: sum.splits)
qed

lemma ends_returns:
  "performs api faults tc ph m next s \<Longrightarrow> returns m \<Longrightarrow> (\<And>x s1. order_ends api faults tc (next x s1) s1) \<Longrightarrow>
   order_ends api faults tc ph s"
  unfolding returns_def by (blast intro: ends_performs)

lemma ends_proceed:
  assumes "order_step api faults tc ph s = proceed ph m next s" "returns m"
    and "\<And>x s1. order_ends api faults tc (next x s1) s1"
  shows "order_ends api faults tc ph s"
  by (rule ends_returns [OF performs_step [OF assms(1)] assms(2,3)])

lemma returns_sleep [returning]: "returns (sleep_for api n)"
  unfolding sleep_for_def by (intro returning)

lemma returns_store_token [returning]: "returns (store_token api ord auth)"
  unfolding store_token_def by (intro returning)

lemma ends_write_issued: "order_ends api faults tc (WriteIssued cert key) s"
  by (rule ends_proceed [OF order_step.simps(18)]) (auto intro: returning)

lemma ends_write_cert: "order_ends api faults tc (WriteCert cert key) s"
  by (rule ends_returns [OF install_steps returns_install]) (rule ends_write_issued)

text \<open>A loop with a deadline: enough turns for the time that is left.\<close>

lemma ends_sleep_cert:
  assumes "clock_laws api"
  shows "order_ends api faults tc (SleepCert ord key_pair deadline) s"
proof (cases "acme_instant api (pv_world s) \<le> deadline")
  case True
  have "download_cert_until api ord deadline (Suc deadline) s \<noteq> None"
    by (rule download_cert_until_returns [OF assms True]) (simp add: seconds_def)
  then show ?thesis using ends_write_cert by (intro ends_performs [OF download_cert_until_steps])
next
  case False
  obtain r w where call: "acme_certificate api ord (acme_sleep api 2 (pv_world s)) = (r, w)" by force
  have "acme_instant api (pv_world s) \<le> acme_instant api w"
    using assms call unfolding clock_laws_def by (metis add_leD1 le_trans snd_conv)
  with False have late: "deadline < acme_instant api w" by simp
  have "download_cert_until api ord deadline 1 s \<noteq> None"
    using call late by (auto simp: act_bind_def sleep_for_def act_do_def on_world_def act_return_def
        split: sum.split option.split)
  then show ?thesis using ends_write_cert by (intro ends_performs [OF download_cert_until_steps])
qed

lemma ends_request_cert: "clock_laws api \<Longrightarrow> order_ends api faults tc (RequestCert ord auths) s"
  by (rule ends_proceed [OF order_step.simps(11)]) (auto intro: returning ends_sleep_cert)

lemma ends_sleep_ready:
  assumes "clock_laws api"
  shows "order_ends api faults tc (SleepReady ord auths deadline) s"
proof (cases "acme_instant api (pv_world s) \<le> deadline")
  case True
  have "poll_ready api ord deadline (Suc deadline) s \<noteq> None"
    by (rule poll_ready_returns [OF assms True]) (simp add: seconds_def)
  then show ?thesis using ends_request_cert [OF assms] by (intro ends_performs [OF poll_ready_steps])
next
  case False
  obtain r w where call: "acme_refresh api ord (acme_sleep api 3 (pv_world s)) = (r, w)" by force
  have "acme_instant api (pv_world s) \<le> acme_instant api w"
    using assms call unfolding clock_laws_def by (metis add_leD1 le_trans snd_conv)
  with False have late: "deadline < acme_instant api w" by simp
  have "poll_ready api ord deadline 1 s \<noteq> None"
    using call late by (auto simp: act_bind_def sleep_for_def act_do_def on_world_def act_return_def
        act_result_def split: sum.split)
  then show ?thesis using ends_request_cert [OF assms] by (intro ends_performs [OF poll_ready_steps])
qed

lemma order_always_ends:
  assumes "clock_laws api"
  shows "order_ends api faults tc ph s"
proof -
  have announce: "order_ends api faults tc (Announce ord auths urls) s" for ord auths urls s
    by (rule ends_returns [OF announce_steps returns_announce]) (rule ends_sleep_ready [OF assms])
  have store: "order_ends api faults tc (StoreTokens ord auths k urls) s" for ord auths k urls s
  proof (cases "k \<le> length auths")
    case True
    from announce show ?thesis by (rule ends_returns [OF store_challenges_steps [OF True] returns_store_challenges])
  next
    case False
    then have "order_step api faults tc (StoreTokens ord auths k urls) s = (Announce ord auths urls, s)" by simp
    then show ?thesis using announce by (rule ends_step)
  qed
  have fetch: "order_ends api faults tc (FetchAuthorizations ord) s" for ord s
    by (rule ends_proceed [OF order_step.simps(5)]) (auto intro: returning store)
  have place: "order_ends api faults tc (PlaceOrder account) s" for account s
    by (rule ends_proceed [OF order_step.simps(4)]) (auto intro: returning fetch)
  have create: "order_ends api faults tc CreateAccount s" for s
    by (rule ends_proceed [OF order_step.simps(3)]) (auto intro: returning place)
  have take: "order_ends api faults tc TakeLock s" for s
  proof -
    obtain ph1 s1 where step: "order_step api faults tc TakeLock s = (ph1, s1)" by force
    then have "ph1 = CreateAccount \<or> (\<exists>r. ph1 = Ordered r)" by (auto split: prod.splits sum.splits)
    with create ends_step [OF step] show ?thesis by auto
  qed
  have check: "order_ends api faults tc CheckLock s" for s
  proof -
    obtain ph1 s1 where step: "order_step api faults tc CheckLock s = (ph1, s1)" by force
    then have "ph1 = TakeLock \<or> (\<exists>r. ph1 = Ordered r)" by (auto split: sum.splits if_splits)
    with take ends_step [OF step] show ?thesis by auto
  qed
  have key: "order_ends api faults tc (RenameKey cert key) s" for cert key s
    by (rule ends_proceed [OF order_step.simps(17)]) (auto intro: returning ends_write_issued)
  have cert: "order_ends api faults tc (RenameCert cert key) s" for cert key s
    by (rule ends_proceed [OF order_step.simps(16)]) (auto intro: returning key)
  have write_key: "order_ends api faults tc (WriteKey cert key) s" for cert key s
    by (rule ends_proceed [OF order_step.simps(15)]) (auto intro: returning cert)
  have ask_cert: "order_ends api faults tc (AskCert ord key_pair deadline) s" for ord key_pair deadline s
    by (rule ends_proceed [OF order_step.simps(13)])
      (auto intro: returning ends_write_cert ends_sleep_cert [OF assms] split: option.split)
  have ask_ready: "order_ends api faults tc (AskReady ord auths deadline) s" for ord auths deadline s
    by (rule ends_proceed [OF order_step.simps(10)])
      (auto intro: returning ends_request_cert [OF assms] ends_sleep_ready [OF assms])
  show ?thesis
    by (cases ph) (simp_all add: check take create place fetch store announce ends_sleep_ready [OF assms] ask_ready
        ends_request_cert [OF assms] ends_sleep_cert [OF assms] ask_cert ends_write_cert write_key cert key ends_write_issued)
qed

subsection \<open>What a step touches\<close>

lemma proceed_cases:
  assumes "proceed ph m next s = (ph', s')"
  obtains (stays) "m s = None" "ph' = ph" "s' = s"
  | (failed) e where "m s = Some (Inl e, s')" "ph' = CleanUp (Err e)"
  | (went_on) x where "m s = Some (Inr x, s')" "ph' = next x s'"
  using assms by (auto simp: proceed_def split: option.splits sum.splits)

text \<open>No file but the lock and those of the cache, and no challenge server.\<close>

lemma keeps_store_token [file_keeping]: "keeps_files (store_token api ord auth)"
  unfolding store_token_def by (intro file_keeping) simp_all

lemma proceed_quiet: "keeps_files m \<Longrightarrow> proceed ph m next s = (ph', s') \<Longrightarrow> pv_files s' = pv_files s"
  by (erule proceed_cases) (auto dest: keeps_filesD)

lemmas quiet_calls =
  proceed_quiet [OF touches_basic(4)] proceed_quiet [OF keeps_store_token] proceed_quiet [OF keeps_sleep]
  proceed_quiet [OF keeps_request_cert]

text \<open>The file operation of each phase and where it leads.\<close>

definition goes_on ::
  "string + unit \<Rightarrow> ('acct, 'ord, 'kp) ordering \<Rightarrow> ('acct, 'ord, 'kp) ordering \<Rightarrow> bool" where
  "goes_on r ph' ph \<longleftrightarrow> (case r of Inl _ \<Rightarrow> \<exists>e. ph' = CleanUp (Err e) | Inr _ \<Rightarrow> ph' = ph)"

lemma goes_onE:
  assumes "goes_on r ph' ph"
  obtains (failed) e where "ph' = CleanUp (Err e)" | (went_on) "r = Ok ()" "ph' = ph"
  using assms by (cases r) (auto simp: goes_on_def)

lemma proceed_files:
  "proceed ph (on_files f msg) (\<lambda>_ _. ph1) s = (ph', s') \<Longrightarrow>
   \<exists>r. f (pv_files s) = (r, pv_files s') \<and> goes_on r ph' ph1 \<and> pv_store s' = pv_store s"
  by (auto simp: proceed_def on_files_def goes_on_def map_err_def split: prod.splits option.splits sum.splits)

lemma order_step_files:
  assumes "order_step api faults tc ph s = (ph', s')"
  shows "case ph of
      TakeLock \<Rightarrow> \<exists>r. fs_write faults (pv_files s) (lock_path (cache_dir tc)) [] = (r, pv_files s')
    | WriteCert cert key \<Rightarrow>
        \<exists>r. fs_write faults (pv_files s) (cert_tmp_path (cache_dir tc)) cert = (r, pv_files s') \<and>
            goes_on r ph' (WriteKey cert key)
    | WriteKey cert key \<Rightarrow>
        \<exists>r. fs_write faults (pv_files s) (key_tmp_path (cache_dir tc)) key = (r, pv_files s') \<and>
            goes_on r ph' (RenameCert cert key)
    | RenameCert cert key \<Rightarrow>
        \<exists>r. fs_rename faults (pv_files s) (cert_tmp_path (cache_dir tc)) (cert_pem_path (cache_dir tc)) = (r, pv_files s') \<and>
            goes_on r ph' (RenameKey cert key)
    | RenameKey cert key \<Rightarrow>
        \<exists>r. fs_rename faults (pv_files s) (key_tmp_path (cache_dir tc)) (key_pem_path (cache_dir tc)) = (r, pv_files s') \<and>
            goes_on r ph' (WriteIssued cert key)
    | WriteIssued cert key \<Rightarrow>
        \<exists>r t. fs_write faults (pv_files s) (issued_at_path (cache_dir tc)) t = (r, pv_files s') \<and>
            goes_on r ph' (CleanUp (Ok (cert, key)))
    | CleanUp r \<Rightarrow> pv_files s' = clean_up faults (cache_dir tc) (\<not> is_ok r) (pv_files s) \<and> ph' = ClearStore r
    | _ \<Rightarrow> pv_files s' = pv_files s"
proof (cases ph)
  case (Announce ord auths urls)
  with assms show ?thesis by (cases urls) (auto dest: quiet_calls)
next
  case (WriteIssued cert key)
  with assms have "proceed ph (on_files (\<lambda>fs. fs_write faults fs (issued_at_path (cache_dir tc))
      (dec (unat (acme_unix_now api (pv_world s))))) ''write issued_at: '') (\<lambda>_ _. CleanUp (Ok (cert, key))) s = (ph', s')"
    by (simp add: proceed_def write_issued_at_def)
  from proceed_files [OF this] WriteIssued show ?thesis by auto
qed (use assms in \<open>auto dest: quiet_calls proceed_files split: sum.splits prod.splits if_splits\<close>)

lemma order_step_frame:
  assumes "order_step api faults tc ph s = (ph', s')"
    and "p \<notin> insert (lock_path (cache_dir tc)) (cache_files (cache_dir tc))"
  shows "pv_files s' p = pv_files s p"
  using order_step_files [OF assms(1)] assms(2)
  by (cases ph) (auto simp: cache_files_def clean_up_frame dest: fs_frames)

subsection \<open>The cache directory in each phase\<close>

text \<open>
  With \<open>old\<close> the pair the order found: up to the first rename it is there, after the second the new one.
  Between the two the new chain stands beside the old key; and it stays so when the second fails.
\<close>

definition pair_on :: "path \<Rightarrow> files \<Rightarrow> string option \<times> string option" where
  "pair_on cache fs = (fs (cert_pem_path cache), fs (key_pem_path cache))"

fun pair_in :: "string option \<times> string option \<Rightarrow> ('acct, 'ord, 'kp) ordering \<Rightarrow> (string option \<times> string option) option" where
  "pair_in old (RenameKey cert key) = Some (Some cert, snd old)"
| "pair_in old (WriteIssued cert key) = Some (Some cert, Some key)"
| "pair_in old (CleanUp r) = (case r of Inl _ \<Rightarrow> None | Inr (cert, key) \<Rightarrow> Some (Some cert, Some key))"
| "pair_in old (ClearStore r) = (case r of Inl _ \<Rightarrow> None | Inr (cert, key) \<Rightarrow> Some (Some cert, Some key))"
| "pair_in old (Ordered r) = (case r of Inl _ \<Rightarrow> None | Inr (cert, key) \<Rightarrow> Some (Some cert, Some key))"
| "pair_in old _ = Some old"

text \<open>The contents of the two temporary files, where the order relies on them.\<close>

fun staged_cert :: "('acct, 'ord, 'kp) ordering \<Rightarrow> string option" where
  "staged_cert (WriteKey cert key) = Some cert"
| "staged_cert (RenameCert cert key) = Some cert"
| "staged_cert _ = None"

fun staged_key :: "('acct, 'ord, 'kp) ordering \<Rightarrow> string option" where
  "staged_key (RenameCert cert key) = Some key"
| "staged_key (RenameKey cert key) = Some key"
| "staged_key _ = None"

definition order_disk ::
  "path \<Rightarrow> string option \<times> string option \<Rightarrow> ('acct, 'ord, 'kp) ordering \<Rightarrow> files \<Rightarrow> bool" where
  "order_disk cache old ph fs \<longleftrightarrow>
     pair_in old ph \<in> {None, Some (pair_on cache fs)} \<and>
     staged_cert ph \<in> {None, fs (cert_tmp_path cache)} \<and> staged_key ph \<in> {None, fs (key_tmp_path cache)}"

lemma order_disk_cong:
  "(\<And>q. q \<in> cache_files cache \<Longrightarrow> fs' q = fs q) \<Longrightarrow> order_disk cache old ph fs' = order_disk cache old ph fs"
  by (simp add: order_disk_def pair_on_def cache_files_def)

lemma pair_on_write: "p \<noteq> cert_pem_path cache \<Longrightarrow> p \<noteq> key_pem_path cache \<Longrightarrow>
    fs_write faults fs p c = (r, fs') \<Longrightarrow> pair_on cache fs' = pair_on cache fs"
  by (simp add: pair_on_def fs_write_frame)

lemma pair_on_clean_up: "pair_on cache (clean_up faults cache failed fs) = pair_on cache fs"
  by (simp add: pair_on_def clean_up_frame)

text \<open>The phases before the files of the cache are touched.\<close>

fun ordering_early :: "('acct, 'ord, 'kp) ordering \<Rightarrow> bool" where
  "ordering_early (WriteKey _ _) = False"
| "ordering_early (RenameCert _ _) = False"
| "ordering_early (RenameKey _ _) = False"
| "ordering_early (WriteIssued _ _) = False"
| "ordering_early (CleanUp _) = False"
| "ordering_early (ClearStore _) = False"
| "ordering_early (Ordered _) = False"
| "ordering_early _ = True"

lemma early_simps:
  "ordering_early ph \<Longrightarrow> pair_in old ph = Some old \<and> staged_cert ph = None \<and> staged_key ph = None"
  by (cases ph) simp_all

lemma proceed_early:
  assumes "proceed ph m next s = (ph', s')" "ordering_early ph"
    and "\<And>x s1. ordering_early (next x s1) \<or> (\<exists>e. next x s1 = CleanUp (Err e))"
  shows "ordering_early ph' \<or> (\<exists>e. ph' = CleanUp (Err e))"
  using assms(1) by (cases rule: proceed_cases) (use assms(2,3) in auto)

lemma order_step_early:
  assumes "order_step api faults tc ph s = (ph', s')" "ordering_early ph"
  shows "ordering_early ph' \<or> (\<exists>e. ph' = CleanUp (Err e)) \<or> (\<exists>e. ph' = Ordered (Err e)) \<or>
    (\<exists>cert key. ph = WriteCert cert key \<and> ph' = WriteKey cert key)"
  using assms
proof (cases ph)
  case (Announce ord auths urls)
  with assms show ?thesis by (cases urls) (auto dest!: proceed_early)
next
  case (AskReady ord auths deadline)
  with assms(1) show ?thesis by (auto elim!: proceed_cases split: if_splits)
next
  case (AskCert ord key_pair deadline)
  with assms(1) show ?thesis by (auto dest!: proceed_early split: option.splits)
qed (auto elim!: proceed_cases split: sum.splits prod.splits if_splits)

text \<open>Every step keeps it, and so does everything that leaves the files of the cache alone.\<close>

lemma order_disk_failed [simp]: "order_disk cache old (CleanUp (Err e)) fs"
  by (simp add: order_disk_def)

lemma order_step_disk:
  assumes step: "order_step api faults tc ph s = (ph', s')"
    and disk: "order_disk (cache_dir tc) old ph (pv_files s)"
  shows "order_disk (cache_dir tc) old ph' (pv_files s')"
proof (cases "ordering_early ph \<and> (\<forall>cert key. ph \<noteq> WriteCert cert key)")
  case True
  with order_step_files [OF step] have "pair_on (cache_dir tc) (pv_files s') = pair_on (cache_dir tc) (pv_files s)"
    by (cases ph) (auto intro: pair_on_write [rotated 2])
  with order_step_early [OF step] True disk early_simps [of ph old] show ?thesis
    by (auto simp: order_disk_def early_simps)
next
  case False
  note files = order_step_files [OF step]
  show ?thesis
  proof (cases ph)
    case (WriteCert cert key)
    with files disk show ?thesis
      by (auto simp: order_disk_def pair_on_def elim!: goes_onE dest!: fs_write_Ok)
  next
    case (WriteKey cert key)
    with files disk show ?thesis
      by (auto simp: order_disk_def pair_on_def elim!: goes_onE dest!: fs_write_Ok)
  next
    case (RenameCert cert key)
    with files disk show ?thesis
      by (auto simp: order_disk_def pair_on_def elim!: goes_onE dest!: fs_rename_Ok)
  next
    case (RenameKey cert key)
    with files disk show ?thesis
      by (auto simp: order_disk_def pair_on_def elim!: goes_onE dest!: fs_rename_Ok)
  next
    case (WriteIssued cert key)
    with files disk show ?thesis
      by (auto simp: order_disk_def pair_on_def elim!: goes_onE dest!: fs_write_Ok)
  next
    case (CleanUp r)
    with files disk show ?thesis by (auto simp: order_disk_def pair_on_clean_up)
  qed (use step disk False in \<open>auto simp: order_disk_def\<close>)
qed

subsection \<open>The challenge store in each phase\<close>

text \<open>
  The tokens of the authorizations gone through so far, and nothing else: from the first announcement to
  the order's acceptance those of all authorizations.
\<close>

fun order_store ::
  "('w, 'acct, 'ord, 'par, 'kp, 'csr) acme_api \<Rightarrow> ('acct, 'ord, 'kp) ordering \<Rightarrow> (string \<rightharpoonup> string) \<Rightarrow> bool" where
  "order_store api (StoreTokens ord auths k urls) store =
     (k \<le> length auths \<and> collect_challenges api ord (take k auths) Map.empty [] = Ok (store, urls))"
| "order_store api (Announce ord auths urls) store =
     (\<exists>all. collect_challenges api ord auths Map.empty [] = Ok (store, all))"
| "order_store api (SleepReady ord auths deadline) store =
     (\<exists>all. collect_challenges api ord auths Map.empty [] = Ok (store, all))"
| "order_store api (AskReady ord auths deadline) store =
     (\<exists>all. collect_challenges api ord auths Map.empty [] = Ok (store, all))"
| "order_store api (RequestCert ord auths) store =
     (\<exists>all. collect_challenges api ord auths Map.empty [] = Ok (store, all))"
| "order_store api CheckLock store = (store = Map.empty)"
| "order_store api TakeLock store = (store = Map.empty)"
| "order_store api CreateAccount store = (store = Map.empty)"
| "order_store api (PlaceOrder account) store = (store = Map.empty)"
| "order_store api (FetchAuthorizations ord) store = (store = Map.empty)"
| "order_store api (Ordered r) store = (store = Map.empty)"
| "order_store api _ store = True"

lemma collect_challenges_snoc:
  "collect_challenges api ord (auths @ [auth]) m us =
     result_bind (collect_challenges api ord auths m us)
       (\<lambda>(m1, us1). collect_challenges api ord [auth] m1 us1)"
  by (induction auths arbitrary: m us) (auto simp: result_bind_def split: sum.split)

lemma store_token_Ok:
  "store_token api ord auth s = Some (Inr c, s') \<longleftrightarrow>
   http01_challenge auth = Ok c \<and> s' = s\<lparr>pv_store := (pv_store s)(ch_token c \<mapsto> acme_key_authorization api ord c)\<rparr>"
  by (auto simp: store_token_def act_simps)

lemma on_world_store: "on_world f msg s = Some (r, s') \<Longrightarrow> pv_store s' = pv_store s"
  by (auto simp: on_world_def split: prod.splits)

lemma order_step_store:
  assumes "order_step api faults tc ph s = (ph', s')" "order_store api ph (pv_store s)"
  shows "order_store api ph' (pv_store s')"
proof (cases ph)
  case (StoreTokens ord auths k urls)
  show ?thesis
  proof (cases "k < length auths")
    case True
    with StoreTokens assms(1) have "proceed ph (store_token api ord (auths ! k))
        (\<lambda>c _. StoreTokens ord auths (Suc k) (urls @ [ch_url c])) s = (ph', s')" by simp
    then show ?thesis
    proof (cases rule: proceed_cases)
      case (went_on c)
      with assms(2) StoreTokens True show ?thesis
        by (simp add: store_token_Ok take_Suc_conv_app_nth collect_challenges_snoc)
    qed (use assms(2) in simp_all)
  qed (use StoreTokens assms in auto)
next
  case (Announce ord auths urls)
  with assms show ?thesis by (cases urls) (auto elim!: proceed_cases dest!: on_world_store)
qed (use assms in \<open>auto elim!: proceed_cases dest!: on_world_store simp: sleep_for_def act_simps
    split: sum.splits prod.splits if_splits option.splits\<close>)

text \<open>
  From the moment before the first challenge is announced until the order is finalised, the authority may
  ask for the tokens.
\<close>

fun validating :: "('acct, 'ord, 'kp) ordering \<Rightarrow> ('ord \<times> challenge list list) option" where
  "validating (Announce ord auths urls) = Some (ord, auths)"
| "validating (SleepReady ord auths deadline) = Some (ord, auths)"
| "validating (AskReady ord auths deadline) = Some (ord, auths)"
| "validating (RequestCert ord auths) = Some (ord, auths)"
| "validating _ = None"

lemma validating_store:
  "order_store api ph store \<Longrightarrow> validating ph = Some (ord, auths) \<Longrightarrow>
   \<exists>all. collect_challenges api ord auths Map.empty [] = Ok (store, all)"
  by (cases ph) auto

end
