(* ===== verification/Renewal_Task.thy ===== *)
theory Renewal_Task
  imports Renewal Order_Laws
begin

section \<open>The renewal loop as a task (\<open>src/acme.rs\<close>, \<open>renewal_loop\<close>)\<close>

text \<open>
  A turn of the renewal loop lasts minutes when the authority is slow. It is cut into the reading of the
  configuration, the steps of the order (\<open>Order_Task\<close>), and the building of the new state from the
  configuration that was read; other tasks run between them. Without interruption they are
  \<open>renewal_tick\<close> (\<open>renewal_tick_phases\<close>).
\<close>

datatype ('acct, 'ord, 'kp) renewal_phase =
    RenewalIdle
  | RenewalOrdering config tls_config "('acct, 'ord, 'kp) ordering"
  | RenewalBuilding config

definition renewal_begin ::
  "toml \<Rightarrow> ('w, 'acct, 'ord, 'par, 'kp, 'csr) acme_api \<Rightarrow> faults \<Rightarrow> path \<Rightarrow> 'w prov \<Rightarrow>
   ('acct, 'ord, 'kp) renewal_phase" where
  "renewal_begin toml_from_str api faults config_path pv =
     (case config_from_file toml_from_str faults (pv_files pv) config_path of
        Inl _ \<Rightarrow> RenewalIdle
      | Inr c \<Rightarrow>
          (case tls c of
             None \<Rightarrow> RenewalIdle
           | Some tc \<Rightarrow>
               (if \<not> cert_needs_renewal faults (pv_files pv) (acme_unix_now api (pv_world pv)) (cache_dir tc)
                then RenewalIdle else RenewalOrdering c tc CheckLock)))"

text \<open>A step of the order; when it has its result, an error ends the turn.\<close>

definition after_order ::
  "config \<Rightarrow> tls_config \<Rightarrow> ('acct, 'ord, 'kp) ordering \<Rightarrow> ('acct, 'ord, 'kp) renewal_phase" where
  "after_order c tc ph =
     (case ph of
        Ordered (Inl _) \<Rightarrow> RenewalIdle
      | Ordered (Inr _) \<Rightarrow> RenewalBuilding c
      | _ \<Rightarrow> RenewalOrdering c tc ph)"

definition renewal_move ::
  "('w, 'acct, 'ord, 'par, 'kp, 'csr) acme_api \<Rightarrow> faults \<Rightarrow> config \<Rightarrow> tls_config \<Rightarrow>
   ('acct, 'ord, 'kp) ordering \<Rightarrow> 'w prov \<Rightarrow> ('acct, 'ord, 'kp) renewal_phase \<times> 'w prov" where
  "renewal_move api faults c tc ph pv =
     (case order_step api faults tc ph pv of (ph1, pv1) \<Rightarrow> (after_order c tc ph1, pv1))"

definition renewal_finish ::
  "('m, 's) wasm_api \<Rightarrow> ('cert, 'key, 'srv, 'acc) tls_api \<Rightarrow> faults \<Rightarrow> config \<Rightarrow> ('w, 'm, 'acc) node \<Rightarrow>
   ('w, 'm, 'acc) node" where
  "renewal_finish wasm tapi faults c nd =
     (case build_state wasm tapi faults (pv_files (nd_prov nd)) c (nd_heap nd) of
        (Inl _, hp) \<Rightarrow> nd\<lparr>nd_heap := hp\<rparr>
      | (Inr st, hp) \<Rightarrow> nd\<lparr>nd_state := st, nd_heap := hp\<rparr>)"

text \<open>A turn with the store of the redirect server, in parts.\<close>

lemma renewal_tick_phases:
  "renewal_tick toml_from_str wasm tapi api faults fuel True config_path nd =
     (case renewal_begin toml_from_str api faults config_path (nd_prov nd) of
        RenewalOrdering c tc ph \<Rightarrow>
          (case provision_with_store api faults fuel tc (nd_prov nd) of
             None \<Rightarrow> None
           | Some (r, pv) \<Rightarrow>
               (case r of
                  Inl _ \<Rightarrow> Some (nd\<lparr>nd_prov := pv\<rparr>)
                | Inr _ \<Rightarrow> Some (renewal_finish wasm tapi faults c (nd\<lparr>nd_prov := pv\<rparr>))))
      | _ \<Rightarrow> Some nd)"
  by (auto simp: renewal_tick_def renewal_begin_def renewal_action_def renewal_finish_def
      split: sum.split option.split prod.split)

subsection \<open>What the parts keep\<close>

lemma renewal_begin_cases:
  "renewal_begin toml_from_str api faults config_path pv = RenewalIdle \<or>
   (\<exists>c tc. renewal_begin toml_from_str api faults config_path pv = RenewalOrdering c tc CheckLock \<and>
      config_from_file toml_from_str faults (pv_files pv) config_path = Ok c \<and> tls c = Some tc)"
  by (auto simp: renewal_begin_def split: sum.split option.split)

lemma after_order_cases:
  obtains (ended) e where "ph = Ordered (Err e)" "after_order c tc ph = RenewalIdle"
  | (built) ck where "ph = Ordered (Ok ck)" "after_order c tc ph = RenewalBuilding c"
  | (ordering) "after_order c tc ph = RenewalOrdering c tc ph" "\<And>r. ph \<noteq> Ordered r"
proof (cases "\<exists>r. ph = Ordered r")
  case True
  then obtain r where "ph = Ordered r" by blast
  with ended built show thesis by (cases r) (simp_all add: after_order_def)
next
  case False
  then show thesis by (intro ordering) (auto simp: after_order_def split: ordering.split)
qed

lemma after_order_result:
  "after_order c tc (Ordered (Inl e)) = RenewalIdle" "after_order c tc (Ordered (Inr ck)) = RenewalBuilding c"
  "after_order c tc (Ordered r) \<in> {RenewalIdle, RenewalBuilding c}"
  by (simp_all add: after_order_def split: sum.split)

text \<open>The order touches no file but those of the cache.\<close>

lemma renewal_move_frame:
  assumes "renewal_move api faults c tc ph pv = (ph', pv')"
    and "p \<notin> insert (lock_path (cache_dir tc)) (cache_files (cache_dir tc))"
  shows "pv_files pv' p = pv_files pv p"
  using assms order_step_frame by (fastforce simp: renewal_move_def split: prod.splits)

lemma renewal_finish_cases:
  obtains (kept) hp e where "build_state wasm tapi faults (pv_files (nd_prov nd)) c (nd_heap nd) = (Err e, hp)"
      "renewal_finish wasm tapi faults c nd = nd\<lparr>nd_heap := hp\<rparr>"
  | (swapped) st hp where "build_state wasm tapi faults (pv_files (nd_prov nd)) c (nd_heap nd) = (Ok st, hp)"
      "renewal_finish wasm tapi faults c nd = nd\<lparr>nd_state := st, nd_heap := hp\<rparr>"
proof -
  obtain r hp where built: "build_state wasm tapi faults (pv_files (nd_prov nd)) c (nd_heap nd) = (r, hp)"
    by force
  with that show ?thesis by (cases r) (simp_all add: renewal_finish_def)
qed

end
