(* ===== verification/Proxy_System.thy ===== *)
theory Proxy_System
  imports Request_Task Renewal_Task Server
begin

section \<open>The running proxy\<close>

text \<open>
  Everything \<open>run_with_listener_hot\<close> has started, as one system: the accept loop with its connections
  and their requests (\<open>src/server.rs\<close>, \<open>src/handler.rs\<close>, \<open>src/proxy.rs\<close>), the reload loop
  (\<open>src/server.rs\<close>), the renewal loop (\<open>src/acme.rs\<close>), the redirect server (\<open>src/server.rs\<close>) and the
  health loops (\<open>src/health_check.rs\<close>). They share the \<open>ArcSwap\<close> with the application state, the flag
  cells, the pool, the counters, the challenge store and the disk.
  An event is one task running from one suspension point to the next, or something outside: the
  operator editing files, the network. \<open>live_exec\<close> is the effect of an event, \<open>None\<close> when it cannot
  happen; a list of events is an interleaving. The requests of an HTTP/2 connection run concurrently;
  those of an HTTP/1.1 connection one after the other, which is one of the interleavings.

  Four fields are for the statements only: the address each connection of the pool was opened for,
  the answers given so far, those of the redirect server, and the moves each request has made.
\<close>

subsection \<open>State\<close>

text \<open>The libraries and the arguments of the server, which do not change.\<close>

record ('w, 'm, 's, 'cert, 'key, 'srv, 'acc, 'acct, 'ord, 'par, 'kp, 'csr, 'io, 'c, 'h, 'b) deps =
  d_toml :: toml
  d_config_path :: path
  d_wasm :: "('m, 's) wasm_api"
  d_tls :: "('cert, 'key, 'srv, 'acc) tls_api"
  d_acme :: "('w, 'acct, 'ord, 'par, 'kp, 'csr) acme_api"
  d_http :: "'h header_api"
  d_net :: "('w, 'io, 'c, 'h, 'b) net"

record ('io, 'c, 'h, 'b) task =
  tk_conn :: nat
  tk_ctx :: fwd_ctx
  tk_timeout :: u64
  tk_fwd :: "('io, 'c, 'h, 'b) fwd"
  tk_moves :: nat

record 'h answer =
  an_request :: nat
  an_response :: "('h, string) response"
  an_observed :: "observation option"

record ('w, 'm, 'acc, 'acct, 'ord, 'kp, 'io, 'c, 'h, 'b) live =
  lv_node :: "('w, 'm, 'acc) node"
  lv_pool :: "'c pool"
  lv_metrics :: metrics
  lv_health :: "(string \<times> nat \<times> health) list"
  lv_mtime :: system_time
  lv_renews :: bool
  lv_renewal :: "('acct, 'ord, 'kp) renewal_phase"
  lv_binding :: "(string \<times> u16) option"
  lv_redirect :: "u16 option"
  lv_conns :: "nat \<rightharpoonup> socket_addr \<times> bool"
  lv_tasks :: "nat \<rightharpoonup> ('io, 'c, 'h, 'b) task"
  lv_ended :: "(proxy_error + unit) option"
  lv_opened :: "'c \<rightharpoonup> string"
  lv_answers :: "'h answer list"
  lv_plain :: "('h, string) response list"

definition live_of :: "('w, 'm, 'acc, 'c) running \<Rightarrow> ('w, 'm, 'acc, 'acct, 'ord, 'kp, 'io, 'c, 'h, 'b) live" where
  "live_of rn =
     \<lparr>lv_node = run_node rn, lv_pool = run_pool rn, lv_metrics = run_metrics rn,
      lv_health = map (\<lambda>(addr, a). (addr, a, health_init)) (run_health rn), lv_mtime = run_mtime rn,
      lv_renews = run_renews rn, lv_renewal = RenewalIdle, lv_binding = run_redirect rn, lv_redirect = None,
      lv_conns = Map.empty, lv_tasks = Map.empty,
      lv_ended = None, lv_opened = Map.empty, lv_answers = [], lv_plain = []\<rparr>"

subsection \<open>Requests\<close>

text \<open>A connection that ends takes its requests with it: their futures are dropped.\<close>

definition live_close ::
  "nat \<Rightarrow> ('w, 'm, 'acc, 'acct, 'ord, 'kp, 'io, 'c, 'h, 'b) live \<Rightarrow> ('w, 'm, 'acc, 'acct, 'ord, 'kp, 'io, 'c, 'h, 'b) live" where
  "live_close k s =
     s\<lparr>lv_conns := (lv_conns s)(k := None),
       lv_tasks := (\<lambda>i. case lv_tasks s i of None \<Rightarrow> None
                         | Some t \<Rightarrow> if tk_conn t = k then None else Some t)\<rparr>"

text \<open>The end of \<open>handle\<close> for request \<open>i\<close> of connection \<open>k\<close>; a panic ends the connection's task.\<close>

definition live_answer ::
  "'h header_api \<Rightarrow> nat \<Rightarrow> nat \<Rightarrow> u64 \<Rightarrow> 'h routed \<Rightarrow> ('w, 'm, 'acc, 'acct, 'ord, 'kp, 'io, 'c, 'h, 'b) live \<Rightarrow>
   ('w, 'm, 'acc, 'acct, 'ord, 'kp, 'io, 'c, 'h, 'b) live" where
  "live_answer api k i elapsed_ms r s =
     (case handle_end api elapsed_ms r (lv_metrics s) of
        (Panicked, m) \<Rightarrow> live_close k s
      | (Returned resp, m) \<Rightarrow>
          s\<lparr>lv_metrics := m, lv_tasks := (lv_tasks s)(i := None),
            lv_answers := lv_answers s @
              [\<lparr>an_request = i, an_response = resp,
                an_observed = Some \<lparr>obs_status = resp_status resp, obs_elapsed_ms = elapsed_ms,
                                    obs_blocked = routed_blocked r\<rparr>\<rparr>]\<rparr>)"

text \<open>A request arrives and runs to its first suspension point, on the state it loads.\<close>

definition live_arrive ::
  "'h header_api \<Rightarrow> ('m, 's) wasm_api \<Rightarrow> nat \<Rightarrow> nat \<Rightarrow> req_env \<Rightarrow> ('h, 'b) request \<Rightarrow>
   ('w, 'm, 'acc, 'acct, 'ord, 'kp, 'io, 'c, 'h, 'b) live \<Rightarrow> ('w, 'm, 'acc, 'acct, 'ord, 'kp, 'io, 'c, 'h, 'b) live" where
  "live_arrive api wasm k i env req s =
     (if uri_path (req_uri req) = ''/metrics'' then
        s\<lparr>lv_answers := lv_answers s @
           [\<lparr>an_request = i, an_response = metrics_response api (lv_metrics s), an_observed = None\<rparr>]\<rparr>
      else
        (case route_begin api wasm env (nd_state (lv_node s)) (nd_heap (lv_node s)) req of
           Decided r \<Rightarrow> live_answer api k i (env_elapsed_ms env) r s
         | Admitted ctx timeout \<Rightarrow>
             s\<lparr>lv_tasks := (lv_tasks s)(i \<mapsto>
                 \<lparr>tk_conn = k, tk_ctx = ctx, tk_timeout = timeout, tk_fwd = CollectRequest req, tk_moves = 0\<rparr>)\<rparr>))"

text \<open>A forwarded request runs to its next suspension point.\<close>

definition live_move ::
  "('w, 'io, 'c, 'h, 'b) net \<Rightarrow> 'h header_api \<Rightarrow> nat \<Rightarrow> ('io, 'c, 'h, 'b) task \<Rightarrow>
   ('w, 'm, 'acc, 'acct, 'ord, 'kp, 'io, 'c, 'h, 'b) live \<Rightarrow> ('w, 'm, 'acc, 'acct, 'ord, 'kp, 'io, 'c, 'h, 'b) live option" where
  "live_move net api i t s =
     (case fwd_step net api (tk_ctx t) (tk_fwd t, lv_pool s, pv_world (nd_prov (lv_node s))) of
        (st, p, w) \<Rightarrow>
          (if fwd_result (tk_fwd t) = None \<and> fresh_connection (lv_opened s) (tk_fwd t) st then
             Some (s\<lparr>lv_pool := p,
                     lv_node := (lv_node s)\<lparr>nd_prov := (nd_prov (lv_node s))\<lparr>pv_world := w\<rparr>\<rparr>,
                     lv_tasks := (lv_tasks s)(i \<mapsto> t\<lparr>tk_fwd := st, tk_moves := Suc (tk_moves t)\<rparr>),
                     lv_opened := note_opened (tk_ctx t) (tk_fwd t) st (lv_opened s)\<rparr>)
           else None))"

subsection \<open>Background tasks\<close>

definition live_reload ::
  "toml \<Rightarrow> ('cert, 'key, 'srv, 'acc) tls_api \<Rightarrow> path \<Rightarrow> stat_result \<Rightarrow> faults \<Rightarrow> ('m, 's) wasm_api \<Rightarrow>
   ('w, 'm, 'acc, 'acct, 'ord, 'kp, 'io, 'c, 'h, 'b) live \<Rightarrow> ('w, 'm, 'acc, 'acct, 'ord, 'kp, 'io, 'c, 'h, 'b) live" where
  "live_reload toml_from_str tapi config_path st faults wasm s =
     (let rl = reload_tick toml_from_str tapi config_path
                 \<lparr>te_stat = st, te_faults = faults, te_files = pv_files (nd_prov (lv_node s)), te_wasm = wasm\<rparr>
                 \<lparr>rl_state = nd_state (lv_node s), rl_heap = nd_heap (lv_node s), rl_last_mtime = lv_mtime s\<rparr>
      in s\<lparr>lv_node := (lv_node s)\<lparr>nd_state := rl_state rl, nd_heap := rl_heap rl\<rparr>, lv_mtime := rl_last_mtime rl\<rparr>)"

definition live_poll ::
  "nat \<Rightarrow> bool \<Rightarrow> ('w, 'm, 'acc, 'acct, 'ord, 'kp, 'io, 'c, 'h, 'b) live \<Rightarrow> ('w, 'm, 'acc, 'acct, 'ord, 'kp, 'io, 'c, 'h, 'b) live" where
  "live_poll k ok s =
     (case lv_health s ! k of
        (addr, a, h) \<Rightarrow>
          (case upstream_health_step fail_threshold recover_threshold ok (h, flag_load (nd_heap (lv_node s)) a) of
             (h1, b) \<Rightarrow>
               s\<lparr>lv_health := (lv_health s)[k := (addr, a, h1)],
                 lv_node := (lv_node s)\<lparr>nd_heap :=
                   (if b = flag_load (nd_heap (lv_node s)) a then nd_heap (lv_node s)
                    else flag_store (nd_heap (lv_node s)) a b)\<rparr>\<rparr>))"

subsection \<open>Events\<close>

datatype ('w, 'm, 's, 'h, 'b) event =
    Edit "files \<Rightarrow> files"
  | Outside 'w
  | ReloadTurn stat_result faults "('m, 's) wasm_api"
  | RenewalTurn faults
  | RenewalMoved faults
  | RenewalFinish faults "('m, 's) wasm_api"
  | Polled nat bool
  | Connected nat socket_addr "string + unit"
  | Closed nat
  | Arrived nat nat string u64 "('h, 'b) request"
  | Moved nat
  | Answered nat u64
  | Expired nat u64
  | Cancelled nat
  | Bound "string + unit"
  | Asked "('h, 'b) request"
  | Ended "proxy_error + unit"

text \<open>
  \<open>Connected k addr handshake\<close>: the accept loop hands connection \<open>k\<close> to a task, which loads the state
  and serves TLS when it has a certificate and the handshake succeeds. \<open>Arrived k i uptime elapsed req\<close>:
  request \<open>i\<close> on connection \<open>k\<close>, with the clocks' readings. \<open>Answered i elapsed\<close>: its forwarding has
  returned. \<open>Expired i elapsed\<close>: its timer has fired before. \<open>Cancelled i\<close>: the client has given it up.
  \<open>RenewalMoved\<close>: one step of the order. \<open>Bound r\<close>: the redirect server binds its port or fails to, then
  ends. \<open>Asked req\<close>: it answers a request, from the challenge store as it is.
  \<open>Ended r\<close>: the accept loop returns, by a shutdown or an error, and with it \<open>main\<close>; the runtime drops
  every task.
\<close>

fun live_event ::
  "('w, 'm, 's, 'cert, 'key, 'srv, 'acc, 'acct, 'ord, 'par, 'kp, 'csr, 'io, 'c, 'h, 'b) deps \<Rightarrow>
   ('w, 'm, 's, 'h, 'b) event \<Rightarrow> ('w, 'm, 'acc, 'acct, 'ord, 'kp, 'io, 'c, 'h, 'b) live \<Rightarrow>
   ('w, 'm, 'acc, 'acct, 'ord, 'kp, 'io, 'c, 'h, 'b) live option" where
  "live_event d (Edit f) s =
     Some (s\<lparr>lv_node := (lv_node s)\<lparr>nd_prov := edited f (nd_prov (lv_node s))\<rparr>\<rparr>)"
| "live_event d (Outside w) s =
     Some (s\<lparr>lv_node := (lv_node s)\<lparr>nd_prov := (nd_prov (lv_node s))\<lparr>pv_world := w\<rparr>\<rparr>\<rparr>)"
| "live_event d (ReloadTurn st faults wasm) s =
     Some (live_reload (d_toml d) (d_tls d) (d_config_path d) st faults wasm s)"
| "live_event d (RenewalTurn faults) s =
     (if lv_renews s \<and> lv_renewal s = RenewalIdle then
        Some (s\<lparr>lv_renewal := renewal_begin (d_toml d) (d_acme d) faults (d_config_path d) (nd_prov (lv_node s))\<rparr>)
      else None)"
| "live_event d (RenewalMoved faults) s =
     (case lv_renewal s of
        RenewalOrdering c tc ph \<Rightarrow>
          (case renewal_move (d_acme d) faults c tc ph (nd_prov (lv_node s)) of
             (ph1, pv) \<Rightarrow> Some (s\<lparr>lv_renewal := ph1, lv_node := (lv_node s)\<lparr>nd_prov := pv\<rparr>\<rparr>))
      | _ \<Rightarrow> None)"
| "live_event d (RenewalFinish faults wasm) s =
     (case lv_renewal s of
        RenewalBuilding c \<Rightarrow>
          Some (s\<lparr>lv_renewal := RenewalIdle, lv_node := renewal_finish wasm (d_tls d) faults c (lv_node s)\<rparr>)
      | _ \<Rightarrow> None)"
| "live_event d (Polled k ok) s = (if k < length (lv_health s) then Some (live_poll k ok s) else None)"
| "live_event d (Connected k addr handshake) s =
     (if lv_conns s k \<noteq> None then None
      else
        (case app_tls (nd_state (lv_node s)) of
           None \<Rightarrow> Some (s\<lparr>lv_conns := (lv_conns s)(k \<mapsto> (addr, False))\<rparr>)
         | Some _ \<Rightarrow> (case handshake of
              Inl e \<Rightarrow> Some s
            | Inr _ \<Rightarrow> Some (s\<lparr>lv_conns := (lv_conns s)(k \<mapsto> (addr, True))\<rparr>))))"
| "live_event d (Closed k) s = Some (live_close k s)"
| "live_event d (Arrived k i uptime elapsed_ms req) s =
     (case lv_conns s k of
        None \<Rightarrow> None
      | Some (addr, tls_on) \<Rightarrow>
          (if lv_tasks s i \<noteq> None then None
           else Some (live_arrive (d_http d) (d_wasm d) k i
             \<lparr>env_client = addr, env_is_tls = tls_on, env_uptime = uptime, env_elapsed_ms = elapsed_ms,
              env_steps = 0\<rparr> req s)))"
| "live_event d (Moved i) s =
     (case lv_tasks s i of None \<Rightarrow> None | Some t \<Rightarrow> live_move (d_net d) (d_http d) i t s)"
| "live_event d (Answered i elapsed_ms) s =
     (case lv_tasks s i of
        None \<Rightarrow> None
      | Some t \<Rightarrow>
          (case fwd_result (tk_fwd t) of
             None \<Rightarrow> None
           | Some Panicked \<Rightarrow> Some (live_close (tk_conn t) s)
           | Some (Returned r) \<Rightarrow> Some (live_answer (d_http d) (tk_conn t) i elapsed_ms (routed_of r) s)))"
| "live_event d (Expired i elapsed_ms) s =
     (case lv_tasks s i of
        None \<Rightarrow> None
      | Some t \<Rightarrow>
          (if fwd_result (tk_fwd t) \<noteq> None then None
           else Some (live_answer (d_http d) (tk_conn t) i elapsed_ms
             (Err (timeout_error (tk_ctx t) (tk_timeout t))) s)))"
| "live_event d (Cancelled i) s = Some (s\<lparr>lv_tasks := (lv_tasks s)(i := None)\<rparr>)"
| "live_event d (Bound r) s =
     (case lv_binding s of
        None \<Rightarrow> None
      | Some (addr, port) \<Rightarrow>
          Some (s\<lparr>lv_binding := None, lv_redirect := (case r of Inl _ \<Rightarrow> None | Inr _ \<Rightarrow> Some port)\<rparr>))"
| "live_event d (Asked req) s =
     (case lv_redirect s of
        None \<Rightarrow> None
      | Some port \<Rightarrow>
          (case redirect_handler (d_http d) port (pv_store (nd_prov (lv_node s))) req of
             Panicked \<Rightarrow> Some s
           | Returned resp \<Rightarrow> Some (s\<lparr>lv_plain := lv_plain s @ [resp]\<rparr>)))"
| "live_event d (Ended r) s =
     Some (s\<lparr>lv_conns := Map.empty, lv_tasks := Map.empty, lv_ended := Some r\<rparr>)"

definition live_exec ::
  "('w, 'm, 's, 'cert, 'key, 'srv, 'acc, 'acct, 'ord, 'par, 'kp, 'csr, 'io, 'c, 'h, 'b) deps \<Rightarrow>
   ('w, 'm, 's, 'h, 'b) event \<Rightarrow> ('w, 'm, 'acc, 'acct, 'ord, 'kp, 'io, 'c, 'h, 'b) live \<Rightarrow>
   ('w, 'm, 'acc, 'acct, 'ord, 'kp, 'io, 'c, 'h, 'b) live option" where
  "live_exec d e s = (if lv_ended s \<noteq> None then None else live_event d e s)"

fun live_run ::
  "('w, 'm, 's, 'cert, 'key, 'srv, 'acc, 'acct, 'ord, 'par, 'kp, 'csr, 'io, 'c, 'h, 'b) deps \<Rightarrow>
   ('w, 'm, 's, 'h, 'b) event list \<Rightarrow> ('w, 'm, 'acc, 'acct, 'ord, 'kp, 'io, 'c, 'h, 'b) live \<Rightarrow>
   ('w, 'm, 'acc, 'acct, 'ord, 'kp, 'io, 'c, 'h, 'b) live option" where
  "live_run d [] s = Some s"
| "live_run d (e # es) s = (case live_exec d e s of None \<Rightarrow> None | Some s1 \<Rightarrow> live_run d es s1)"

end
