(* ===== verification/System_Laws.thy ===== *)
theory System_Laws
  imports Proxy_System Server_Laws
begin

section \<open>Laws of the running proxy\<close>

text \<open>
  What every interleaving of the proxy's tasks keeps. \<open>live_run_invariant\<close> turns a property that each
  event keeps into one of all runs. \<open>live_exec_node\<close> lists the ways an event can change the shared
  application state and the flags; \<open>forward_view\<close> forgets everything but the requests being forwarded
  and the pool, and every event is a step of \<open>Forward_Tasks\<close> or none under it.
\<close>

lemmas live_splits =
  if_splits option.splits renewal_phase.splits prod.splits sum.splits outcome.splits

lemma live_run_invariant:
  assumes "live_run d es s = Some s'" "I s" "list_all P es"
    and "\<And>e s s'. live_exec d e s = Some s' \<Longrightarrow> P e \<Longrightarrow> I s \<Longrightarrow> I s'"
  shows "I s'"
  using assms(1-3)
proof (induction es arbitrary: s)
  case (Cons e es)
  then show ?case by (auto split: option.splits intro: assms(4))
qed simp

lemma live_run_append:
  "live_run d (es @ fs) s = (case live_run d es s of None \<Rightarrow> None | Some s1 \<Rightarrow> live_run d fs s1)"
  by (induction es arbitrary: s) (simp_all split: option.split)

lemma live_of_simps [simp]:
  "lv_node (live_of rn) = run_node rn" "lv_pool (live_of rn) = run_pool rn"
  "lv_metrics (live_of rn) = run_metrics rn" "lv_mtime (live_of rn) = run_mtime rn"
  "lv_renewal (live_of rn) = RenewalIdle" "lv_conns (live_of rn) = Map.empty"
  "lv_tasks (live_of rn) = Map.empty" "lv_opened (live_of rn) = Map.empty" "lv_answers (live_of rn) = []"
  "lv_redirect (live_of rn) = None" "lv_plain (live_of rn) = []"
  by (simp_all add: live_of_def)

subsection \<open>What the operations leave alone\<close>

named_theorems live_frame

lemma live_close_frame [live_frame, simp]:
  "lv_node (live_close k s) = lv_node s" "lv_pool (live_close k s) = lv_pool s"
  "lv_metrics (live_close k s) = lv_metrics s" "lv_health (live_close k s) = lv_health s"
  "lv_mtime (live_close k s) = lv_mtime s" "lv_renews (live_close k s) = lv_renews s"
  "lv_renewal (live_close k s) = lv_renewal s" "lv_ended (live_close k s) = lv_ended s"
  "lv_opened (live_close k s) = lv_opened s" "lv_answers (live_close k s) = lv_answers s"
  by (simp_all add: live_close_def)

lemma live_answer_frame [live_frame, simp]:
  "lv_node (live_answer api k i ms r s) = lv_node s" "lv_pool (live_answer api k i ms r s) = lv_pool s"
  "lv_health (live_answer api k i ms r s) = lv_health s" "lv_mtime (live_answer api k i ms r s) = lv_mtime s"
  "lv_renews (live_answer api k i ms r s) = lv_renews s" "lv_renewal (live_answer api k i ms r s) = lv_renewal s"
  "lv_ended (live_answer api k i ms r s) = lv_ended s" "lv_opened (live_answer api k i ms r s) = lv_opened s"
  by (simp_all add: live_answer_def split: prod.split outcome.split)

lemma live_arrive_frame [live_frame, simp]:
  "lv_node (live_arrive api wasm k i env req s) = lv_node s"
  "lv_pool (live_arrive api wasm k i env req s) = lv_pool s"
  "lv_health (live_arrive api wasm k i env req s) = lv_health s"
  "lv_mtime (live_arrive api wasm k i env req s) = lv_mtime s"
  "lv_renews (live_arrive api wasm k i env req s) = lv_renews s"
  "lv_renewal (live_arrive api wasm k i env req s) = lv_renewal s"
  "lv_ended (live_arrive api wasm k i env req s) = lv_ended s"
  "lv_opened (live_arrive api wasm k i env req s) = lv_opened s"
  by (simp_all add: live_arrive_def split: begun.split)

lemma live_reload_frame [live_frame, simp]:
  "lv_pool (live_reload t tapi cp st f wasm s) = lv_pool s"
  "nd_prov (lv_node (live_reload t tapi cp st f wasm s)) = nd_prov (lv_node s)"
  "lv_metrics (live_reload t tapi cp st f wasm s) = lv_metrics s"
  "lv_health (live_reload t tapi cp st f wasm s) = lv_health s"
  "lv_renews (live_reload t tapi cp st f wasm s) = lv_renews s"
  "lv_renewal (live_reload t tapi cp st f wasm s) = lv_renewal s"
  "lv_conns (live_reload t tapi cp st f wasm s) = lv_conns s"
  "lv_tasks (live_reload t tapi cp st f wasm s) = lv_tasks s"
  "lv_ended (live_reload t tapi cp st f wasm s) = lv_ended s"
  "lv_opened (live_reload t tapi cp st f wasm s) = lv_opened s"
  "lv_answers (live_reload t tapi cp st f wasm s) = lv_answers s"
  by (simp_all add: live_reload_def Let_def)

lemma live_poll_frame [live_frame, simp]:
  "lv_pool (live_poll k ok s) = lv_pool s" "nd_prov (lv_node (live_poll k ok s)) = nd_prov (lv_node s)"
  "nd_state (lv_node (live_poll k ok s)) = nd_state (lv_node s)"
  "lv_metrics (live_poll k ok s) = lv_metrics s" "lv_mtime (live_poll k ok s) = lv_mtime s"
  "lv_renews (live_poll k ok s) = lv_renews s" "lv_renewal (live_poll k ok s) = lv_renewal s"
  "lv_conns (live_poll k ok s) = lv_conns s" "lv_tasks (live_poll k ok s) = lv_tasks s"
  "lv_ended (live_poll k ok s) = lv_ended s" "lv_opened (live_poll k ok s) = lv_opened s"
  "lv_answers (live_poll k ok s) = lv_answers s"
  by (simp_all add: live_poll_def split: prod.split)

lemma live_move_frame [live_frame]:
  assumes "live_move net api i t s = Some s'"
  shows "nd_state (lv_node s') = nd_state (lv_node s)" "nd_heap (lv_node s') = nd_heap (lv_node s)"
    "pv_files (nd_prov (lv_node s')) = pv_files (nd_prov (lv_node s))"
    "lv_metrics s' = lv_metrics s" "lv_health s' = lv_health s" "lv_mtime s' = lv_mtime s"
    "lv_renews s' = lv_renews s" "lv_renewal s' = lv_renewal s" "lv_conns s' = lv_conns s"
    "lv_ended s' = lv_ended s" "lv_answers s' = lv_answers s"
  using assms by (auto simp: live_move_def split: prod.splits if_splits)

lemma renewal_finish_prov [simp]: "nd_prov (renewal_finish wasm tapi faults c nd) = nd_prov nd"
  by (simp add: renewal_finish_def split: prod.split sum.split)

subsection \<open>The health loops\<close>

definition loops :: "('w, 'm, 'acc, 'acct, 'ord, 'kp, 'io, 'c, 'h, 'b) live \<Rightarrow> (string \<times> nat) list" where
  "loops s = map (\<lambda>(addr, a, h). (addr, a)) (lv_health s)"

lemma loops_start [simp]: "loops (live_of rn) = run_health rn"
  by (simp add: loops_def live_of_def comp_def case_prod_unfold)

lemma loops_poll [simp]: "k < length (lv_health s) \<Longrightarrow> loops (live_poll k ok s) = loops s"
  by (auto simp: loops_def live_poll_def map_update split: prod.splits intro!: list_update_same_conv [THEN iffD2])

text \<open>The loops never change: each keeps its address and its flag.\<close>

lemma live_exec_loops: "live_exec d e s = Some s' \<Longrightarrow> loops s' = loops s"
proof -
  have same: "lv_health s' = lv_health s \<Longrightarrow> loops s' = loops s" for s' by (simp add: loops_def)
  assume "live_exec d e s = Some s'"
  then have "live_event d e s = Some s'" by (simp add: live_exec_def split: if_splits)
  then show ?thesis
  proof (cases e)
    case (Polled k ok)
    with \<open>live_event d e s = Some s'\<close> show ?thesis by (auto split: if_splits)
  qed (auto intro!: same dest: live_move_frame split: live_splits)
qed

subsection \<open>The shared state\<close>

lemma live_exec_node:
  assumes "live_exec d e s = Some s'"
  obtains (grown) n where "nd_state (lv_node s') = nd_state (lv_node s)"
      "nd_heap (lv_node s') = nd_heap (lv_node s) @ replicate n True"
  | (swapped) wasm faults fs c st where
      "build_state wasm (d_tls d) faults fs c (nd_heap (lv_node s)) = (Ok st, nd_heap (lv_node s'))"
      "nd_state (lv_node s') = st" "fs = pv_files (nd_prov (lv_node s))"
      "(config_from_file (d_toml d) faults fs (d_config_path d) = Ok c \<and> validate c = Ok ()) \<or>
       (lv_renewal s = RenewalBuilding c \<and> e = RenewalFinish faults wasm)"
  | (polled) k ok addr a h b where "e = Polled k ok" "k < length (lv_health s)" "lv_health s ! k = (addr, a, h)"
      "nd_state (lv_node s') = nd_state (lv_node s)" "nd_heap (lv_node s') = flag_store (nd_heap (lv_node s)) a b"
proof -
  from assms have run: "live_event d e s = Some s'" by (simp add: live_exec_def split: if_splits)
  have same: thesis if "nd_state (lv_node s') = nd_state (lv_node s)" "nd_heap (lv_node s') = nd_heap (lv_node s)"
    using grown [of 0] that by simp
  show thesis
  proof (cases e)
    case (ReloadTurn stat faults wasm)
    let ?env = "\<lparr>te_stat = stat, te_faults = faults, te_files = pv_files (nd_prov (lv_node s)), te_wasm = wasm\<rparr>"
    let ?rl = "\<lparr>rl_state = nd_state (lv_node s), rl_heap = nd_heap (lv_node s), rl_last_mtime = lv_mtime s\<rparr>"
    obtain r hp where load: "try_reload (d_toml d) (d_tls d) (d_config_path d) ?env (nd_heap (lv_node s)) = (r, hp)"
      by force
    from ReloadTurn run have s': "s' = live_reload (d_toml d) (d_tls d) (d_config_path d) stat faults wasm s"
      by simp
    show thesis
    proof (cases "\<exists>t. stat = Modified t \<and> \<not> t \<le> lv_mtime s")
      case False
      with s' same show thesis by (auto simp: live_reload_def reload_tick_def Let_def split: stat_result.splits)
    next
      case True
      then obtain t where t: "stat = Modified t" "\<not> t \<le> lv_mtime s" by blast
      from tr.load_grows [of "(d_toml d, d_tls d, d_config_path d, ?env)", simplified, OF load]
      obtain n where n: "hp = nd_heap (lv_node s) @ replicate n True" by blast
      show thesis
      proof (cases r)
        case (Inl x)
        with s' t load n grown [of n] show thesis by (simp add: live_reload_def reload_tick_def)
      next
        case (Inr st)
        with try_reload_Ok [OF load [unfolded Inr]] obtain c where
          "config_from_file (d_toml d) faults (pv_files (nd_prov (lv_node s))) (d_config_path d) = Ok c"
          "config_ok c" "build_state wasm (d_tls d) faults (pv_files (nd_prov (lv_node s))) c (nd_heap (lv_node s)) = (Inr st, hp)"
          by auto
        with s' t load Inr swapped [of wasm faults "pv_files (nd_prov (lv_node s))" c st] show thesis
          by (simp add: live_reload_def reload_tick_def validate_accepts)
      qed
    qed
  next
    case (RenewalFinish faults wasm)
    with run obtain c where c: "lv_renewal s = RenewalBuilding c"
      "s' = s\<lparr>lv_renewal := RenewalIdle, lv_node := renewal_finish wasm (d_tls d) faults c (lv_node s)\<rparr>"
      by (auto split: renewal_phase.splits)
    show thesis
    proof (cases rule: renewal_finish_cases [of wasm "d_tls d" faults "lv_node s" c])
      case (kept hp x)
      with build_state_heap [OF kept(1)] c grown show thesis by auto
    next
      case (swapped st hp)
      with c RenewalFinish that(2) [of wasm faults "pv_files (nd_prov (lv_node s))" c st] show thesis by simp
    qed
  next
    case (Polled k ok)
    with run have k: "k < length (lv_health s)" "s' = live_poll k ok s" by (simp_all split: if_splits)
    obtain addr a h where kh: "lv_health s ! k = (addr, a, h)" by (metis prod_cases3)
    have "nd_heap (lv_node s') = nd_heap (lv_node s) \<or> (\<exists>b. nd_heap (lv_node s') = flag_store (nd_heap (lv_node s)) a b)"
      using k kh by (auto simp: live_poll_def split: prod.splits)
    with k kh same polled [of k ok addr a h] Polled show thesis by auto
  qed (use run in \<open>auto intro!: same dest: live_move_frame split: live_splits\<close>)
qed

subsection \<open>Flags\<close>

text \<open>
  The flags of the live state and of the loops are cells of the heap; no two routes and no two loops
  share one.
\<close>

definition flags_ok :: "('w, 'm, 'acc, 'acct, 'ord, 'kp, 'io, 'c, 'h, 'b) live \<Rightarrow> bool" where
  "flags_ok s \<longleftrightarrow>
     (\<forall>a \<in> set (cells (nd_state (lv_node s))). a < length (nd_heap (lv_node s))) \<and>
     (\<forall>a \<in> snd ` set (loops s). a < length (nd_heap (lv_node s))) \<and> distinct (map snd (loops s)) \<and>
     distinct (cells (nd_state (lv_node s)))"

lemma build_state_distinct:
  "build_state wasm tapi faults fs c hp = (Ok st, hp') \<Longrightarrow> distinct (cells st)"
  by (drule build_state_Ok) (simp add: fresh_routes_def cells_def)

lemma live_exec_flags_ok:
  assumes "live_exec d e s = Some s'" "flags_ok s"
  shows "flags_ok s'"
proof -
  have loops: "loops s' = loops s" using assms(1) by (rule live_exec_loops)
  from assms(1) show ?thesis
  proof (cases rule: live_exec_node)
    case (grown n)
    with assms(2) loops show ?thesis by (auto simp: flags_ok_def)
  next
    case (swapped wasm faults fs c st)
    from build_state_heap [OF swapped(1)] obtain n where
      "nd_heap (lv_node s') = nd_heap (lv_node s) @ replicate n True" by blast
    with assms(2) loops swapped(2) build_state_cells [OF swapped(1)] build_state_distinct [OF swapped(1)] show ?thesis
      by (auto simp: flags_ok_def)
  next
    case (polled k ok addr a h b)
    with assms(2) loops show ?thesis by (auto simp: flags_ok_def)
  qed
qed

text \<open>
  A state swapped in has flags of its own, up, that no loop writes; so the live state is the first one
  or all its routes are marked healthy.
\<close>

definition flags_silent ::
  "('m, 'acc) app_state \<Rightarrow> ('w, 'm, 'acc, 'acct, 'ord, 'kp, 'io, 'c, 'h, 'b) live \<Rightarrow> bool" where
  "flags_silent st0 s \<longleftrightarrow>
     nd_state (lv_node s) = st0 \<or>
     (\<forall>a \<in> set (cells (nd_state (lv_node s))). flag_load (nd_heap (lv_node s)) a \<and> a \<notin> snd ` set (loops s))"

lemma live_exec_flags_silent:
  assumes "live_exec d e s = Some s'" "flags_ok s" "flags_silent st0 s"
  shows "flags_silent st0 s'"
proof -
  have loops: "loops s' = loops s" using assms(1) by (rule live_exec_loops)
  from assms(1) show ?thesis
  proof (cases rule: live_exec_node)
    case (grown n)
    with assms(3) loops show ?thesis by (auto simp: flags_silent_def flag_load_def nth_append)
  next
    case (swapped wasm faults fs c st)
    have "flag_load (nd_heap (lv_node s')) a \<and> length (nd_heap (lv_node s)) \<le> a" if "a \<in> set (cells st)" for a
      using bs.load_healthy [of "(wasm, d_tls d, faults, fs, c)", simplified, OF swapped(1) that]
        build_state_cells [OF swapped(1) that] by simp
    with assms(2) loops swapped(2) show ?thesis by (fastforce simp: flags_silent_def flags_ok_def)
  next
    case (polled k ok addr a h b)
    have "(addr, a, h) \<in> set (lv_health s)" using polled(2,3) by (metis nth_mem)
    then have "a \<in> snd ` set (loops s)" by (force simp: loops_def)
    with assms(3) loops polled(4,5) show ?thesis by (auto simp: flags_silent_def flag_load_store)
  qed
qed

subsection \<open>What a loop's flag depends on\<close>

text \<open>The results of the polls of loop \<open>k\<close> in a run, in order.\<close>

definition polls_of :: "nat \<Rightarrow> ('w, 'm, 's, 'h, 'b) event list \<Rightarrow> bool list" where
  "polls_of k es = List.map_filter
     (\<lambda>e. case e of Polled j ok \<Rightarrow> if j = k then Some ok else None | _ \<Rightarrow> None) es"

lemma polls_of_snoc:
  "polls_of k (es @ [e]) = polls_of k es @ (case e of Polled j ok \<Rightarrow> if j = k then [ok] else [] | _ \<Rightarrow> [])"
  by (simp add: polls_of_def List.map_filter_def split: event.split)

lemma live_exec_own_poll:
  assumes "live_exec d (Polled k ok) s = Some s'" "lv_health s ! k = (addr, a, h)" "a < length (nd_heap (lv_node s))"
  shows "\<exists>h1. lv_health s' ! k = (addr, a, h1) \<and>
    (h1, flag_load (nd_heap (lv_node s')) a) =
      upstream_health_step fail_threshold recover_threshold ok (h, flag_load (nd_heap (lv_node s)) a)"
proof -
  from assms(1) have "k < length (lv_health s)" "s' = live_poll k ok s"
    by (auto simp: live_exec_def split: if_splits)
  with assms(2,3) show ?thesis by (auto simp: live_poll_def flag_load_store split: prod.split)
qed

lemma live_exec_other_poll:
  assumes "live_exec d e s = Some s'" "flags_ok s" "k < length (lv_health s)" "lv_health s ! k = (addr, a, h)"
    and "\<And>ok. e \<noteq> Polled k ok"
  shows "lv_health s' ! k = (addr, a, h) \<and> flag_load (nd_heap (lv_node s')) a = flag_load (nd_heap (lv_node s)) a"
proof -
  have run: "live_event d e s = Some s'" using assms(1) by (simp add: live_exec_def split: if_splits)
  have health: "lv_health s' ! k = lv_health s ! k"
  proof (cases e)
    case (Polled j ok)
    with assms(5) have "j \<noteq> k" by auto
    with run Polled show ?thesis by (auto simp: live_poll_def split: if_splits prod.splits)
  qed (use run in \<open>auto simp: live_move_frame split: live_splits\<close>)
  have nth: "loops s ! k = (addr, a)" "k < length (loops s)" using assms(3,4) by (simp_all add: loops_def)
  then have a: "a < length (nd_heap (lv_node s))"
    using assms(2) nth_mem [of k "loops s"] by (force simp: flags_ok_def)
  from assms(1) have "flag_load (nd_heap (lv_node s')) a = flag_load (nd_heap (lv_node s)) a"
  proof (cases rule: live_exec_node)
    case (grown n)
    with a show ?thesis by (simp add: flag_load_def nth_append)
  next
    case (swapped wasm faults fs c st)
    with bs.load_keeps [of "(wasm, d_tls d, faults, fs, c)"] a show ?thesis by simp
  next
    case (polled j ok addr' b h' v)
    with assms(5) have "j \<noteq> k" by auto
    moreover have "loops s ! j = (addr', b)" "j < length (loops s)" using polled(2,3) by (simp_all add: loops_def)
    ultimately have "b \<noteq> a"
      using assms(2) nth nth_eq_iff_index_eq [of "map snd (loops s)" j k] by (auto simp: flags_ok_def)
    with polled show ?thesis by (simp add: flag_load_store)
  qed
  with health assms(4) show ?thesis by simp
qed

subsection \<open>The configuration a renewal holds\<close>

text \<open>From the reading of the configuration to the new state a turn of the renewal loop keeps it.\<close>

definition renews_with :: "config \<Rightarrow> ('w, 'm, 'acc, 'acct, 'ord, 'kp, 'io, 'c, 'h, 'b) live \<Rightarrow> bool" where
  "renews_with c s \<longleftrightarrow>
     (case lv_renewal s of RenewalIdle \<Rightarrow> True | RenewalOrdering c' tc ph \<Rightarrow> c' = c | RenewalBuilding c' \<Rightarrow> c' = c)"

lemma renews_with_cong: "lv_renewal s' = lv_renewal s \<Longrightarrow> renews_with c s' = renews_with c s"
  by (simp add: renews_with_def)

lemma live_exec_renews_with:
  assumes "live_exec d e s = Some s'" "renews_with c s" "\<And>f. e \<noteq> RenewalTurn f"
  shows "renews_with c s'"
proof -
  from assms(1) have run: "live_event d e s = Some s'" by (simp add: live_exec_def split: if_splits)
  show ?thesis
  proof (cases e)
    case (RenewalTurn f)
    with assms(3) [of f] show ?thesis by simp
  next
  case (RenewalMoved faults)
    with run obtain c' tc ph ph1 pv where "lv_renewal s = RenewalOrdering c' tc ph" "lv_renewal s' = after_order c' tc ph1"
      by (auto simp: renewal_move_def split: renewal_phase.splits prod.splits)
    with assms(2) show ?thesis by (cases rule: after_order_cases [of ph1 c' tc]) (auto simp: renews_with_def)
  next
    case (RenewalFinish faults wasm)
    with run show ?thesis by (auto simp: renews_with_def split: renewal_phase.splits)
  qed (use run assms(2) in \<open>auto simp: live_move_frame elim!: renews_with_cong [THEN iffD2, rotated]
        split: live_splits\<close>)
qed

subsection \<open>The configurations served\<close>

text \<open>
  What a careful operator keeps: whenever the configuration file can be read, it holds a valid
  configuration. \<open>config_safe\<close> says it of the disk, of the configuration a renewal has read, and of the
  live state.
\<close>

definition disk_ok ::
  "('w, 'm, 's, 'cert, 'key, 'srv, 'acc, 'acct, 'ord, 'par, 'kp, 'csr, 'io, 'c, 'h, 'b) deps \<Rightarrow> files \<Rightarrow> bool" where
  "disk_ok d fs \<longleftrightarrow>
     (\<forall>faults c. config_from_file (d_toml d) faults fs (d_config_path d) = Ok c \<longrightarrow> validate c = Ok ())"

fun edits_ok ::
  "('w, 'm, 's, 'cert, 'key, 'srv, 'acc, 'acct, 'ord, 'par, 'kp, 'csr, 'io, 'c, 'h, 'b) deps \<Rightarrow>
   ('w, 'm, 's, 'h, 'b) event \<Rightarrow> bool" where
  "edits_ok d (Edit f) = (\<forall>fs. disk_ok d fs \<longrightarrow> disk_ok d (f fs))"
| "edits_ok d _ = True"

definition phase_ok :: "('acct, 'ord, 'kp) renewal_phase \<Rightarrow> bool" where
  "phase_ok ph = (case ph of RenewalIdle \<Rightarrow> True | RenewalOrdering c tc ord \<Rightarrow> config_ok c | RenewalBuilding c \<Rightarrow> config_ok c)"

definition config_safe ::
  "('w, 'm, 's, 'cert, 'key, 'srv, 'acc, 'acct, 'ord, 'par, 'kp, 'csr, 'io, 'c, 'h, 'b) deps \<Rightarrow>
   ('w, 'm, 'acc, 'acct, 'ord, 'kp, 'io, 'c, 'h, 'b) live \<Rightarrow> bool" where
  "config_safe d s \<longleftrightarrow>
     disk_ok d (pv_files (nd_prov (lv_node s))) \<and> phase_ok (lv_renewal s) \<and> serving_ok (nd_state (lv_node s))"

lemma disk_ok_same: "disk_ok d fs \<Longrightarrow> fs' (d_config_path d) = fs (d_config_path d) \<Longrightarrow> disk_ok d fs'"
proof -
  assume "disk_ok d fs" "fs' (d_config_path d) = fs (d_config_path d)"
  moreover from this(2) have "config_from_file (d_toml d) faults fs' (d_config_path d) =
      config_from_file (d_toml d) faults fs (d_config_path d)" for faults
    by (simp add: config_from_file_def fs_read_def cong: option.case_cong)
  ultimately show ?thesis by (simp add: disk_ok_def)
qed

lemma live_exec_disk_ok:
  assumes "live_exec d e s = Some s'" "edits_ok d e" "disk_ok d (pv_files (nd_prov (lv_node s)))"
    and "\<And>c. d_config_path d \<notin> insert (lock_path c) (cache_files c)"
  shows "disk_ok d (pv_files (nd_prov (lv_node s')))"
proof -
  from assms(1) have run: "live_event d e s = Some s'" by (simp add: live_exec_def split: if_splits)
  show ?thesis
  proof (cases e)
    case (Edit f)
    with run assms(2,3) show ?thesis by (auto simp: edited_def)
  next
    case (RenewalMoved faults)
    with run obtain c tc ph ph1 pv where move: "renewal_move (d_acme d) faults c tc ph (nd_prov (lv_node s)) = (ph1, pv)"
      and "s' = s\<lparr>lv_renewal := ph1, lv_node := (lv_node s)\<lparr>nd_prov := pv\<rparr>\<rparr>"
      by (auto split: renewal_phase.splits prod.splits)
    moreover from renewal_move_frame [OF move] assms(4) [of "cache_dir tc"]
    have "pv_files pv (d_config_path d) = pv_files (nd_prov (lv_node s)) (d_config_path d)" by simp
    ultimately show ?thesis using disk_ok_same [OF assms(3)] by simp
  qed (use run assms(3) in \<open>auto simp: live_move_frame split: live_splits\<close>)
qed

lemma live_exec_phase_ok:
  assumes "live_exec d e s = Some s'" "disk_ok d (pv_files (nd_prov (lv_node s)))" "phase_ok (lv_renewal s)"
  shows "phase_ok (lv_renewal s')"
proof -
  from assms(1) have run: "live_event d e s = Some s'" by (simp add: live_exec_def split: if_splits)
  show ?thesis
  proof (cases e)
    case (RenewalTurn faults)
    with run have "lv_renewal s' = renewal_begin (d_toml d) (d_acme d) faults (d_config_path d) (nd_prov (lv_node s))"
      by (auto split: if_splits)
    with renewal_begin_cases [of "d_toml d" "d_acme d" faults "d_config_path d" "nd_prov (lv_node s)"] assms(2)
    show ?thesis by (auto simp: phase_ok_def disk_ok_def validate_accepts)
  next
    case (RenewalMoved faults)
    with run obtain c tc ph ph1 where "lv_renewal s = RenewalOrdering c tc ph" "lv_renewal s' = after_order c tc ph1"
      by (auto simp: renewal_move_def split: renewal_phase.splits prod.splits)
    with assms(3) show ?thesis by (cases rule: after_order_cases [of ph1 c tc]) (auto simp: phase_ok_def)
  qed (use run assms(3) in \<open>auto simp: live_move_frame phase_ok_def split: live_splits\<close>)
qed

lemma live_exec_config_safe:
  assumes "live_exec d e s = Some s'" "edits_ok d e" "config_safe d s"
    and "\<And>c. d_config_path d \<notin> insert (lock_path c) (cache_files c)"
  shows "config_safe d s'"
proof -
  from assms(3) have s: "disk_ok d (pv_files (nd_prov (lv_node s)))" "phase_ok (lv_renewal s)"
    "serving_ok (nd_state (lv_node s))" by (simp_all add: config_safe_def)
  have "serving_ok (nd_state (lv_node s'))"
    using assms(1)
  proof (cases rule: live_exec_node)
    case (swapped wasm faults fs c st)
    with s(2) have "config_ok c" by (auto simp: phase_ok_def validate_accepts)
    with build_state_serving_ok swapped show ?thesis by blast
  qed (use s(3) in simp_all)
  with live_exec_disk_ok [OF assms(1,2) s(1) assms(4)] live_exec_phase_ok [OF assms(1) s(1,2)]
  show ?thesis by (simp add: config_safe_def)
qed

subsection \<open>The counters\<close>

text \<open>What has been recorded is what the answers say.\<close>

definition observed :: "'h answer list \<Rightarrow> observation list" where
  "observed as = List.map_filter an_observed as"

definition metrics_ok :: "('w, 'm, 'acc, 'acct, 'ord, 'kp, 'io, 'c, 'h, 'b) live \<Rightarrow> bool" where
  "metrics_ok s \<longleftrightarrow>
     lv_metrics s = record_all (observed (lv_answers s)) metrics_new \<and>
     (\<forall>a \<in> set (lv_answers s). \<forall>ob. an_observed a = Some ob \<longrightarrow> obs_status ob = resp_status (an_response a))"

lemma observed_simps [simp]:
  "observed [] = []"
  "observed (as @ [a]) = observed as @ (case an_observed a of None \<Rightarrow> [] | Some ob \<Rightarrow> [ob])"
  by (simp_all add: observed_def List.map_filter_def split: option.split)

lemma record_all_snoc [simp]:
  "record_all (rs @ [ob]) m = metrics_record (obs_status ob) (obs_elapsed_ms ob) (obs_blocked ob) (record_all rs m)"
  by (simp add: record_all_def)

lemma live_answer_metrics_ok:
  assumes "header_laws api" "metrics_ok s"
  shows "metrics_ok (live_answer api k i ms r s)"
proof -
  obtain resp where "resp_status resp = routed_status r"
    "handle_end api ms r (lv_metrics s) = (Returned resp, metrics_record (routed_status r) ms (routed_blocked r) (lv_metrics s))"
    using handle_end_records [OF assms(1)] .
  with assms(2) show ?thesis by (auto simp: live_answer_def metrics_ok_def)
qed

lemma live_arrive_metrics_ok:
  assumes "header_laws api" "metrics_ok s"
  shows "metrics_ok (live_arrive api wasm k i env req s)"
proof (cases "uri_path (req_uri req) = ''/metrics''")
  case True
  with assms(2) show ?thesis by (simp add: live_arrive_def metrics_ok_def)
next
  case False
  with assms live_answer_metrics_ok [OF assms] show ?thesis
    by (cases "route_begin api wasm env (nd_state (lv_node s)) (nd_heap (lv_node s)) req")
      (simp_all add: live_arrive_def metrics_ok_def)
qed

lemma metrics_ok_cong:
  "lv_metrics s' = lv_metrics s \<Longrightarrow> lv_answers s' = lv_answers s \<Longrightarrow> metrics_ok s' = metrics_ok s"
  by (simp add: metrics_ok_def)

lemma live_exec_metrics_ok:
  assumes "live_exec d e s = Some s'" "header_laws (d_http d)" "metrics_ok s"
  shows "metrics_ok s'"
proof -
  from assms(1) have "live_event d e s = Some s'" by (simp add: live_exec_def split: if_splits)
  with assms(3) show ?thesis
  proof (cases e)
    case (Arrived k i uptime ms req)
    with \<open>live_event d e s = Some s'\<close> live_arrive_metrics_ok [OF assms(2,3)] show ?thesis
      by (auto split: option.splits if_splits)
  next
    case (Answered i ms)
    with \<open>live_event d e s = Some s'\<close> live_answer_metrics_ok [OF assms(2,3)] assms(3) show ?thesis
      by (auto simp: metrics_ok_def split: option.splits outcome.splits)
  next
    case (Expired i ms)
    with \<open>live_event d e s = Some s'\<close> live_answer_metrics_ok [OF assms(2,3)] show ?thesis
      by (auto split: option.splits if_splits)
  qed (auto simp: live_move_frame elim!: metrics_ok_cong [THEN iffD2, rotated 2]
      split: live_splits)
qed

subsection \<open>The requests being forwarded\<close>

text \<open>
  Each runs on an open connection, under that connection's client address and protocol, has not
  panicked, and makes at most ten moves.
\<close>

definition task_ok :: "(nat \<rightharpoonup> socket_addr \<times> bool) \<Rightarrow> ('io, 'c, 'h, 'b) task \<Rightarrow> bool" where
  "task_ok conns t \<longleftrightarrow>
     conns (tk_conn t) = Some (client_addr (tk_ctx t), is_tls (tk_ctx t)) \<and>
     tk_fwd t \<noteq> FwdPanicked \<and> tk_moves t + fwd_rank (tk_fwd t) \<le> 10"

definition tasks_ok :: "('w, 'm, 'acc, 'acct, 'ord, 'kp, 'io, 'c, 'h, 'b) live \<Rightarrow> bool" where
  "tasks_ok s \<longleftrightarrow> (\<forall>i t. lv_tasks s i = Some t \<longrightarrow> task_ok (lv_conns s) t)"

lemma tasks_ok_cong:
  "lv_conns s' = lv_conns s \<Longrightarrow> lv_tasks s' = lv_tasks s \<Longrightarrow> tasks_ok s' = tasks_ok s"
  by (simp add: tasks_ok_def)

lemma live_close_tasks_ok: "tasks_ok s \<Longrightarrow> tasks_ok (live_close k s)"
  by (auto simp: tasks_ok_def task_ok_def live_close_def split: option.splits if_splits)

lemma live_answer_tasks_ok: "tasks_ok s \<Longrightarrow> tasks_ok (live_answer api k i ms r s)"
  using live_close_tasks_ok [of s k]
  by (auto simp: live_answer_def tasks_ok_def split: prod.split outcome.split)

lemma route_begin_ctx:
  "route_begin api wasm env st hp req = Admitted ctx t \<Longrightarrow> client_addr ctx = env_client env \<and> is_tls ctx = env_is_tls env"
  by (auto simp: route_begin_def Let_def forward_ctx_def split: if_splits option.splits sum.splits bool.splits)

lemma live_arrive_tasks_ok:
  assumes "tasks_ok s" "lv_conns s k = Some (env_client env, env_is_tls env)"
  shows "tasks_ok (live_arrive api wasm k i env req s)"
  using assms live_answer_tasks_ok [OF assms(1), of api k i]
  by (auto simp: live_arrive_def tasks_ok_def task_ok_def dest: route_begin_ctx split: begun.split)

lemma live_move_tasks_ok:
  assumes "live_move net api i t s = Some s'" "lv_tasks s i = Some t" "header_laws api" "tasks_ok s"
  shows "tasks_ok s'"
proof -
  obtain st p w where run: "fwd_step net api (tk_ctx t) (tk_fwd t, lv_pool s, pv_world (nd_prov (lv_node s))) = (st, p, w)"
    by (metis prod_cases3)
  with assms(1) have open_task: "fwd_result (tk_fwd t) = None"
    and s': "lv_conns s' = lv_conns s" "lv_tasks s' = (lv_tasks s)(i \<mapsto> t\<lparr>tk_fwd := st, tk_moves := Suc (tk_moves t)\<rparr>)"
    by (auto simp: live_move_def split: if_splits)
  from assms(2,4) have t: "task_ok (lv_conns s) t" by (simp add: tasks_ok_def)
  with fwd_step_rank [OF run open_task] fwd_step_keeps_running [OF assms(3) run]
  have "task_ok (lv_conns s) (t\<lparr>tk_fwd := st, tk_moves := Suc (tk_moves t)\<rparr>)" by (auto simp: task_ok_def)
  with assms(4) s' show ?thesis by (simp add: tasks_ok_def)
qed

lemma live_exec_tasks_ok:
  assumes "live_exec d e s = Some s'" "header_laws (d_http d)" "tasks_ok s"
  shows "tasks_ok s'"
proof -
  from assms(1) have run: "live_event d e s = Some s'" by (simp add: live_exec_def split: if_splits)
  then show ?thesis
  proof (cases e)
    case (Moved i)
    with run live_move_tasks_ok assms(2,3) show ?thesis by (auto split: option.splits)
  next
    case (Arrived k i uptime ms req)
    with run obtain addr tls_on where k: "lv_conns s k = Some (addr, tls_on)"
      and s': "s' = live_arrive (d_http d) (d_wasm d) k i \<lparr>env_client = addr, env_is_tls = tls_on,
        env_uptime = uptime, env_elapsed_ms = ms, env_steps = 0\<rparr> req s"
      by (auto split: option.splits if_splits)
    show ?thesis unfolding s' by (rule live_arrive_tasks_ok [OF assms(3)]) (simp add: k)
  next
    case (Connected k addr handshake)
    with run have "lv_conns s k = None" "lv_tasks s' = lv_tasks s"
      "lv_conns s' = lv_conns s \<or> (\<exists>c. lv_conns s' = (lv_conns s)(k \<mapsto> c))"
      by (cases "lv_conns s k"; force split: option.splits if_splits sum.splits)+
    with assms(3) show ?thesis by (fastforce simp: tasks_ok_def task_ok_def)
  next
    case (Answered i ms)
    with run assms(3) live_close_tasks_ok live_answer_tasks_ok show ?thesis
      by (auto split: option.splits outcome.splits)
  next
    case (Expired i ms)
    with run assms(3) live_answer_tasks_ok show ?thesis by (auto split: option.splits if_splits)
  next
    case (Closed k)
    with run assms(3) live_close_tasks_ok show ?thesis by auto
  next
    case (Cancelled i)
    with run assms(3) show ?thesis by (auto simp: tasks_ok_def split: if_splits)
  next
    case (Ended r)
    with run show ?thesis by (auto simp: tasks_ok_def)
  qed (use run assms(3) in \<open>auto elim!: tasks_ok_cong [THEN iffD2, rotated 2]
        split: live_splits\<close>)
qed

subsection \<open>The forwarding tasks\<close>

text \<open>
  Under the view that keeps the pool, the world and the state machines of the requests, every event is
  made of steps of \<open>Forward_Tasks\<close>.
\<close>

definition forward_view ::
  "('w, 'm, 'acc, 'acct, 'ord, 'kp, 'io, 'c, 'h, 'b) live \<Rightarrow> ('w, 'io, 'c, 'h, 'b) fwd_sys" where
  "forward_view s =
     \<lparr>sys_pool = lv_pool s, sys_world = pv_world (nd_prov (lv_node s)),
      sys_tasks = (\<lambda>i. map_option (\<lambda>t. (tk_ctx t, tk_fwd t)) (lv_tasks s i)), sys_opened = lv_opened s\<rparr>"

lemma sys_reachable_finite: "sys_reachable net api n s \<Longrightarrow> finite (dom (sys_tasks s))"
proof (induction rule: sys_reachable.induct)
  case (start w)
  then show ?case by (simp add: sys_init_def)
next
  case (step s s')
  from step(2) have "\<exists>i. dom (sys_tasks s') \<subseteq> insert i (dom (sys_tasks s))"
    by (cases rule: sys_step.cases) (auto split: if_splits)
  with step(3) show ?case by (meson finite_insert finite_subset)
qed

text \<open>Any set of requests may be dropped, and the world may change.\<close>

lemma sys_reachable_drop:
  assumes "sys_reachable net api n s"
  shows "sys_reachable net api n (s\<lparr>sys_tasks := (\<lambda>i. if i \<in> A then None else sys_tasks s i)\<rparr>)"
proof -
  have drop: "sys_reachable net api n (s\<lparr>sys_tasks := (\<lambda>i. if i \<in> B then None else sys_tasks s i)\<rparr>)"
    if "finite B" "B \<subseteq> dom (sys_tasks s)" for B
    using that
  proof (induction B)
    case empty
    with assms show ?case by simp
  next
    case (insert j B)
    let ?s = "s\<lparr>sys_tasks := (\<lambda>i. if i \<in> B then None else sys_tasks s i)\<rparr>"
    from insert.prems insert.hyps obtain t where "sys_tasks ?s j = Some t" by auto
    then have "sys_step net api ?s (?s\<lparr>sys_tasks := (sys_tasks ?s)(j := None)\<rparr>)" by (rule sys_step.leave)
    moreover have "?s\<lparr>sys_tasks := (sys_tasks ?s)(j := None)\<rparr> =
        s\<lparr>sys_tasks := (\<lambda>i. if i \<in> insert j B then None else sys_tasks s i)\<rparr>"
      by (auto simp: fun_eq_iff)
    ultimately show ?case using insert by (auto intro: sys_reachable.step)
  qed
  have "(\<lambda>i. if i \<in> A then None else sys_tasks s i) = (\<lambda>i. if i \<in> A \<inter> dom (sys_tasks s) then None else sys_tasks s i)"
  proof
    fix i
    show "(if i \<in> A then None else sys_tasks s i) = (if i \<in> A \<inter> dom (sys_tasks s) then None else sys_tasks s i)"
      by (cases "sys_tasks s i") (auto simp: domIff)
  qed
  with drop [of "A \<inter> dom (sys_tasks s)"] sys_reachable_finite [OF assms] show ?thesis by simp
qed

lemma view_kept:
  assumes "sys_reachable net api n (forward_view s)"
    and "lv_pool s' = lv_pool s" "lv_tasks s' = lv_tasks s" "lv_opened s' = lv_opened s"
  shows "sys_reachable net api n (forward_view s')"
proof -
  have "forward_view s' = (forward_view s)\<lparr>sys_world := pv_world (nd_prov (lv_node s'))\<rparr>"
    using assms(2-4) by (simp add: forward_view_def)
  with assms(1) show ?thesis by (metis sys_reachable.step sys_step.outside)
qed

lemma view_dropped:
  assumes "sys_reachable net api n (forward_view s)"
    and "lv_pool s' = lv_pool s" "lv_node s' = lv_node s" "lv_opened s' = lv_opened s"
    and "lv_tasks s' = (\<lambda>i. if i \<in> A then None else lv_tasks s i)"
  shows "sys_reachable net api n (forward_view s')"
proof -
  have "forward_view s' = (forward_view s)\<lparr>sys_tasks := (\<lambda>i. if i \<in> A then None else sys_tasks (forward_view s) i)\<rparr>"
    using assms(2-5) by (auto simp: forward_view_def fun_eq_iff)
  with sys_reachable_drop [OF assms(1)] show ?thesis by simp
qed

lemma live_close_tasks: "\<exists>A. lv_tasks (live_close k s) = (\<lambda>i. if i \<in> A then None else lv_tasks s i)"
  by (rule exI [of _ "{i. \<exists>t. lv_tasks s i = Some t \<and> tk_conn t = k}"])
    (auto simp: live_close_def fun_eq_iff split: option.split)

lemma live_answer_tasks: "\<exists>A. lv_tasks (live_answer api k i ms r s) = (\<lambda>j. if j \<in> A then None else lv_tasks s j)"
proof (cases "fst (handle_end api ms r (lv_metrics s))")
  case (Returned resp)
  then have "lv_tasks (live_answer api k i ms r s) = (\<lambda>j. if j \<in> {i} then None else lv_tasks s j)"
    by (auto simp: live_answer_def fun_eq_iff split: prod.split)
  then show ?thesis by blast
next
  case Panicked
  then have "live_answer api k i ms r s = live_close k s" by (auto simp: live_answer_def split: prod.split)
  with live_close_tasks show ?thesis by simp
qed

lemma live_answer_view:
  "sys_reachable net api' n (forward_view s) \<Longrightarrow> sys_reachable net api' n (forward_view (live_answer api k i ms r s))"
proof -
  assume view: "sys_reachable net api' n (forward_view s)"
  obtain A where "lv_tasks (live_answer api k i ms r s) = (\<lambda>j. if j \<in> A then None else lv_tasks s j)"
    using live_answer_tasks by blast
  then show ?thesis by (intro view_dropped [OF view]) simp_all
qed

lemma live_close_view:
  "sys_reachable net api n (forward_view s) \<Longrightarrow> sys_reachable net api n (forward_view (live_close k s))"
proof -
  assume view: "sys_reachable net api n (forward_view s)"
  obtain A where "lv_tasks (live_close k s) = (\<lambda>j. if j \<in> A then None else lv_tasks s j)"
    using live_close_tasks by blast
  then show ?thesis by (intro view_dropped [OF view]) simp_all
qed

lemma live_arrive_view:
  assumes "sys_reachable net api n (forward_view s)" "lv_tasks s i = None"
  shows "sys_reachable net api n (forward_view (live_arrive api' wasm k i env req s))"
proof (cases "uri_path (req_uri req) = ''/metrics''")
  case True
  with assms(1) show ?thesis by (auto simp: live_arrive_def intro: view_kept)
next
  case False
  show ?thesis
  proof (cases "route_begin api' wasm env (nd_state (lv_node s)) (nd_heap (lv_node s)) req")
    case (Decided r)
    with False assms(1) live_answer_view show ?thesis by (simp add: live_arrive_def)
  next
    case (Admitted ctx t)
    have "sys_tasks (forward_view s) i = None" using assms(2) by (simp add: forward_view_def)
    from sys_step.arrive [OF this, of net api ctx req] assms(1)
    have "sys_reachable net api n ((forward_view s)\<lparr>sys_tasks := (sys_tasks (forward_view s))(i \<mapsto> (ctx, CollectRequest req))\<rparr>)"
      by (rule sys_reachable.step [rotated])
    also have "(forward_view s)\<lparr>sys_tasks := (sys_tasks (forward_view s))(i \<mapsto> (ctx, CollectRequest req))\<rparr> =
        forward_view (live_arrive api' wasm k i env req s)"
      using False Admitted by (auto simp: forward_view_def live_arrive_def fun_eq_iff)
    finally show ?thesis .
  qed
qed

lemma live_move_view:
  assumes "live_move net api i t s = Some s'" "lv_tasks s i = Some t" "sys_reachable net api n (forward_view s)"
  shows "sys_reachable net api n (forward_view s')"
proof -
  obtain st p w where run: "fwd_step net api (tk_ctx t) (tk_fwd t, lv_pool s, pv_world (nd_prov (lv_node s))) = (st, p, w)"
    by (metis prod_cases3)
  with assms(1) have fresh: "fresh_connection (lv_opened s) (tk_fwd t) st"
    and s': "s' = s\<lparr>lv_pool := p, lv_node := (lv_node s)\<lparr>nd_prov := (nd_prov (lv_node s))\<lparr>pv_world := w\<rparr>\<rparr>,
        lv_tasks := (lv_tasks s)(i \<mapsto> t\<lparr>tk_fwd := st, tk_moves := Suc (tk_moves t)\<rparr>),
        lv_opened := note_opened (tk_ctx t) (tk_fwd t) st (lv_opened s)\<rparr>"
    by (auto simp: live_move_def split: if_splits)
  have "sys_tasks (forward_view s) i = Some (tk_ctx t, tk_fwd t)" using assms(2) by (simp add: forward_view_def)
  then have "sys_step net api (forward_view s)
      \<lparr>sys_pool = p, sys_world = w, sys_tasks = (sys_tasks (forward_view s))(i \<mapsto> (tk_ctx t, st)),
       sys_opened = note_opened (tk_ctx t) (tk_fwd t) st (sys_opened (forward_view s))\<rparr>"
    by (rule sys_step.move) (use run fresh in \<open>simp_all add: forward_view_def\<close>)
  moreover have "\<lparr>sys_pool = p, sys_world = w, sys_tasks = (sys_tasks (forward_view s))(i \<mapsto> (tk_ctx t, st)),
       sys_opened = note_opened (tk_ctx t) (tk_fwd t) st (sys_opened (forward_view s))\<rparr> = forward_view s'"
    unfolding s' by (auto simp: forward_view_def fun_eq_iff)
  ultimately show ?thesis using assms(3) sys_reachable.step by metis
qed

lemma live_exec_view:
  assumes "live_exec d e s = Some s'" "sys_reachable (d_net d) (d_http d) n (forward_view s)"
  shows "sys_reachable (d_net d) (d_http d) n (forward_view s')"
proof -
  from assms(1) have run: "live_event d e s = Some s'" by (simp add: live_exec_def split: if_splits)
  then show ?thesis
  proof (cases e)
    case (Moved i)
    with run live_move_view assms(2) show ?thesis by (auto split: option.splits)
  next
    case (Arrived k i uptime ms req)
    with run live_arrive_view [OF assms(2)] show ?thesis by (auto split: option.splits if_splits)
  next
    case (Answered i ms)
    with run assms(2) live_close_view live_answer_view show ?thesis by (auto split: option.splits outcome.splits)
  next
    case (Expired i ms)
    with run assms(2) live_answer_view show ?thesis by (auto split: option.splits if_splits)
  next
    case (Closed k)
    with run assms(2) live_close_view show ?thesis by auto
  next
    case (Cancelled i)
    with run view_dropped [OF assms(2), of s' "{i}"] show ?thesis by (auto simp: fun_eq_iff)
  next
    case (Ended r)
    with run view_dropped [OF assms(2), of s' UNIV] show ?thesis by auto
  qed (use run assms(2) in \<open>auto elim!: view_kept split: live_splits\<close>)
qed

end
