(* ===== verification/Proxy_Runs.thy ===== *)
theory Proxy_Runs
  imports System_Laws
begin

section \<open>Runs of a started proxy\<close>

text \<open>
  The properties of a server that \<open>run_with_listener_hot\<close> has started, in every state any interleaving
  of its tasks leads to. \<open>boot\<close> is the start, \<open>live_run\<close> the interleaving.
\<close>

definition boot ::
  "('w, 'm, 's, 'cert, 'key, 'srv, 'acc, 'acct, 'ord, 'par, 'kp, 'csr, 'io, 'c, 'h, 'b) deps \<Rightarrow> faults \<Rightarrow> nat \<Rightarrow>
   start_env \<Rightarrow> flag_heap \<Rightarrow> 'w prov \<Rightarrow> (proxy_error + ('w, 'm, 'acc, 'c) running) outcome option" where
  "boot d faults fuel env hp pv =
     start_hot (d_toml d) (d_wasm d) (d_tls d) (d_acme d) faults fuel (d_config_path d) env hp pv"

subsection \<open>The start satisfies the laws\<close>

lemma boot_started:
  assumes "boot d faults fuel env hp pv = Some (Returned (Ok rn))"
  shows "flags_ok (live_of rn)" "serving_ok (nd_state (run_node rn))" "metrics_ok (live_of rn)"
    and "tasks_ok (live_of rn)" "\<exists>n. run_pool rn = pool_new n"
proof -
  note start = assms [unfolded boot_def]
  from start_hot_built [OF start] obtain fs c hp0 where built: "config_ok c"
    "build_state (d_wasm d) (d_tls d) faults fs c hp0 = (Ok (nd_state (run_node rn)), nd_heap (run_node rn))" by blast
  have health: "run_health rn = spawn_health (nd_state (run_node rn))" by (rule start_hot_Ok [OF start])
  have "map snd (run_health rn) = cells (nd_state (run_node rn))"
    by (simp add: health spawn_health_def cells_def comp_def)
  moreover have "distinct (map snd (run_health rn))" using started_server [OF start] by blast
  moreover have "a < length (nd_heap (run_node rn))" if "a \<in> set (cells (nd_state (run_node rn)))" for a
    using build_state_cells [OF built(2) that] by simp
  ultimately show "flags_ok (live_of rn)"
    using build_state_distinct [OF built(2)] by (simp add: flags_ok_def flip: set_map)
  show "serving_ok (nd_state (run_node rn))" using build_state_serving_ok [OF built] .
  have "run_metrics rn = metrics_new" by (rule start_hot_Ok [OF start])
  then show "metrics_ok (live_of rn)" by (simp add: metrics_ok_def record_all_def)
  show "tasks_ok (live_of rn)" by (simp add: tasks_ok_def)
  show "\<exists>n. run_pool rn = pool_new n" by (rule start_hot_Ok [OF start]) blast
qed

text \<open>What holds in every state of a run.\<close>

lemma run_flags:
  assumes "boot d faults fuel env hp pv = Some (Returned (Ok rn))" "live_run d es (live_of rn) = Some s"
  shows "flags_ok s \<and> flags_silent (nd_state (run_node rn)) s \<and> loops s = run_health rn"
proof (rule live_run_invariant [OF assms(2), of
      "\<lambda>s. flags_ok s \<and> flags_silent (nd_state (run_node rn)) s \<and> loops s = run_health rn" "\<lambda>_. True"])
  show "flags_ok (live_of rn) \<and> flags_silent (nd_state (run_node rn)) (live_of rn) \<and> loops (live_of rn) = run_health rn"
    using boot_started(1) [OF assms(1)] by (simp add: flags_silent_def)
qed (auto simp: live_exec_loops list_all_iff intro: live_exec_flags_ok live_exec_flags_silent)

lemma run_metrics_ok:
  assumes "boot d faults fuel env hp pv = Some (Returned (Ok rn))" "live_run d es (live_of rn) = Some s"
    and "header_laws (d_http d)"
  shows "metrics_ok s"
  by (rule live_run_invariant [OF assms(2), of metrics_ok "\<lambda>_. True"])
    (auto simp: list_all_iff intro: live_exec_metrics_ok assms(3) boot_started(3) [OF assms(1)])

lemma run_tasks_ok:
  assumes "boot d faults fuel env hp pv = Some (Returned (Ok rn))" "live_run d es (live_of rn) = Some s"
    and "header_laws (d_http d)"
  shows "tasks_ok s"
  by (rule live_run_invariant [OF assms(2), of tasks_ok "\<lambda>_. True"])
    (auto simp: list_all_iff intro: live_exec_tasks_ok assms(3) boot_started(4) [OF assms(1)])

lemma run_view:
  assumes "boot d faults fuel env hp pv = Some (Returned (Ok rn))" "live_run d es (live_of rn) = Some s"
  shows "sys_reachable (d_net d) (d_http d) (max_idle_per_host (run_pool rn)) (forward_view s)"
proof (rule live_run_invariant [OF assms(2), of
      "\<lambda>s. sys_reachable (d_net d) (d_http d) (max_idle_per_host (run_pool rn)) (forward_view s)" "\<lambda>_. True"])
  obtain n where "run_pool rn = pool_new n" using boot_started(5) [OF assms(1)] by blast
  then have "forward_view (live_of rn) =
      sys_init (max_idle_per_host (run_pool rn)) (pv_world (nd_prov (run_node rn)))"
    by (auto simp: forward_view_def sys_init_def pool_new_def fun_eq_iff)
  then show "sys_reachable (d_net d) (d_http d) (max_idle_per_host (run_pool rn)) (forward_view (live_of rn))"
    by (metis sys_reachable.start)
qed (auto simp: list_all_iff intro: live_exec_view)

subsection \<open>One request alone\<close>

text \<open>The moves of an undisturbed request are \<open>fwd_run\<close>.\<close>

lemma live_run_moves:
  assumes "live_run d (replicate n (Moved i)) s = Some s'" "lv_tasks s i = Some t"
    and "fwd_run (d_net d) (d_http d) (tk_ctx t) n (tk_fwd t, lv_pool s, pv_world (nd_prov (lv_node s))) = (st, p, w)"
  shows "\<exists>t'. lv_tasks s' i = Some t' \<and> tk_fwd t' = st \<and> tk_ctx t' = tk_ctx t \<and> tk_timeout t' = tk_timeout t \<and>
     tk_conn t' = tk_conn t \<and> lv_pool s' = p \<and> pv_world (nd_prov (lv_node s')) = w \<and>
     lv_metrics s' = lv_metrics s \<and> lv_answers s' = lv_answers s"
  using assms
proof (induction n arbitrary: s t)
  case 0
  then show ?case by simp
next
  case (Suc n)
  obtain st1 p1 w1 where step: "fwd_step (d_net d) (d_http d) (tk_ctx t) (tk_fwd t, lv_pool s, pv_world (nd_prov (lv_node s))) =
      (st1, p1, w1)" by (metis prod_cases3)
  from Suc.prems(1) obtain s1 where s1: "live_exec d (Moved i) s = Some s1" "live_run d (replicate n (Moved i)) s1 = Some s'"
    by (auto split: option.splits)
  let ?t = "t\<lparr>tk_fwd := st1, tk_moves := Suc (tk_moves t)\<rparr>"
  from s1(1) Suc.prems(2) step have s1_is: "lv_tasks s1 i = Some ?t" "lv_pool s1 = p1"
    "pv_world (nd_prov (lv_node s1)) = w1" "lv_metrics s1 = lv_metrics s" "lv_answers s1 = lv_answers s"
    by (auto simp: live_exec_def live_move_def split: if_splits)
  have "fwd_run (d_net d) (d_http d) (tk_ctx ?t) n (tk_fwd ?t, lv_pool s1, pv_world (nd_prov (lv_node s1))) = (st, p, w)"
    using Suc.prems(3) step s1_is by (simp add: fwd_run_Suc)
  from Suc.IH [OF s1(2) s1_is(1) this] s1_is show ?case by simp
qed

lemma live_answer_returned:
  assumes "handle_end api ms r (lv_metrics s) = (Returned resp, m)"
  shows "live_answer api k i ms r s = s\<lparr>lv_metrics := m, lv_tasks := (lv_tasks s)(i := None),
    lv_answers := lv_answers s @ [\<lparr>an_request = i, an_response = resp,
      an_observed = Some \<lparr>obs_status = resp_status resp, obs_elapsed_ms = ms, obs_blocked = routed_blocked r\<rparr>\<rparr>]\<rparr>"
  using assms by (simp add: live_answer_def)

text \<open>How the forwarding of a request ends: returned, or dropped by the timer.\<close>

fun ends_request :: "nat \<Rightarrow> u64 \<Rightarrow> ('w, 'm, 's, 'h, 'b) event \<Rightarrow> bool" where
  "ends_request i ms (Answered j ms') = (j = i \<and> ms' = ms)"
| "ends_request i ms (Expired j ms') = (j = i \<and> ms' = ms)"
| "ends_request i ms _ = False"

lemma live_run_gone:
  assumes "lv_tasks s i = None" "ends_request i ms e"
  shows "live_run d (replicate n (Moved i) @ [e]) s = None"
  using assms by (cases n; cases e) (auto simp: live_exec_def)

text \<open>The end of an admitted request is that of \<open>forward\<close> with as many steps as it made moves.\<close>

lemma live_exec_ends:
  assumes "live_exec d e s = Some s'" "ends_request i ms e" "lv_tasks s i = Some t"
    and "header_laws (d_http d)" "tk_fwd t \<noteq> FwdPanicked"
  obtains r resp where
    "r = (case fwd_result (tk_fwd t) of Some (Returned x) \<Rightarrow> routed_of x
                                      | _ \<Rightarrow> Err (timeout_error (tk_ctx t) (tk_timeout t)))"
    "handle_end (d_http d) ms r (lv_metrics s) = (Returned resp, lv_metrics s')"
    "lv_tasks s' i = None" "lv_pool s' = lv_pool s" "lv_node s' = lv_node s"
    "\<exists>ob. lv_answers s' = lv_answers s @ [\<lparr>an_request = i, an_response = resp, an_observed = Some ob\<rparr>]"
proof -
  let ?r = "case fwd_result (tk_fwd t) of Some (Returned x) \<Rightarrow> routed_of x
                                      | _ \<Rightarrow> Err (timeout_error (tk_ctx t) (tk_timeout t))"
  have "fwd_result (tk_fwd t) \<noteq> Some Panicked" using assms(5) by (cases "tk_fwd t") simp_all
  with assms(1-3) have s': "s' = live_answer (d_http d) (tk_conn t) i ms ?r s"
    by (cases e) (auto simp: live_exec_def split: if_splits option.splits outcome.splits)
  obtain resp where "resp_status resp = routed_status ?r"
    and resp: "handle_end (d_http d) ms ?r (lv_metrics s) =
      (Returned resp, metrics_record (routed_status ?r) ms (routed_blocked ?r) (lv_metrics s))"
    by (rule handle_end_records [OF assms(4)])
  note ended = live_answer_returned [OF resp, of "tk_conn t" i, folded s']
  show thesis
    by (rule that [OF refl, of resp]) (use resp in \<open>simp_all add: ended del: fwd_result.simps\<close>)
qed

text \<open>An admitted request whose moves nothing interrupts: \<open>forward\<close>, and the end of \<open>handle\<close>.\<close>

lemma live_run_forwarded:
  assumes "header_laws (d_http d)" "live_run d (replicate n (Moved i) @ [e]) s = Some s'" "ends_request i ms e"
    and "lv_tasks s i = Some t" "tk_fwd t = CollectRequest req"
  obtains x resp ob where
    "forward (d_net d) (d_http d) (tk_ctx t) (tk_timeout t) n req (lv_pool s) (pv_world (nd_prov (lv_node s))) =
       (Returned x, lv_pool s', pv_world (nd_prov (lv_node s')))"
    and "handle_end (d_http d) ms (routed_of x) (lv_metrics s) = (Returned resp, lv_metrics s')"
    and "lv_answers s' = lv_answers s @ [\<lparr>an_request = i, an_response = resp, an_observed = Some ob\<rparr>]"
proof -
  from assms(2) obtain s2 where moves: "live_run d (replicate n (Moved i)) s = Some s2"
    and last: "live_exec d e s2 = Some s'"
    by (auto simp: live_run_append split: option.splits)
  obtain st p w where run: "fwd_run (d_net d) (d_http d) (tk_ctx t) n
      (CollectRequest req, lv_pool s, pv_world (nd_prov (lv_node s))) = (st, p, w)" by (metis prod_cases3)
  from live_run_moves [OF moves assms(4), of st p w] run assms(5) obtain t2 where
    t2: "lv_tasks s2 i = Some t2" "tk_fwd t2 = st" "tk_ctx t2 = tk_ctx t" "tk_timeout t2 = tk_timeout t"
    and s2: "lv_pool s2 = p" "pv_world (nd_prov (lv_node s2)) = w" "lv_metrics s2 = lv_metrics s"
      "lv_answers s2 = lv_answers s" by auto
  have "st \<noteq> FwdPanicked"
    using fwd_run_no_panic [OF assms(1), of "(CollectRequest req, lv_pool s, pv_world (nd_prov (lv_node s)))"
        "d_net d" "tk_ctx t" n] run by simp
  with live_exec_ends [OF last assms(3) t2(1) assms(1)] t2 obtain r resp where
    r: "r = (case fwd_result st of Some (Returned x) \<Rightarrow> routed_of x | _ \<Rightarrow> Err (timeout_error (tk_ctx t) (tk_timeout t)))"
    and ended: "handle_end (d_http d) ms r (lv_metrics s2) = (Returned resp, lv_metrics s')"
      "lv_pool s' = lv_pool s2" "lv_node s' = lv_node s2"
      "\<exists>ob. lv_answers s' = lv_answers s2 @ [\<lparr>an_request = i, an_response = resp, an_observed = Some ob\<rparr>]"
    by metis
  let ?x = "case fwd_result st of Some (Returned x) \<Rightarrow> x | _ \<Rightarrow> Err (timeout_error (tk_ctx t) (tk_timeout t))"
  have fwd: "forward (d_net d) (d_http d) (tk_ctx t) (tk_timeout t) n req (lv_pool s) (pv_world (nd_prov (lv_node s))) =
      (Returned ?x, p, w)"
    using run \<open>st \<noteq> FwdPanicked\<close> by (cases st) (simp_all add: forward_def)
  moreover have "r = routed_of ?x" unfolding r by (simp split: option.split outcome.split)
  ultimately show thesis using ended s2 that [of ?x resp] by auto
qed

subsection \<open>Properties: requests\<close>

text \<open>
  C30: a request whose moves no other task interrupts is answered as \<open>handle\<close> answers it: the same
  response, the same pool, the same network calls and the same counters, the timer firing where it
  fired.
\<close>
theorem undisturbed_request_is_handled:
  assumes "header_laws (d_http d)" "lv_conns s k = Some (addr, tls_on)" "uri_path (req_uri req) \<noteq> ''/metrics''"
    and "es = [] \<or> (\<exists>e. es = replicate n (Moved i) @ [e] \<and> ends_request i ms e)"
    and "live_run d (Arrived k i uptime ms req # es) s = Some s'" "lv_tasks s' i = None"
  shows "\<exists>resp ob. handle (d_http d) (d_net d) (d_wasm d)
      \<lparr>env_client = addr, env_is_tls = tls_on, env_uptime = uptime, env_elapsed_ms = ms, env_steps = n\<rparr>
      (nd_state (lv_node s)) (nd_heap (lv_node s)) req (lv_pool s) (pv_world (nd_prov (lv_node s))) (lv_metrics s) =
      (Returned resp, lv_pool s', pv_world (nd_prov (lv_node s')), lv_metrics s') \<and>
    lv_answers s' = lv_answers s @ [\<lparr>an_request = i, an_response = resp, an_observed = Some ob\<rparr>]"
proof -
  let ?env = "\<lambda>n. \<lparr>env_client = addr, env_is_tls = tls_on, env_uptime = uptime, env_elapsed_ms = ms, env_steps = n\<rparr>"
  let ?start = "\<lambda>n. route_begin (d_http d) (d_wasm d) (?env n) (nd_state (lv_node s)) (nd_heap (lv_node s)) req"
  have begin_eq: "?start n = ?start 0"
    by (auto simp: route_begin_def forward_ctx_def Let_def split: option.split sum.split bool.split)
  from assms(2,5) obtain s1 where s1: "s1 = live_arrive (d_http d) (d_wasm d) k i (?env 0) req s"
    and rest: "live_run d es s1 = Some s'" and new: "lv_tasks s i = None"
    by (auto simp: live_exec_def split: option.splits if_splits)
  show ?thesis
  proof (cases "?start 0")
    case (Decided r)
    obtain resp where "resp_status resp = routed_status r"
      and resp: "handle_end (d_http d) ms r (lv_metrics s) =
        (Returned resp, metrics_record (routed_status r) ms (routed_blocked r) (lv_metrics s))"
      by (rule handle_end_records [OF assms(1)])
    from Decided s1 assms(3) have "s1 = live_answer (d_http d) k i ms r s" by (simp add: live_arrive_def)
    note s1_is = this [unfolded live_answer_returned [OF resp, of k i]]
    then have "lv_tasks s1 i = None" by simp
    with live_run_gone [of s1 i ms _ d n] assms(4) rest have "s' = s1" by auto
    with s1_is Decided resp begin_eq show ?thesis by (simp add: handle_phases [OF assms(3)])
  next
    case (Admitted ctx timeout)
    let ?t = "\<lparr>tk_conn = k, tk_ctx = ctx, tk_timeout = timeout, tk_fwd = CollectRequest req, tk_moves = 0\<rparr>"
    from Admitted s1 assms(3) have s1_is: "s1 = s\<lparr>lv_tasks := (lv_tasks s)(i \<mapsto> ?t)\<rparr>" by (simp add: live_arrive_def)
    with rest assms(4,6) obtain e where es: "live_run d (replicate n (Moved i) @ [e]) s1 = Some s'"
      "ends_request i ms e" by auto
    have t: "lv_tasks s1 i = Some ?t" "tk_fwd ?t = CollectRequest req" using s1_is by simp_all
    from live_run_forwarded [OF assms(1) es t] show ?thesis
      by (rule, use Admitted begin_eq s1_is in \<open>auto simp: handle_phases [OF assms(3)]\<close>)
  qed
qed

text \<open>
  No request is stuck: in any state of any run the answer of a request being forwarded can be
  given, because its forwarding has returned or because its timer may fire, and that ends it.
\<close>
theorem request_can_be_answered:
  assumes "boot d faults fuel env hp pv = Some (Returned (Ok rn))" "live_run d es (live_of rn) = Some s"
    and "header_laws (d_http d)" "lv_ended s = None" "lv_tasks s i = Some t"
  shows "\<exists>e s' resp ob. ends_request i ms e \<and> live_exec d e s = Some s' \<and> lv_tasks s' i = None \<and>
     lv_answers s' = lv_answers s @ [\<lparr>an_request = i, an_response = resp, an_observed = Some ob\<rparr>]"
proof -
  have "tk_fwd t \<noteq> FwdPanicked"
    using run_tasks_ok [OF assms(1-3)] assms(5) by (auto simp: tasks_ok_def task_ok_def)
  moreover obtain e s' where e: "ends_request i ms e" "live_exec d e s = Some s'"
  proof (cases "fwd_result (tk_fwd t)")
    case None
    with assms(4,5) that [of "Expired i ms"] show thesis by (simp add: live_exec_def)
  next
    case (Some x)
    with assms(4,5) that [of "Answered i ms"] show thesis by (cases x) (simp_all add: live_exec_def)
  qed
  ultimately show ?thesis
    using live_exec_ends [OF e(2,1) assms(5,3)] e by metis
qed

text \<open>
  Whatever else runs, a request being forwarded makes at most ten moves, after which its answer is
  there; it never panics, and it runs on an open connection, under that connection's client address
  and protocol.
\<close>
theorem request_makes_ten_moves:
  assumes "boot d faults fuel env hp pv = Some (Returned (Ok rn))" "live_run d es (live_of rn) = Some s"
    and "header_laws (d_http d)" "lv_tasks s i = Some t"
  shows "tk_moves t \<le> 10 \<and> (tk_moves t = 10 \<longrightarrow> (\<exists>r. fwd_result (tk_fwd t) = Some (Returned r))) \<and>
     tk_fwd t \<noteq> FwdPanicked \<and> lv_conns s (tk_conn t) = Some (client_addr (tk_ctx t), is_tls (tk_ctx t))"
proof -
  have ok: "task_ok (lv_conns s) t"
    using run_tasks_ok [OF assms(1-3)] assms(4) by (simp add: tasks_ok_def)
  moreover have "\<exists>r. fwd_result (tk_fwd t) = Some (Returned r)" if "tk_moves t = 10"
    using ok that fwd_rank_0 [of "tk_fwd t"] by (cases "tk_fwd t") (auto simp: task_ok_def)
  ultimately show ?thesis by (auto simp: task_ok_def)
qed

subsection \<open>Properties: the pool\<close>

text \<open>
  C1: in any run of a started proxy a connection to an upstream that a request holds was opened for
  that request's upstream, is not idle in the pool under any address, and is held by no other request.
\<close>
theorem running_connections_have_one_owner:
  assumes "boot d faults fuel env hp pv = Some (Returned (Ok rn))" "live_run d es (live_of rn) = Some s"
    and "lv_tasks s i = Some t" "held (tk_fwd t) = Some c"
  shows "lv_opened s c = Some (upstream_addr (tk_ctx t)) \<and> (\<forall>a. c \<notin> set (idle_list (lv_pool s) a)) \<and>
     (\<forall>j u. j \<noteq> i \<longrightarrow> lv_tasks s j = Some u \<longrightarrow> held (tk_fwd u) \<noteq> Some c)"
proof -
  let ?v = "forward_view s"
  have "task_holds ?v i = Some c" using assms(3,4) by (simp add: task_holds_def forward_view_def)
  moreover have "sys_inv ?v" using run_view [OF assms(1,2)] by (rule sys_reachable_inv)
  ultimately have own: "sys_opened ?v c = Some (task_target ?v i)" "\<forall>a. c \<notin> set (idle_list (sys_pool ?v) a)"
    "\<forall>j. j \<noteq> i \<longrightarrow> task_holds ?v j \<noteq> Some c"
    unfolding sys_inv_def owned_def by blast+
  have "held (tk_fwd u) \<noteq> Some c" if "j \<noteq> i" "lv_tasks s j = Some u" for j u
    using own(3) that by (auto simp: task_holds_def forward_view_def)
  with own(1,2) assms(3) show ?thesis by (simp add: task_target_def forward_view_def)
qed

text \<open>
  C19: in any run each upstream address has at most as many idle connections as the configuration the
  server started with allows, all different and all opened for that address.
\<close>
theorem running_idle_connections_bounded:
  assumes "boot d faults fuel env hp pv = Some (Returned (Ok rn))" "live_run d es (live_of rn) = Some s"
    and "config_from_file (d_toml d) faults (pv_files pv) (d_config_path d) = Ok c"
  shows "length (idle_list (lv_pool s) a) \<le> max_idle_connections (server c) \<and> distinct (idle_list (lv_pool s) a) \<and>
     (\<forall>x \<in> set (idle_list (lv_pool s) a). lv_opened s x = Some a)"
proof -
  have "max_idle_per_host (run_pool rn) = max_idle_connections (server c)"
    by (rule start_hot_Ok [OF assms(1) [unfolded boot_def]]) (use assms(3) in \<open>auto simp: pool_new_def\<close>)
  with run_view [OF assms(1,2)] sys_reachable_inv [OF run_view [OF assms(1,2)]]
    sys_reachable_cap [OF run_view [OF assms(1,2)]]
  show ?thesis unfolding sys_inv_def owned_def by (auto simp: forward_view_def)
qed

subsection \<open>Properties: the background tasks\<close>

text \<open>
  C35: the flags stay in order: those of the routes served and of the health loops are allocated, no two
  routes share one and no two loops do, and there is one loop per route of the first state, on that
  route's upstream and, as long as that state is served, on the very flag its requests are admitted by.
\<close>
theorem flags_well_formed:
  assumes "boot d faults fuel env hp pv = Some (Returned (Ok rn))" "live_run d es (live_of rn) = Some s"
  shows "(\<forall>rs \<in> set (app_routes (nd_state (lv_node s))). rs_healthy rs < length (nd_heap (lv_node s))) \<and>
     distinct (map rs_healthy (app_routes (nd_state (lv_node s)))) \<and>
     map (\<lambda>(addr, a, h). (addr, a)) (lv_health s) = spawn_health (nd_state (run_node rn)) \<and>
     (\<forall>(addr, a, h) \<in> set (lv_health s). a < length (nd_heap (lv_node s))) \<and>
     distinct (map (\<lambda>(addr, a, h). a) (lv_health s)) \<and>
     (nd_state (lv_node s) = nd_state (run_node rn) \<longrightarrow>
        map (\<lambda>(addr, a, h). a) (lv_health s) = map rs_healthy (app_routes (nd_state (lv_node s))))"
proof -
  from run_flags [OF assms] have ok: "flags_ok s" "loops s = run_health rn" by simp_all
  have spawned: "run_health rn = spawn_health (nd_state (run_node rn))"
    by (rule start_hot_Ok [OF assms(1) [unfolded boot_def]])
  have flags: "map snd (loops s) = map (\<lambda>(addr, a, h). a) (lv_health s)"
    by (simp add: loops_def comp_def case_prod_unfold)
  then have "snd ` set (loops s) = (\<lambda>(addr, a, h). a) ` set (lv_health s)" by (metis set_map)
  moreover from flags have "map (\<lambda>(addr, a, h). a) (lv_health s) = map rs_healthy (app_routes (nd_state (run_node rn)))"
    by (simp add: ok(2) spawned spawn_health_def comp_def)
  ultimately show ?thesis using ok spawned flags by (auto simp: flags_ok_def cells_def loops_def [of s, symmetric])
qed

text \<open>
  C38: the health loops only ever speak for the state the server started with: in any run, once a reload
  or a renewal has swapped in another state, all its routes are marked healthy, whatever the polls of
  their upstreams say.
\<close>
theorem swapped_in_routes_stay_up:
  assumes "boot d faults fuel env hp pv = Some (Returned (Ok rn))" "live_run d es (live_of rn) = Some s"
    and "nd_state (lv_node s) \<noteq> nd_state (run_node rn)"
  shows "\<forall>rs \<in> set (app_routes (nd_state (lv_node s))). flag_load (nd_heap (lv_node s)) (rs_healthy rs)"
  using run_flags [OF assms(1,2)] assms(3) by (auto simp: flags_silent_def cells_def)

text \<open>
  C14: if the configuration file only ever holds valid configurations, the routes served are those of a
  valid configuration throughout any run, through reloads, renewals and the edits between their steps.
\<close>
theorem valid_routes_throughout:
  assumes "boot d faults fuel env hp pv = Some (Returned (Ok rn))" "live_run d es (live_of rn) = Some s"
    and "disk_ok d (pv_files (nd_prov (run_node rn)))" "list_all (edits_ok d) es"
    and "\<And>dir. d_config_path d \<notin> insert (lock_path dir) (cache_files dir)"
  shows "routes_ok (map rs_route (app_routes (nd_state (lv_node s))))"
proof -
  have "config_safe d s"
    by (rule live_run_invariant [OF assms(2), of "config_safe d" "edits_ok d"])
      (use boot_started(2) [OF assms(1)] assms(3-5) in \<open>auto simp: config_safe_def [of d "live_of rn"] phase_ok_def
        intro: live_exec_config_safe\<close>)
  then show ?thesis by (simp add: config_safe_def serving_ok_def)
qed

text \<open>
  C40: in any run the counters are those of the answers given so far: each answer but those of
  \<open>/metrics\<close> is counted once, under its own status, and nothing else is.
\<close>
theorem counters_match_answers:
  assumes "boot d faults fuel env hp pv = Some (Returned (Ok rn))" "live_run d es (live_of rn) = Some s"
    and "header_laws (d_http d)"
  shows "lv_metrics s = record_all (observed (lv_answers s)) metrics_new \<and>
     (\<forall>a \<in> set (lv_answers s). \<forall>ob. an_observed a = Some ob \<longrightarrow> obs_status ob = resp_status (an_response a)) \<and>
     requests_total (lv_metrics s) = of_nat (length (observed (lv_answers s)))"
proof -
  have total: "requests_total (record_all obs m) = requests_total m + of_nat (length obs)" for obs m
    by (induction obs rule: rev_induct) (simp_all add: metrics_record_total, simp add: record_all_def)
  show ?thesis
    using run_metrics_ok [OF assms] total [of "observed (lv_answers s)" metrics_new]
    by (simp add: metrics_ok_def) (simp add: metrics_new_def)
qed

lemma health_run_snoc:
  "health_run ft rt (oks @ [ok]) s = upstream_health_step ft rt ok (health_run ft rt oks s)"
  by (simp add: health_run_def)

lemma run_health_loop:
  assumes "boot d faults fuel env hp pv = Some (Returned (Ok rn))" "live_run d es (live_of rn) = Some s"
    and "k < length (run_health rn)" "run_health rn ! k = (addr, a)"
  shows "\<exists>h. lv_health s ! k = (addr, a, h) \<and>
     (h, flag_load (nd_heap (lv_node s)) a) = health_run fail_threshold recover_threshold (polls_of k es) (health_init, True)"
  using assms(2)
proof (induction es arbitrary: s rule: rev_induct)
  case Nil
  have "(addr, a) \<in> set (run_health rn)" using assms(3,4) by (metis nth_mem)
  moreover have "\<forall>(addr, flag) \<in> set (run_health rn). flag_load (nd_heap (run_node rn)) flag"
    using started_server [OF assms(1) [unfolded boot_def]] by blast
  ultimately have "flag_load (nd_heap (run_node rn)) a" by blast
  moreover have "lv_health (live_of rn) ! k = (addr, a, health_init)" using assms(3,4) by (simp add: live_of_def)
  ultimately show ?case using Nil by (auto simp: polls_of_def List.map_filter_def health_run_def)
next
  case (snoc e es)
  then obtain s1 where s1: "live_run d es (live_of rn) = Some s1" "live_exec d e s1 = Some s"
    by (auto simp: live_run_append split: option.splits)
  from snoc.IH [OF s1(1)] obtain h where h: "lv_health s1 ! k = (addr, a, h)"
    "(h, flag_load (nd_heap (lv_node s1)) a) = health_run fail_threshold recover_threshold (polls_of k es) (health_init, True)"
    by blast
  from run_flags [OF assms(1) s1(1)] have ok: "flags_ok s1" "loops s1 = run_health rn" by simp_all
  then have k: "k < length (lv_health s1)" using assms(3) by (metis length_map loops_def)
  have a: "a < length (nd_heap (lv_node s1))"
    using ok assms(3,4) nth_mem [OF assms(3)] by (force simp: flags_ok_def)
  show ?case
  proof (cases "\<exists>ok. e = Polled k ok")
    case True
    then obtain ok where e: "e = Polled k ok" by blast
    from live_exec_own_poll [OF s1(2) [unfolded e] h(1) a] h(2) e show ?thesis
      by (simp add: polls_of_snoc health_run_snoc)
  next
    case False
    then have "polls_of k (es @ [e]) = polls_of k es" by (auto simp: polls_of_snoc split: event.split)
    with live_exec_other_poll [OF s1(2) ok(1) k h(1)] False h(2) show ?thesis by auto
  qed
qed

text \<open>
  C32: in any run the flag of a health loop is what the hysteresis specification says of that loop's own
  polls: reloads, renewals, requests and the other loops do not interfere.
\<close>
theorem health_flags_do_not_interfere:
  assumes "boot d faults fuel env hp pv = Some (Returned (Ok rn))" "live_run d es (live_of rn) = Some s"
    and "k < length (run_health rn)" "length (polls_of k es) < 2 ^ 32"
  shows "flag_load (nd_heap (lv_node s)) (snd (run_health rn ! k)) =
     hysteresis (unat fail_threshold) (unat recover_threshold) True (rev (polls_of k es))"
proof -
  obtain addr a where k: "run_health rn ! k = (addr, a)" by (cases "run_health rn ! k")
  from run_health_loop [OF assms(1-3) k] obtain h where
    "(h, flag_load (nd_heap (lv_node s)) a) = health_run fail_threshold recover_threshold (polls_of k es) (health_init, True)"
    by blast
  with health_run_refines [OF assms(4), of fail_threshold recover_threshold True] k show ?thesis
    by (metis snd_conv)
qed

text \<open>The same with the thresholds of the server: three failures in a row, then never two successes in a row.\<close>

lemma health_flags_down:
  assumes "boot d faults fuel env hp pv = Some (Returned (Ok rn))" "live_run d es (live_of rn) = Some s"
    and "k < length (run_health rn)" "polls_of k es = earlier @ [False, False, False] @ later"
    and "\<not> sublist [True, True] later" "length (polls_of k es) < 2 ^ 32"
  shows "\<not> flag_load (nd_heap (lv_node s)) (snd (run_health rn ! k))"
proof -
  obtain addr a where k: "run_health rn ! k = (addr, a)" by (cases "run_health rn ! k")
  from run_health_loop [OF assms(1-3) k] obtain h where
    loop: "(h, flag_load (nd_heap (lv_node s)) a) = health_run fail_threshold recover_threshold (polls_of k es) (health_init, True)"
    by blast
  have "unat fail_threshold = 3" "unat recover_threshold = 2" by (simp_all add: fail_threshold_def recover_threshold_def)
  moreover have "[False, False, False] = replicate 3 False" "[True, True] = replicate 2 True"
    by (simp_all add: numeral_3_eq_3 numeral_2_eq_2)
  ultimately have "snd (health_run fail_threshold recover_threshold (polls_of k es) (health_init, True)) = False"
    using hc.stays_unhealthy [of earlier 3 later True] assms(4-6) by (metis order_refl)
  with loop k show ?thesis by (metis snd_conv)
qed

text \<open>
  A shutdown is not graceful: when the accept loop returns, the requests in flight are gone and nothing
  happens any more.
\<close>
lemma shutdown_drops_requests:
  assumes "live_run d (es @ Ended r # es') s = Some s'" "live_run d es s = Some s1"
  shows "es' = [] \<and> lv_tasks s' = Map.empty \<and> lv_conns s' = Map.empty \<and> lv_answers s' = lv_answers s1 \<and>
    lv_pool s' = lv_pool s1 \<and> lv_metrics s' = lv_metrics s1"
proof -
  from assms have "live_run d (Ended r # es') s1 = Some s'" by (simp add: live_run_append)
  then show ?thesis by (cases es') (auto simp: live_exec_def split: if_splits)
qed

subsection \<open>Examples\<close>

text \<open>
  A server with TLS and two routes. The network numbers its connections; the first one fails when it is
  written to.
\<close>

definition example_live_toml :: toml where
  "example_live_toml text =
     (if text = ''one route'' then map_sum id (\<lambda>r. r\<lparr>raw_routes := map_option (take 1) (raw_routes r)\<rparr>) (example_start_toml ''two routes'')
      else example_start_toml text)"

definition example_deps ::
  "(nat, example_module, example_instance, string, string, string list \<times> string, string, unit, unit, unit, unit, unit,
    string, nat, (string \<times> string) list, string) deps" where
  "example_deps =
     \<lparr>d_toml = example_live_toml, d_config_path = ''proxy.toml'', d_wasm = example_wasm, d_tls = example_tls,
      d_acme = example_acme True, d_http = list_headers, d_net = numbered_net {0}\<rparr>"

definition example_boot :: "(proxy_error + (nat, example_module, string, nat) running) outcome option" where
  "example_boot = boot example_deps Map.empty 41 example_start_env [] example_disk"

definition example_rn :: "(nat, example_module, string, nat) running" where
  "example_rn = (case the example_boot of Returned x \<Rightarrow> projr x)"

text \<open>Each run is evaluated once, for all that is needed of it.\<close>

lemma example_boot_report:
  "(case example_boot of
      Some (Returned (Inr rn)) \<Rightarrow>
        (length (run_health rn), length (app_routes (nd_state (run_node rn))), pv_files (nd_prov (run_node rn)) ''proxy.toml'') =
          (2, 2, Some ''two routes'')
    | _ \<Rightarrow> False)"
  by code_simp

lemma example_booted:
  "example_boot = Some (Returned (Ok example_rn))"
  "length (run_health example_rn) = 2" "length (app_routes (nd_state (run_node example_rn))) = 2"
  "pv_files (nd_prov (run_node example_rn)) ''proxy.toml'' = Some ''two routes''"
proof -
  from example_boot_report obtain rn where rn: "example_boot = Some (Returned (Ok rn))"
    and facts: "length (run_health rn) = 2" "length (app_routes (nd_state (run_node rn))) = 2"
      "pv_files (nd_prov (run_node rn)) ''proxy.toml'' = Some ''two routes''"
    by (auto split: option.splits outcome.splits sum.splits)
  have "example_rn = rn" unfolding example_rn_def rn by simp
  with rn facts show "example_boot = Some (Returned (Ok example_rn))" "length (run_health example_rn) = 2"
    "length (app_routes (nd_state (run_node example_rn))) = 2"
    "pv_files (nd_prov (run_node example_rn)) ''proxy.toml'' = Some ''two routes''" by simp_all
qed

lemmas example_boot = example_booted(1) [unfolded example_boot_def]

definition example_run ::
  "(nat, example_module, example_instance, (string \<times> string) list, string) event list \<Rightarrow>
   (nat, example_module, string, unit, unit, unit, string, nat, (string \<times> string) list, string) live option" where
  "example_run es = live_run example_deps es (live_of example_rn)"

text \<open>Two requests on two connections, interleaved; a reload that keeps one route; and an upstream that fails.\<close>

definition example_requests :: "(nat, example_module, example_instance, (string \<times> string) list, string) event list" where
  "example_requests =
     [Connected 7 (client_addr example_ctx) (Ok ()), Connected 8 (client_addr example_ctx) (Ok ()),
      Outside 0, Arrived 7 0 ''1.0'' 5 (example_get ''/a''), Arrived 8 1 ''1.0'' 5 (example_get ''/b''),
      Moved 0, Moved 1, Moved 0, Moved 1, Moved 0, Moved 1, Moved 1, Moved 0, Polled 0 False]"

definition example_swap :: "(nat, example_module, example_instance, (string \<times> string) list, string) event list" where
  "example_swap =
     [Edit (\<lambda>fs. fs(''proxy.toml'' \<mapsto> ''one route'')), ReloadTurn (Modified (SystemTime 200 0)) Map.empty example_wasm,
      Polled 0 False, Polled 0 False, Polled 0 False]"

definition example_after ::
  "(nat, example_module, example_instance, (string \<times> string) list, string) event list \<Rightarrow>
   (nat, example_module, string, unit, unit, unit, string, nat, (string \<times> string) list, string) live" where
  "example_after es = the (example_run es)"

lemma example_after:
  "example_run es \<noteq> None \<Longrightarrow> live_run example_deps es (live_of example_rn) = Some (example_after es)"
  by (auto simp: example_after_def example_run_def)

lemma example_reports:
  "map_option (\<lambda>s. (map_option (\<lambda>t. held (tk_fwd t)) (lv_tasks s 0), map_option (\<lambda>t. held (tk_fwd t)) (lv_tasks s 1),
      Option.is_none (lv_ended s))) (example_run example_requests) = Some (Some (Some 1), Some (Some 0), True)"
  "map_option (\<lambda>s. length (app_routes (nd_state (lv_node s)))) (example_run (example_requests @ example_swap)) = Some 1"
  by code_simp+

lemma example_runs:
  "live_run example_deps example_requests (live_of example_rn) = Some (example_after example_requests)"
  "live_run example_deps (example_requests @ example_swap) (live_of example_rn) =
     Some (example_after (example_requests @ example_swap))"
  using example_reports by (auto intro!: example_after)

lemma example_swapped: "length (app_routes (nd_state (lv_node (example_after (example_requests @ example_swap))))) = 1"
  using example_reports(2) by (auto simp: example_after_def)

lemma example_http: "header_laws (d_http example_deps)"
  by (simp add: example_deps_def list_headers_laws)

text \<open>The two requests are being forwarded on connections 1 and 0.\<close>

lemma example_holds:
  "map_option (\<lambda>t. held (tk_fwd t)) (lv_tasks (example_after example_requests) 0) = Some (Some 1)"
  "map_option (\<lambda>t. held (tk_fwd t)) (lv_tasks (example_after example_requests) 1) = Some (Some 0)"
  "lv_ended (example_after example_requests) = None"
  using example_reports(1) by (auto simp: example_after_def Option.is_none_def split: option.splits)

theorem running_connections_have_one_owner_witness:
  "lv_opened (example_after example_requests) 1 =
     Some (upstream_addr (tk_ctx (the (lv_tasks (example_after example_requests) 0)))) \<and>
   held (tk_fwd (the (lv_tasks (example_after example_requests) 1))) \<noteq> Some 1"
proof -
  from example_holds(1) obtain t where t: "lv_tasks (example_after example_requests) 0 = Some t" "held (tk_fwd t) = Some 1"
    by auto
  from example_holds(2) obtain u where u: "lv_tasks (example_after example_requests) 1 = Some u" by auto
  from running_connections_have_one_owner [OF example_boot example_runs(1) t] t u show ?thesis by auto
qed

theorem running_idle_connections_bounded_witness:
  "length (idle_list (lv_pool (example_after example_requests)) ''10.0.0.1:80'') \<le> 10"
proof -
  let ?c = "config_from_file (d_toml example_deps) Map.empty (pv_files example_disk) (d_config_path example_deps)"
  have "is_ok ?c" "max_idle_connections (server (projr ?c)) = 10" by code_simp+
  moreover from this(1) have "?c = Ok (projr ?c)" by (auto simp: is_ok_iff)
  ultimately show ?thesis
    using running_idle_connections_bounded [OF example_boot example_runs(1)] by metis
qed

theorem request_can_be_answered_witness:
  "\<exists>e s' resp ob. ends_request 0 7 e \<and> live_exec example_deps e (example_after example_requests) = Some s' \<and>
     lv_answers s' = lv_answers (example_after example_requests) @
       [\<lparr>an_request = 0, an_response = resp, an_observed = Some ob\<rparr>]"
proof -
  from example_holds(1) obtain t where t: "lv_tasks (example_after example_requests) 0 = Some t" by auto
  from request_can_be_answered [OF example_boot example_runs(1) example_http example_holds(3) t, of 7] show ?thesis by blast
qed

theorem request_makes_ten_moves_witness:
  "tk_moves (the (lv_tasks (example_after example_requests) 0)) \<le> 10"
proof -
  from example_holds(1) obtain t where t: "lv_tasks (example_after example_requests) 0 = Some t" by auto
  from request_makes_ten_moves [OF example_boot example_runs(1) example_http t] t show ?thesis by simp
qed

theorem flags_well_formed_witness:
  "list_all (\<lambda>(addr, a, h). a < length (nd_heap (lv_node (example_after (example_requests @ example_swap)))))
     (lv_health (example_after (example_requests @ example_swap))) \<and>
   distinct (map rs_healthy (app_routes (nd_state (lv_node (example_after (example_requests @ example_swap))))))"
  using flags_well_formed [OF example_boot example_runs(2)] by (auto simp: list_all_iff)

theorem swapped_in_routes_stay_up_witness:
  "list_all (\<lambda>rs. flag_load (nd_heap (lv_node (example_after (example_requests @ example_swap)))) (rs_healthy rs))
     (app_routes (nd_state (lv_node (example_after (example_requests @ example_swap)))))"
proof -
  have "nd_state (lv_node (example_after (example_requests @ example_swap))) \<noteq> nd_state (run_node example_rn)"
    using example_swapped example_booted(3) by auto
  from swapped_in_routes_stay_up [OF example_boot example_runs(2) this] show ?thesis by (simp add: list_all_iff)
qed

theorem health_flags_do_not_interfere_witness:
  "flag_load (nd_heap (lv_node (example_after (example_requests @ example_swap)))) (snd (run_health example_rn ! 0)) = False"
proof -
  have k: "0 < length (run_health example_rn)" by (simp add: example_booted)
  have polls: "polls_of 0 (example_requests @ example_swap) = [False, False, False, False]"
    by code_simp
  then have "length (polls_of 0 (example_requests @ example_swap)) < 2 ^ 32" by simp
  moreover have "hysteresis (unat fail_threshold) (unat recover_threshold) True (rev [False, False, False, False]) = False"
    by code_simp
  ultimately show ?thesis
    using health_flags_do_not_interfere [OF example_boot example_runs(2) k] by (simp only: polls)
qed

text \<open>Answers: the health page, no route, and a timeout; the counters of the page itself are not counted.\<close>

definition example_answering :: "(nat, example_module, example_instance, (string \<times> string) list, string) event list" where
  "example_answering = example_requests @
     [Arrived 7 2 ''1.0'' 4 (example_get ''/health''), Arrived 8 3 ''1.0'' 3 (example_get ''/elsewhere''),
      Arrived 8 4 ''1.0'' 3 (example_get ''/metrics''), Expired 0 30000]"

lemma example_answering_report:
  "map_option (\<lambda>s. (map (\<lambda>a. resp_status (an_response a)) (lv_answers s), length (observed (lv_answers s))))
     (example_run example_answering) = Some ([200, 404, 200, 504], 3)"
  by code_simp

lemma example_answering_run:
  "live_run example_deps example_answering (live_of example_rn) = Some (example_after example_answering)"
  "length (observed (lv_answers (example_after example_answering))) = 3"
  "map (\<lambda>a. resp_status (an_response a)) (lv_answers (example_after example_answering)) = [200, 404, 200, 504]"
proof -
  show "live_run example_deps example_answering (live_of example_rn) = Some (example_after example_answering)"
    using example_answering_report by (auto intro!: example_after)
  show "length (observed (lv_answers (example_after example_answering))) = 3"
    "map (\<lambda>a. resp_status (an_response a)) (lv_answers (example_after example_answering)) = [200, 404, 200, 504]"
    using example_answering_report by (auto simp: example_after_def)
qed

theorem counters_match_answers_witness:
  "map (\<lambda>a. resp_status (an_response a)) (lv_answers (example_after example_answering)) = [200, 404, 200, 504] \<and>
   requests_total (lv_metrics (example_after example_answering)) = 3"
  using counters_match_answers [OF example_boot example_answering_run(1) example_http] example_answering_run(2,3)
  by (metis of_nat_numeral)

text \<open>The operator's edits keep a valid configuration on the disk, and its name is not one of the cache's.\<close>

lemma example_disk_ok:
  "fs ''proxy.toml'' \<in> {Some ''one route'', Some ''two routes''} \<Longrightarrow> disk_ok example_deps fs"
proof -
  have "validate (projr (config_parse example_live_toml ''one route'')) = Ok ()"
    "validate (projr (config_parse example_live_toml ''two routes'')) = Ok ()" by code_simp+
  then show "fs ''proxy.toml'' \<in> {Some ''one route'', Some ''two routes''} \<Longrightarrow> disk_ok example_deps fs"
    by (auto simp: disk_ok_def example_deps_def config_from_file_def fs_read_def result_simps split: option.splits)
qed

lemma example_config_path: "''proxy.toml'' \<notin> insert (lock_path dir) (cache_files dir)"
proof -
  have "''proxy.toml'' \<noteq> path_join dir x" if "x \<noteq> ''proxy.toml''" for x
  proof
    assume eq: "''proxy.toml'' = path_join dir x"
    have "CHR ''/'' \<in> set (path_join dir x)" if "dir \<noteq> [] \<or> starts_with ''/'' x"
      using that by (cases dir rule: rev_cases) (auto simp: path_join_def starts_with_Cons split: if_splits)
    with eq have "dir = []" "\<not> starts_with ''/'' x" by (auto simp flip: eq)
    with eq \<open>x \<noteq> ''proxy.toml''\<close> show False by (simp add: path_join_def)
  qed
  then show ?thesis
    by (auto simp: cache_files_def lock_path_def cert_pem_path_def key_pem_path_def cert_tmp_path_def
        key_tmp_path_def issued_at_path_def)
qed

theorem valid_routes_throughout_witness:
  "routes_ok (map rs_route (app_routes (nd_state (lv_node (example_after (example_requests @ example_swap))))))"
proof (rule valid_routes_throughout [OF example_boot example_runs(2)])
  show "disk_ok example_deps (pv_files (nd_prov (run_node example_rn)))"
    by (rule example_disk_ok) (simp add: example_booted)
  show "list_all (edits_ok example_deps) (example_requests @ example_swap)"
    by (simp add: example_requests_def example_swap_def example_disk_ok)
  show "d_config_path example_deps \<notin> insert (lock_path dir) (cache_files dir)" for dir
    using example_config_path by (simp add: example_deps_def)
qed

text \<open>A request left alone: ten moves, the second connection answers.\<close>

definition example_alone :: "(nat, example_module, string, unit, unit, unit, string, nat, (string \<times> string) list, string) live" where
  "example_alone = example_after (take 3 example_requests)"

definition example_alone_run :: "(nat, example_module, example_instance, (string \<times> string) list, string) event list" where
  "example_alone_run = replicate 10 (Moved 0) @ [Answered 0 5]"

lemma example_alone_report:
  "map_option (\<lambda>s. (lv_conns s 7,
      map_option (\<lambda>s1. (Option.is_none (lv_tasks s1 0), map (\<lambda>a. resp_status (an_response a)) (lv_answers s1)))
        (live_run example_deps (Arrived 7 0 ''1.0'' 5 (example_get ''/a'') # example_alone_run) s)))
     (example_run (take 3 example_requests)) = Some (Some (client_addr example_ctx, True), Some (True, [200]))"
  by code_simp

theorem undisturbed_request_is_handled_witness:
  "\<exists>resp p w m. handle list_headers (numbered_net {0}) example_wasm
      \<lparr>env_client = client_addr example_ctx, env_is_tls = True, env_uptime = ''1.0'', env_elapsed_ms = 5, env_steps = 10\<rparr>
      (nd_state (lv_node example_alone)) (nd_heap (lv_node example_alone)) (example_get ''/a'')
      (lv_pool example_alone) (pv_world (nd_prov (lv_node example_alone))) (lv_metrics example_alone) =
      (Returned resp, p, w, m) \<and> resp_status resp = 200"
proof -
  let ?run = "live_run example_deps (Arrived 7 0 ''1.0'' 5 (example_get ''/a'') # example_alone_run) example_alone"
  from example_alone_report obtain s0 s' where s0: "example_run (take 3 example_requests) = Some s0"
    "lv_conns s0 7 = Some (client_addr example_ctx, True)"
    and s': "live_run example_deps (Arrived 7 0 ''1.0'' 5 (example_get ''/a'') # example_alone_run) s0 = Some s'"
    and gone: "lv_tasks s' 0 = None" and status: "map (\<lambda>a. resp_status (an_response a)) (lv_answers s') = [200]"
    by (auto simp: Option.is_none_def simp del: live_run.simps split: option.splits)
  from s0(1) have "example_alone = s0" by (simp add: example_alone_def example_after_def)
  with s0 s' have conn: "lv_conns example_alone 7 = Some (client_addr example_ctx, True)" and run: "?run = Some s'" by simp_all
  have path: "uri_path (req_uri (example_get ''/a'')) \<noteq> ''/metrics''" by simp
  have "example_alone_run = [] \<or> (\<exists>e. example_alone_run = replicate 10 (Moved 0) @ [e] \<and> ends_request 0 5 e)"
    by (simp add: example_alone_run_def)
  from undisturbed_request_is_handled [OF example_http conn path this run gone] obtain resp ob where
    "handle (d_http example_deps) (d_net example_deps) (d_wasm example_deps)
      \<lparr>env_client = client_addr example_ctx, env_is_tls = True, env_uptime = ''1.0'', env_elapsed_ms = 5, env_steps = 10\<rparr>
      (nd_state (lv_node example_alone)) (nd_heap (lv_node example_alone)) (example_get ''/a'')
      (lv_pool example_alone) (pv_world (nd_prov (lv_node example_alone))) (lv_metrics example_alone) =
      (Returned resp, lv_pool s', pv_world (nd_prov (lv_node s')), lv_metrics s')"
    "lv_answers s' = lv_answers example_alone @ [\<lparr>an_request = 0, an_response = resp, an_observed = Some ob\<rparr>]" by blast
  moreover from this(2) status have "resp_status resp = 200" by (cases "lv_answers example_alone") auto
  ultimately show ?thesis by (auto simp: example_deps_def)
qed

end
