(* ===== verification/Request_Runs.thy ===== *)
theory Request_Runs
  imports Proxy_Runs
begin

section \<open>Requests left alone in a running proxy\<close>

text \<open>
  What a request being forwarded does when nothing but its own moves runs: it goes on to its result, in
  the moves it has left, and is answered with it. \<open>issues_new\<close> is what the code relies on of \<open>hyper\<close>
  for this: a handshake gives a connection it has not given before.
\<close>

definition grows :: "('w \<Rightarrow> 'c set) \<Rightarrow> ('w \<Rightarrow> 'a \<times> 'w) \<Rightarrow> bool" where
  "grows issued f \<longleftrightarrow> (\<forall>w. issued w \<subseteq> issued (snd (f w)))"

definition issues_new :: "('w, 'io, 'c, 'h, 'b) net \<Rightarrow> ('w \<Rightarrow> 'c set) \<Rightarrow> bool" where
  "issues_new net issued \<longleftrightarrow>
     (\<forall>io w c w'. http1_handshake net io w = (Ok c, w') \<longrightarrow> c \<notin> issued w \<and> c \<in> issued w') \<and>
     (\<forall>addr. grows issued (tcp_connect net addr)) \<and> (\<forall>io. grows issued (http1_handshake net io)) \<and>
     (\<forall>c req. grows issued (send_request net c req)) \<and> (\<forall>b. grows issued (collect_body net b))"

lemma issues_newD:
  assumes "issues_new net issued"
  shows "http1_handshake net io w = (Ok c, w') \<Longrightarrow> c \<notin> issued w \<and> c \<in> issued w'"
    and "tcp_connect net addr w = (r1, w') \<Longrightarrow> issued w \<subseteq> issued w'"
    and "http1_handshake net io w = (r2, w') \<Longrightarrow> issued w \<subseteq> issued w'"
    and "send_request net conn req w = (r3, w') \<Longrightarrow> issued w \<subseteq> issued w'"
    and "collect_body net b w = (r4, w') \<Longrightarrow> issued w \<subseteq> issued w'"
  using assms unfolding issues_new_def grows_def by (metis snd_conv)+

text \<open>The connections the requests of a proxy have opened are among those the network has given out.\<close>

definition opened_issued ::
  "('w \<Rightarrow> 'c set) \<Rightarrow> ('w, 'm, 'acc, 'acct, 'ord, 'kp, 'io, 'c, 'h, 'b) live \<Rightarrow> bool" where
  "opened_issued issued s \<longleftrightarrow> dom (lv_opened s) \<subseteq> issued (pv_world (nd_prov (lv_node s)))"

lemma fwd_step_issued:
  assumes "issues_new net issued" "fwd_step net api ctx (st, p, w) = (st', p', w')" "dom opened \<subseteq> issued w"
  shows "fresh_connection opened st st'" "dom (note_opened ctx st st' opened) \<subseteq> issued w'"
proof -
  note laws = issues_newD [OF assms(1)]
  have old: "x \<in> issued w" if "opened x = Some y" for x y using assms(3) that by auto
  have "fresh_connection opened st st' \<and> dom (note_opened ctx st st' opened) \<subseteq> issued w'"
  proof (cases st)
    case (Handshake n io parts)
    obtain r w1 where shake: "http1_handshake net io w = (r, w1)" by force
    show ?thesis
    proof (cases r)
      case (Inl e)
      with Handshake assms(2) shake have "w' = w1" "new_connection st st' = None" by (cases n; auto)+
      with assms(3) laws(3) [OF shake] show ?thesis by (auto simp: fresh_connection_def note_opened_def)
    next
      case (Inr c)
      with shake laws(1) [of io w c w1] laws(3) [OF shake] have c: "c \<notin> issued w" "c \<in> issued w1" "issued w \<subseteq> issued w1"
        by simp_all
      from Handshake assms(2) shake Inr have st': "st' = Send n c parts" "w' = w1" by simp_all
      from c(1) old have "opened c = None" by (cases "opened c") auto
      with Handshake st' c assms(3) show ?thesis by (auto simp: fresh_connection_def note_opened_def)
    qed
  qed (use assms(2,3) in \<open>auto simp: fresh_connection_def note_opened_def
      split: prod.splits sum.splits option.splits attempt.splits dest!: laws(2-5)\<close>)
  then show "fresh_connection opened st st'" "dom (note_opened ctx st st' opened) \<subseteq> issued w'" by blast+
qed

text \<open>Only the calls of the network and the authority, and other programs, change what has been given out.\<close>

fun leaves_world :: "('w, 'm, 's, 'h, 'b) event \<Rightarrow> bool" where
  "leaves_world (Outside w) = False"
| "leaves_world (RenewalMoved faults) = False"
| "leaves_world _ = True"

lemma live_exec_opened:
  "live_exec d e s = Some s' \<Longrightarrow> (\<And>i. e \<noteq> Moved i) \<Longrightarrow> lv_opened s' = lv_opened s"
  by (cases e) (auto simp: live_exec_def split: live_splits)

lemma live_exec_opened_issued:
  assumes "live_exec d e s = Some s'" "issues_new (d_net d) issued" "leaves_world e" "opened_issued issued s"
  shows "opened_issued issued s'"
proof (cases "\<exists>i. e = Moved i")
  case True
  with assms(1) obtain i t where t: "lv_tasks s i = Some t" "live_move (d_net d) (d_http d) i t s = Some s'"
    by (auto simp: live_exec_def split: if_splits option.splits)
  obtain st p w where step: "fwd_step (d_net d) (d_http d) (tk_ctx t) (tk_fwd t, lv_pool s, pv_world (nd_prov (lv_node s))) = (st, p, w)"
    by (metis prod_cases3)
  from assms(4) have "dom (note_opened (tk_ctx t) (tk_fwd t) st (lv_opened s)) \<subseteq> issued w"
    using fwd_step_issued(2) [OF assms(2) step] by (simp add: opened_issued_def)
  moreover from t(2) step have "lv_opened s' = note_opened (tk_ctx t) (tk_fwd t) st (lv_opened s)"
    "pv_world (nd_prov (lv_node s')) = w"
    by (auto simp: live_move_def split: if_splits)
  ultimately show ?thesis by (simp add: opened_issued_def)
next
  case False
  then have "lv_opened s' = lv_opened s" using live_exec_opened [OF assms(1)] by blast
  moreover from False assms(1,3) have "pv_world (nd_prov (lv_node s')) = pv_world (nd_prov (lv_node s))"
    by (cases e) (auto simp: live_exec_def edited_def split: live_splits)
  ultimately show ?thesis using assms(4) by (simp add: opened_issued_def)
qed

subsection \<open>Progress\<close>

text \<open>A request that has no result can move.\<close>

lemma request_moves:
  assumes "issues_new (d_net d) issued" "opened_issued issued s" "lv_ended s = None"
    and "lv_tasks s i = Some t" "fwd_result (tk_fwd t) = None"
  obtains s1 t1 where "live_exec d (Moved i) s = Some s1" "opened_issued issued s1" "lv_ended s1 = None"
    "lv_tasks s1 i = Some t1" "fwd_rank (tk_fwd t1) < fwd_rank (tk_fwd t)"
proof -
  obtain st p w where step: "fwd_step (d_net d) (d_http d) (tk_ctx t) (tk_fwd t, lv_pool s, pv_world (nd_prov (lv_node s))) = (st, p, w)"
    by (metis prod_cases3)
  from assms(2) have "fresh_connection (lv_opened s) (tk_fwd t) st"
    using fwd_step_issued(1) [OF assms(1) step] by (simp add: opened_issued_def)
  with assms(3-5) step obtain s1 where s1: "live_exec d (Moved i) s = Some s1" "lv_ended s1 = None"
    "lv_tasks s1 i = Some (t\<lparr>tk_fwd := st, tk_moves := Suc (tk_moves t)\<rparr>)"
    by (auto simp: live_exec_def live_move_def)
  moreover have "opened_issued issued s1" by (rule live_exec_opened_issued [OF s1(1) assms(1) _ assms(2)]) simp
  moreover have "fwd_rank st < fwd_rank (tk_fwd t)" by (rule fwd_step_rank [OF step assms(5)])
  ultimately show thesis using s1 that by fastforce
qed

lemma request_moves_on:
  assumes "issues_new (d_net d) issued" "opened_issued issued s" "lv_ended s = None" "lv_tasks s i = Some t"
  shows "\<exists>m s1 t1. m \<le> fwd_rank (tk_fwd t) \<and> live_run d (replicate m (Moved i)) s = Some s1 \<and> lv_ended s1 = None \<and>
     lv_tasks s1 i = Some t1 \<and> fwd_result (tk_fwd t1) \<noteq> None"
  using assms
proof (induction "fwd_rank (tk_fwd t)" arbitrary: s t rule: less_induct)
  case less
  show ?case
  proof (cases "fwd_result (tk_fwd t)")
    case None
    from request_moves [OF less.prems None] obtain s1 t1 where s1: "live_exec d (Moved i) s = Some s1"
      "opened_issued issued s1" "lv_ended s1 = None" "lv_tasks s1 i = Some t1"
      and rank: "fwd_rank (tk_fwd t1) < fwd_rank (tk_fwd t)" by metis
    from less.hyps [OF rank less.prems(1) s1(2-4)] obtain m s2 t2 where "m \<le> fwd_rank (tk_fwd t1)"
      "live_run d (replicate m (Moved i)) s1 = Some s2" "lv_ended s2 = None" "lv_tasks s2 i = Some t2"
      "fwd_result (tk_fwd t2) \<noteq> None" by blast
    with s1(1) rank show ?thesis by (intro exI [of _ "Suc m"]) auto
  next
    case (Some x)
    with less.prems(3,4) show ?thesis by (intro exI [of _ 0]) simp
  qed
qed

text \<open>
  C33: no request is stuck: in any state of any run, a request that is being forwarded and then left alone
  makes its remaining moves, at most ten in all, and is answered with what its forwarding returns,
  when the network gives each connection once.
\<close>
theorem request_runs_to_its_answer:
  assumes "boot d faults fuel env hp pv = Some (Returned (Ok rn))" "live_run d es (live_of rn) = Some s"
    and "header_laws (d_http d)" "lv_ended s = None" "lv_tasks s i = Some t"
    and "issues_new (d_net d) issued" "opened_issued issued s"
  shows "\<exists>m s' x resp ob. tk_moves t + m \<le> 10 \<and>
     live_run d (replicate m (Moved i) @ [Answered i ms]) s = Some s' \<and> lv_tasks s' i = None \<and>
     reaches (d_net d) (d_http d) (tk_ctx t) (tk_fwd t, lv_pool s, pv_world (nd_prov (lv_node s))) m
       (Returned x, lv_pool s', pv_world (nd_prov (lv_node s'))) \<and>
     handle_end (d_http d) ms (routed_of x) (lv_metrics s) = (Returned resp, lv_metrics s') \<and>
     lv_answers s' = lv_answers s @ [\<lparr>an_request = i, an_response = resp, an_observed = Some ob\<rparr>]"
proof -
  from request_moves_on [OF assms(6,7,4,5)] obtain m s1 t1 where m: "m \<le> fwd_rank (tk_fwd t)"
    and moves: "live_run d (replicate m (Moved i)) s = Some s1" and s1: "lv_ended s1 = None" "lv_tasks s1 i = Some t1"
    and done_: "fwd_result (tk_fwd t1) \<noteq> None" by blast
  have "task_ok (lv_conns s) t" using run_tasks_ok [OF assms(1-3)] assms(5) by (simp add: tasks_ok_def)
  with m have bound: "tk_moves t + m \<le> 10" by (simp add: task_ok_def)
  have "tk_fwd t1 \<noteq> FwdPanicked"
    using run_tasks_ok [OF assms(1) _ assms(3), of "es @ replicate m (Moved i)" s1] assms(2) moves s1(2)
    by (auto simp: live_run_append tasks_ok_def task_ok_def)
  with done_ obtain x where x: "fwd_result (tk_fwd t1) = Some (Returned x)" by (cases "tk_fwd t1") auto
  from s1 x obtain s' where last: "live_exec d (Answered i ms) s1 = Some s'" by (simp add: live_exec_def)
  obtain st p w where run: "fwd_run (d_net d) (d_http d) (tk_ctx t) m
      (tk_fwd t, lv_pool s, pv_world (nd_prov (lv_node s))) = (st, p, w)" by (metis prod_cases3)
  note kept = live_run_moves [OF moves assms(5) run]
  show ?thesis
  proof (rule live_exec_ends [OF last _ s1(2) assms(3) \<open>tk_fwd t1 \<noteq> FwdPanicked\<close>])
    fix r resp
    assume "r = (case fwd_result (tk_fwd t1) of Some (Returned x) \<Rightarrow> routed_of x
        | _ \<Rightarrow> Err (timeout_error (tk_ctx t1) (tk_timeout t1)))"
      and "handle_end (d_http d) ms r (lv_metrics s1) = (Returned resp, lv_metrics s')" "lv_tasks s' i = None"
        "lv_pool s' = lv_pool s1" "lv_node s' = lv_node s1"
        "\<exists>ob. lv_answers s' = lv_answers s1 @ [\<lparr>an_request = i, an_response = resp, an_observed = Some ob\<rparr>]"
    with kept s1(2) x run moves last bound show ?thesis
      by (intro exI [of _ m] exI [of _ s'] exI [of _ x] exI [of _ resp])
        (auto simp: reaches_def live_run_append)
  qed simp
qed

subsection \<open>Reloads spare requests\<close>

text \<open>The events that end request \<open>i\<close> of connection \<open>k\<close>, or the connection, or the server.\<close>

fun may_end :: "nat \<Rightarrow> nat \<Rightarrow> ('w, 'm, 's, 'h, 'b) event \<Rightarrow> bool" where
  "may_end i k (Closed k') \<longleftrightarrow> k' = k"
| "may_end i k (Answered j ms) \<longleftrightarrow> j = i"
| "may_end i k (Expired j ms) \<longleftrightarrow> j = i"
| "may_end i k (Cancelled j) \<longleftrightarrow> j = i"
| "may_end i k (Ended r) \<longleftrightarrow> True"
| "may_end i k e \<longleftrightarrow> False"

text \<open>Request \<open>i\<close> is being forwarded on connection \<open>k\<close>, open as \<open>conn\<close>, to an upstream and with a timeout.\<close>

definition in_flight ::
  "nat \<Rightarrow> nat \<Rightarrow> socket_addr \<times> bool \<Rightarrow> fwd_ctx \<Rightarrow> u64 \<Rightarrow>
   ('w, 'm, 'acc, 'acct, 'ord, 'kp, 'io, 'c, 'h, 'b) live \<Rightarrow> bool" where
  "in_flight i k conn ctx timeout s \<longleftrightarrow>
     lv_conns s k = Some conn \<and>
     (\<exists>t. lv_tasks s i = Some t \<and> tk_conn t = k \<and> tk_ctx t = ctx \<and> tk_timeout t = timeout)"

lemma in_flight_cong:
  "lv_conns s' k = lv_conns s k \<Longrightarrow> lv_tasks s' i = lv_tasks s i \<Longrightarrow>
   in_flight i k conn ctx timeout s' = in_flight i k conn ctx timeout s"
  by (simp add: in_flight_def)

lemma live_answer_requests:
  assumes "header_laws api"
  shows "lv_conns (live_answer api k j ms r s) = lv_conns s"
    and "lv_tasks (live_answer api k j ms r s) = (lv_tasks s)(j := None)"
proof -
  obtain resp m where "handle_end api ms r (lv_metrics s) = (Returned resp, m)"
    using handle_end_records [OF assms] by metis
  from live_answer_returned [OF this]
  show "lv_conns (live_answer api k j ms r s) = lv_conns s"
    "lv_tasks (live_answer api k j ms r s) = (lv_tasks s)(j := None)" by simp_all
qed

lemma route_begin_admits:
  "route_begin api wasm env st hp req = Admitted ctx timeout \<Longrightarrow>
   \<exists>rs. find_route (app_routes st) (uri_path (req_uri req)) = Some rs \<and> upstream_addr ctx = upstream (rs_route rs) \<and>
     timeout = app_timeout_ms st"
  by (auto simp: route_begin_def Let_def forward_ctx_def split: if_splits option.splits sum.splits bool.splits)

lemma live_exec_in_flight:
  assumes "live_exec d e s = Some s'" "\<not> may_end i k e" "header_laws (d_http d)" "tasks_ok s"
    and "in_flight i k conn ctx timeout s"
  shows "in_flight i k conn ctx timeout s'"
proof -
  from assms(1) have run: "live_event d e s = Some s'" by (simp add: live_exec_def split: if_splits)
  note others = live_answer_requests [OF assms(3)]
  have same: "in_flight i k conn ctx timeout s'" if "lv_conns s' k = lv_conns s k" "lv_tasks s' i = lv_tasks s i"
    using assms(5) in_flight_cong [OF that] by blast
  show ?thesis
  proof (cases e)
    case (Closed k')
    with run assms(2,5) show ?thesis by (auto simp: in_flight_def live_close_def)
  next
    case (Connected k' addr handshake)
    with run assms(5) show ?thesis
      by (cases "k' = k") (auto simp: in_flight_def split: if_splits option.splits sum.splits)
  next
    case (Moved j)
    with run obtain t where "lv_tasks s j = Some t" "live_move (d_net d) (d_http d) j t s = Some s'"
      by (auto split: option.splits)
    with assms(5) show ?thesis by (auto simp: in_flight_def live_move_def split: prod.splits if_splits)
  next
    case (Arrived k' j uptime ms req)
    with run obtain env where new: "lv_tasks s j = None" "s' = live_arrive (d_http d) (d_wasm d) k' j env req s"
      by (auto split: option.splits if_splits)
    with assms(5) have "j \<noteq> i" by (auto simp: in_flight_def)
    then have "lv_conns s' = lv_conns s \<and> lv_tasks s' i = lv_tasks s i"
      using new(2) by (auto simp: live_arrive_def others split: begun.split)
    then show ?thesis using same by simp
  next
    case (Answered j ms)
    with run obtain t r where t: "lv_tasks s j = Some t" "fwd_result (tk_fwd t) = Some r" by (auto split: option.splits)
    with assms(4) have "tk_fwd t \<noteq> FwdPanicked" by (auto simp: tasks_ok_def task_ok_def)
    with t(2) obtain x where "r = Returned x" by (cases "tk_fwd t") auto
    with run Answered t have "s' = live_answer (d_http d) (tk_conn t) j ms (routed_of x) s" by simp
    with assms(2) Answered show ?thesis by (intro same) (simp_all add: others)
  next
    case (Expired j ms)
    with run obtain k' r where "s' = live_answer (d_http d) k' j ms r s" by (auto split: option.splits if_splits)
    with assms(2) Expired show ?thesis by (intro same) (simp_all add: others)
  qed (rule same; use run assms(2) in \<open>auto simp: live_reload_def live_poll_def Let_def split: live_splits\<close>)+
qed

lemma live_run_in_flight:
  assumes "live_run d es s = Some s'" "list_all (\<lambda>e. \<not> may_end i k e) es" "header_laws (d_http d)"
    and "tasks_ok s" "in_flight i k conn ctx timeout s"
  shows "in_flight i k conn ctx timeout s'"
proof -
  have "tasks_ok s' \<and> in_flight i k conn ctx timeout s'"
    by (rule live_run_invariant [OF assms(1) _ assms(2)])
      (use assms(3-5) live_exec_tasks_ok live_exec_in_flight in blast)+
  then show ?thesis ..
qed

text \<open>
  C26: whatever reloads and renewals install while a request is being forwarded, and whatever else runs,
  the request and its connection stay, and it goes to the upstream and has the timeout of the
  configuration served when it arrived; only its own answer, its timer, its client, its connection or the
  end of the server end it.
\<close>
theorem reload_drops_no_request:
  assumes "boot d faults fuel env hp pv = Some (Returned (Ok rn))" "live_run d es0 (live_of rn) = Some s0"
    and "header_laws (d_http d)"
    and "live_exec d (Arrived k i uptime ms req) s0 = Some s1" "lv_tasks s1 i \<noteq> None"
    and "live_run d es s1 = Some s2" "list_all (\<lambda>e. \<not> may_end i k e) es"
  shows "\<exists>t rs. lv_tasks s2 i = Some t \<and> lv_conns s2 k = lv_conns s0 k \<and>
     find_route (app_routes (nd_state (lv_node s0))) (uri_path (req_uri req)) = Some rs \<and>
     upstream_addr (tk_ctx t) = upstream (rs_route rs) \<and> tk_timeout t = app_timeout_ms (nd_state (lv_node s0))"
proof -
  have ok: "tasks_ok s1" using run_tasks_ok [OF assms(1-3)] assms(3,4) live_exec_tasks_ok by blast
  from assms(4) obtain addr tls_on where conn: "lv_conns s0 k = Some (addr, tls_on)" and new: "lv_tasks s0 i = None"
    and s1: "s1 = live_arrive (d_http d) (d_wasm d) k i \<lparr>env_client = addr, env_is_tls = tls_on,
        env_uptime = uptime, env_elapsed_ms = ms, env_steps = 0\<rparr> req s0"
    by (auto simp: live_exec_def split: option.splits if_splits)
  let ?env = "\<lparr>env_client = addr, env_is_tls = tls_on, env_uptime = uptime, env_elapsed_ms = ms, env_steps = 0\<rparr>"
  have "uri_path (req_uri req) \<noteq> ''/metrics''" using assms(5) new s1 by (auto simp: live_arrive_def)
  moreover obtain ctx timeout where begun: "route_begin (d_http d) (d_wasm d) ?env (nd_state (lv_node s0)) (nd_heap (lv_node s0)) req =
      Admitted ctx timeout"
  proof (cases "route_begin (d_http d) (d_wasm d) ?env (nd_state (lv_node s0)) (nd_heap (lv_node s0)) req")
    case (Decided r)
    with assms(5) new s1 live_answer_requests(2) [OF assms(3), of k i ms r s0] show thesis
      by (auto simp: live_arrive_def split: if_splits)
  qed
  ultimately have "in_flight i k (addr, tls_on) ctx timeout s1"
    using s1 conn by (simp add: live_arrive_def in_flight_def)
  from live_run_in_flight [OF assms(6,7,3) ok this] obtain t where "lv_tasks s2 i = Some t" "lv_conns s2 k = lv_conns s0 k"
    "tk_ctx t = ctx" "tk_timeout t = timeout"
    using conn by (auto simp: in_flight_def)
  with route_begin_admits [OF begun] show ?thesis by auto
qed

subsection \<open>Example\<close>

lemma example_issues: "issues_new (d_net example_deps) (\<lambda>w. {..<w})"
  by (simp add: issues_new_def grows_def example_deps_def numbered_net_def)

lemma example_opened: "opened_issued (\<lambda>w. {..<w}) (example_after example_requests)"
proof -
  let ?first = "take 3 example_requests" and ?rest = "drop 3 example_requests"
  from example_runs(1) obtain s where s: "live_run example_deps ?first (live_of example_rn) = Some s"
    "live_run example_deps ?rest s = Some (example_after example_requests)"
    using live_run_append [of example_deps ?first ?rest "live_of example_rn"] by (auto split: option.splits)
  have "lv_opened s = Map.empty"
    by (rule live_run_invariant [OF s(1), of "\<lambda>s. lv_opened s = Map.empty" "\<lambda>e. \<forall>i. e \<noteq> Moved i"])
      (auto simp: example_requests_def dest: live_exec_opened)
  then have "opened_issued (\<lambda>w. {..<w}) s" by (simp add: opened_issued_def)
  then show ?thesis
    by (rule live_run_invariant [OF s(2), of _ leaves_world])
      (auto simp: example_requests_def intro: live_exec_opened_issued [OF _ example_issues])
qed

theorem request_runs_to_its_answer_witness:
  "\<exists>m s' resp ob. m \<le> 10 \<and>
     live_run example_deps (replicate m (Moved 0) @ [Answered 0 7]) (example_after example_requests) = Some s' \<and>
     lv_answers s' = lv_answers (example_after example_requests) @
       [\<lparr>an_request = 0, an_response = resp, an_observed = Some ob\<rparr>]"
proof -
  from example_holds(1) obtain t where t: "lv_tasks (example_after example_requests) 0 = Some t" by auto
  from request_runs_to_its_answer [OF example_boot example_runs(1) example_http example_holds(3) t
      example_issues example_opened, of 7]
  show ?thesis by (meson add_leD2)
qed

text \<open>Request 0 is still being forwarded after a reload that keeps one route.\<close>

theorem reload_drops_no_request_witness:
  "\<exists>t. lv_tasks (example_after (example_requests @ example_swap)) 0 = Some t \<and>
     upstream_addr (tk_ctx t) \<in> (upstream \<circ> rs_route) ` set (app_routes (nd_state (lv_node example_alone)))"
proof -
  let ?arrival = "Arrived 7 0 ''1.0'' 5 (example_get ''/a'')" and ?rest = "drop 4 example_requests @ example_swap"
  have split: "example_requests @ example_swap = take 3 example_requests @ ?arrival # ?rest"
    by (simp add: example_requests_def eval_nat_numeral)
  from example_runs(2) have "live_run example_deps (take 3 example_requests @ ?arrival # ?rest) (live_of example_rn) =
      Some (example_after (example_requests @ example_swap))" by (simp only: split [symmetric])
  then obtain s0 where s0: "live_run example_deps (take 3 example_requests) (live_of example_rn) = Some s0"
    and rest: "live_run example_deps (?arrival # ?rest) s0 = Some (example_after (example_requests @ example_swap))"
    by (auto simp: live_run_append simp del: live_run.simps split: option.splits)
  then have alone: "example_alone = s0" by (simp add: example_alone_def example_after_def example_run_def)
  from rest obtain s1 where s1: "live_exec example_deps ?arrival s0 = Some s1"
    "live_run example_deps ?rest s1 = Some (example_after (example_requests @ example_swap))"
    by (auto split: option.splits)
  have "map_option (\<lambda>s. lv_tasks s 0 \<noteq> None) (example_run (take 3 example_requests @ [?arrival])) = Some True"
    by code_simp
  with s0 s1(1) have "lv_tasks s1 0 \<noteq> None" by (auto simp: example_run_def live_run_append)
  from reload_drops_no_request [OF example_boot s0 example_http s1(1) this s1(2)]
  obtain t rs where "lv_tasks (example_after (example_requests @ example_swap)) 0 = Some t"
    "find_route (app_routes (nd_state (lv_node s0))) (uri_path (req_uri (example_get ''/a''))) = Some rs"
    and "upstream_addr (tk_ctx t) = upstream (rs_route rs)"
    by (auto simp: example_requests_def example_swap_def)
  then show ?thesis unfolding alone by (auto simp: find_route_def find_Some_iff)
qed

end
