(* ===== verification/Reload_Runs.thy ===== *)
theory Reload_Runs
  imports Proxy_Runs
begin

section \<open>Reloads in a running proxy\<close>

text \<open>
  Where the configuration a running proxy serves comes from: from the start, or from the file as it was at
  some moment of the run. And what the comparison of modification times misses.
\<close>

subsection \<open>The configuration on disk\<close>

definition on_disk ::
  "('w, 'm, 's, 'cert, 'key, 'srv, 'acc, 'acct, 'ord, 'par, 'kp, 'csr, 'io, 'c, 'h, 'b) deps \<Rightarrow>
   ('w, 'm, 'acc, 'acct, 'ord, 'kp, 'io, 'c, 'h, 'b) live \<Rightarrow> config \<Rightarrow> bool" where
  "on_disk d s c \<longleftrightarrow> config_from_file (d_toml d) Map.empty (pv_files (nd_prov (lv_node s))) (d_config_path d) = Ok c"

lemma config_from_file_disk:
  "config_from_file toml_from_str faults fs p = Ok c \<Longrightarrow> config_from_file toml_from_str Map.empty fs p = Ok c"
  by (auto simp: config_from_file_def fs_read_def result_simps split: option.splits)

text \<open>Some moment of a run at which \<open>c\<close> was the configuration on disk.\<close>

definition was_on_disk ::
  "('w, 'm, 's, 'cert, 'key, 'srv, 'acc, 'acct, 'ord, 'par, 'kp, 'csr, 'io, 'c, 'h, 'b) deps \<Rightarrow>
   ('w, 'm, 'acc, 'acct, 'ord, 'kp, 'io, 'c, 'h, 'b) live \<Rightarrow> ('w, 'm, 's, 'h, 'b) event list \<Rightarrow> config \<Rightarrow> bool" where
  "was_on_disk d s0 es c \<longleftrightarrow> (\<exists>n s. live_run d (take n es) s0 = Some s \<and> on_disk d s c)"

lemma was_on_disk_snoc: "was_on_disk d s0 es c \<Longrightarrow> was_on_disk d s0 (es @ [e]) c"
  unfolding was_on_disk_def
proof (elim exE conjE)
  fix n s assume "live_run d (take n es) s0 = Some s" "on_disk d s c"
  then show "\<exists>n s. live_run d (take n (es @ [e])) s0 = Some s \<and> on_disk d s c"
    by (intro exI [of _ "min n (length es)"] exI [of _ s]) (cases "n \<le> length es"; simp)
qed

lemma was_on_disk_now: "live_run d es s0 = Some s \<Longrightarrow> on_disk d s c \<Longrightarrow> was_on_disk d s0 es c"
  unfolding was_on_disk_def by (intro exI [of _ "length es"]) simp

text \<open>The state serves a configuration: its routes and its timeout.\<close>

definition serves :: "config \<Rightarrow> ('m, 'acc) app_state \<Rightarrow> bool" where
  "serves c st \<longleftrightarrow> map rs_route (app_routes st) = routes c \<and> app_timeout_ms st = timeout_ms (server c)"

definition from_disk ::
  "('w, 'm, 's, 'cert, 'key, 'srv, 'acc, 'acct, 'ord, 'par, 'kp, 'csr, 'io, 'c, 'h, 'b) deps \<Rightarrow>
   ('w, 'm, 'acc, 'acct, 'ord, 'kp, 'io, 'c, 'h, 'b) live \<Rightarrow> ('w, 'm, 's, 'h, 'b) event list \<Rightarrow>
   ('w, 'm, 'acc, 'acct, 'ord, 'kp, 'io, 'c, 'h, 'b) live \<Rightarrow> bool" where
  "from_disk d s0 es s \<longleftrightarrow>
     (nd_state (lv_node s) = nd_state (lv_node s0) \<or> (\<exists>c. was_on_disk d s0 es c \<and> serves c (nd_state (lv_node s)))) \<and>
     (\<forall>c tc ph. lv_renewal s = RenewalOrdering c tc ph \<longrightarrow> was_on_disk d s0 es c) \<and>
     (\<forall>c. lv_renewal s = RenewalBuilding c \<longrightarrow> was_on_disk d s0 es c)"

text \<open>What an event can make of the renewal in progress.\<close>

lemma live_exec_renewal:
  assumes "live_exec d e s = Some s'"
  obtains (same) "lv_renewal s' = lv_renewal s" | (idle) "lv_renewal s' = RenewalIdle"
  | (began) c tc where "lv_renewal s' = RenewalOrdering c tc CheckLock" "on_disk d s c"
  | (moved) c tc ph ph' where "lv_renewal s = RenewalOrdering c tc ph" "lv_renewal s' = RenewalOrdering c tc ph'"
  | (ordered) c tc ph where "lv_renewal s = RenewalOrdering c tc ph" "lv_renewal s' = RenewalBuilding c"
proof -
  from assms have run: "live_event d e s = Some s'" by (simp add: live_exec_def split: if_splits)
  show thesis
  proof (cases e)
    case (RenewalTurn faults)
    with run have "lv_renewal s' = renewal_begin (d_toml d) (d_acme d) faults (d_config_path d) (nd_prov (lv_node s))"
      by (auto split: if_splits)
    with renewal_begin_cases [of "d_toml d" "d_acme d" faults "d_config_path d" "nd_prov (lv_node s)"] idle began
    show thesis by (auto simp: on_disk_def dest: config_from_file_disk)
  next
    case (RenewalMoved faults)
    with run obtain c tc ph ph1 where "lv_renewal s = RenewalOrdering c tc ph" "lv_renewal s' = after_order c tc ph1"
      by (auto simp: renewal_move_def split: renewal_phase.splits prod.splits)
    with idle moved ordered show thesis by (cases rule: after_order_cases [of ph1 c tc]) auto
  next
    case (RenewalFinish faults wasm)
    with run idle show thesis by (auto split: renewal_phase.splits)
  qed (use run same in \<open>auto simp: live_move_frame split: live_splits\<close>)
qed

lemma live_exec_from_disk:
  assumes "live_run d es s0 = Some s" "live_exec d e s = Some s'" "from_disk d s0 es s"
  shows "from_disk d s0 (es @ [e]) s'"
proof -
  note old = assms(3) [unfolded from_disk_def] and later = was_on_disk_snoc [of d s0 es _ e]
  have now: "was_on_disk d s0 (es @ [e]) c" if "on_disk d s c" for c
    using was_on_disk_now [OF assms(1) that] by (rule later)
  have "nd_state (lv_node s') = nd_state (lv_node s0) \<or>
      (\<exists>c. was_on_disk d s0 (es @ [e]) c \<and> serves c (nd_state (lv_node s')))"
    using assms(2)
  proof (cases rule: live_exec_node)
    case (swapped wasm faults fs c st)
    then have "was_on_disk d s0 (es @ [e]) c"
      using old later now by (auto simp: on_disk_def dest: config_from_file_disk)
    moreover from build_state_Ok [OF swapped(1)] swapped(2) have "serves c (nd_state (lv_node s'))" by (simp add: serves_def)
    ultimately show ?thesis by blast
  qed (use old later in auto)
  moreover have "(\<forall>c tc ph. lv_renewal s' = RenewalOrdering c tc ph \<longrightarrow> was_on_disk d s0 (es @ [e]) c) \<and>
      (\<forall>c. lv_renewal s' = RenewalBuilding c \<longrightarrow> was_on_disk d s0 (es @ [e]) c)"
    using assms(2) by (cases rule: live_exec_renewal) (use old later now in auto)
  ultimately show ?thesis unfolding from_disk_def by blast
qed

lemma live_run_from_disk:
  "live_run d es s0 = Some s \<Longrightarrow> lv_renewal s0 = RenewalIdle \<Longrightarrow> from_disk d s0 es s"
proof (induction es arbitrary: s rule: rev_induct)
  case Nil
  then show ?case by (auto simp: from_disk_def)
next
  case (snoc e es)
  from snoc.prems(1) obtain s1 where "live_run d es s0 = Some s1" "live_exec d e s1 = Some s"
    by (auto simp: live_run_append split: option.splits)
  with snoc show ?case by (auto intro: live_exec_from_disk)
qed

text \<open>
  C13: whatever a running proxy serves, it serves the state it was started with, or the routes and the
  timeout of a configuration that was in the configuration file, whole, at some moment of the run.
\<close>
theorem served_configuration_was_on_disk:
  assumes "boot d faults fuel env hp pv = Some (Returned (Ok rn))" "live_run d es (live_of rn) = Some s"
  shows "nd_state (lv_node s) = nd_state (run_node rn) \<or>
    (\<exists>n s1 c. live_run d (take n es) (live_of rn) = Some s1 \<and>
       config_from_file (d_toml d) Map.empty (pv_files (nd_prov (lv_node s1))) (d_config_path d) = Ok c \<and>
       map rs_route (app_routes (nd_state (lv_node s))) = routes c \<and>
       app_timeout_ms (nd_state (lv_node s)) = timeout_ms (server c))"
  using live_run_from_disk [OF assms(2)] unfolding from_disk_def was_on_disk_def on_disk_def serves_def live_of_simps
  by blast

subsection \<open>What the modification time misses\<close>

text \<open>
  The start reads the configuration first and the modification time afterwards. An edit between the two,
  like every edit that leaves a time which is not newer than the recorded one, is never loaded.
\<close>

fun not_newer :: "system_time \<Rightarrow> ('w, 'm, 's, 'h, 'b) event \<Rightarrow> bool" where
  "not_newer t (ReloadTurn (Modified t') faults wasm) \<longleftrightarrow> t' \<le> t"
| "not_newer t (RenewalTurn faults) \<longleftrightarrow> False"
| "not_newer t e \<longleftrightarrow> True"

theorem edit_under_recorded_time_is_not_loaded:
  assumes "live_run d es (live_of rn) = Some s" "list_all (not_newer (run_mtime rn)) es"
  shows "nd_state (lv_node s) = nd_state (run_node rn)"
proof -
  have "nd_state (lv_node s) = nd_state (run_node rn) \<and> lv_mtime s = run_mtime rn \<and> lv_renewal s = RenewalIdle"
  proof (rule live_run_invariant [OF assms(1) _ assms(2)])
    fix e s s'
    assume "live_exec d e s = Some s'" "not_newer (run_mtime rn) e"
      and "nd_state (lv_node s) = nd_state (run_node rn) \<and> lv_mtime s = run_mtime rn \<and> lv_renewal s = RenewalIdle"
    then show "nd_state (lv_node s') = nd_state (run_node rn) \<and> lv_mtime s' = run_mtime rn \<and> lv_renewal s' = RenewalIdle"
      by (cases e) (auto simp: live_exec_def live_move_frame live_reload_def reload_tick_def Let_def
          split: live_splits stat_result.splits)
  qed simp
  then show ?thesis ..
qed

subsection \<open>Example\<close>

theorem served_configuration_was_on_disk_witness:
  "\<exists>n s1 c. live_run example_deps (take n (example_requests @ example_swap)) (live_of example_rn) = Some s1 \<and>
     config_from_file (d_toml example_deps) Map.empty (pv_files (nd_prov (lv_node s1))) (d_config_path example_deps) = Ok c \<and>
     length (routes c) = 1"
proof -
  let ?s = "example_after (example_requests @ example_swap)"
  have one: "length (app_routes (nd_state (lv_node ?s))) = 1" by (rule example_swapped)
  then have "nd_state (lv_node ?s) \<noteq> nd_state (run_node example_rn)" using example_booted(3) by auto
  with served_configuration_was_on_disk [OF example_boot example_runs(2)] obtain n s1 c where
    "live_run example_deps (take n (example_requests @ example_swap)) (live_of example_rn) = Some s1"
    "config_from_file (d_toml example_deps) Map.empty (pv_files (nd_prov (lv_node s1))) (d_config_path example_deps) = Ok c"
    "map rs_route (app_routes (nd_state (lv_node ?s))) = routes c" by blast
  with one show ?thesis by (metis length_map)
qed

end
