(* ===== verification/Renewal_Runs.thy ===== *)
theory Renewal_Runs
  imports Proxy_Runs
begin

section \<open>Renewals in a running proxy\<close>

text \<open>
  A renewal takes minutes, during which the reload loop, the redirect server and the operator go on. What
  they find: the tokens of the order in the challenge store (\<open>store_ok\<close>), the old pair, the new pair or,
  between two renames, half of each (\<open>renewal_disk\<close>). And what a renewal ends with: it can always be
  brought to its end, uninterrupted it is \<open>renewal_tick\<close>, and it undoes reloads it has overlapped.
\<close>

subsection \<open>A renewal in progress\<close>

text \<open>Only the operator and an order change files, and only an order changes the challenge store.\<close>

lemma live_exec_prov:
  assumes "live_exec d e s = Some s'"
  obtains (edited) f where "e = Edit f" "pv_files (nd_prov (lv_node s')) = f (pv_files (nd_prov (lv_node s)))"
      "pv_store (nd_prov (lv_node s')) = pv_store (nd_prov (lv_node s))" "lv_renewal s' = lv_renewal s"
  | (moved) faults c tc ph ph1 where "e = RenewalMoved faults" "lv_renewal s = RenewalOrdering c tc ph"
      "order_step (d_acme d) faults tc ph (nd_prov (lv_node s)) = (ph1, nd_prov (lv_node s'))"
      "lv_renewal s' = after_order c tc ph1"
  | (kept) "pv_files (nd_prov (lv_node s')) = pv_files (nd_prov (lv_node s))"
      "pv_store (nd_prov (lv_node s')) = pv_store (nd_prov (lv_node s))"
      "lv_renewal s' = lv_renewal s \<or> (\<exists>faults. e = RenewalTurn faults \<and> lv_renewal s = RenewalIdle \<and>
         lv_renewal s' = renewal_begin (d_toml d) (d_acme d) faults (d_config_path d) (nd_prov (lv_node s))) \<or>
       (\<exists>c. lv_renewal s = RenewalBuilding c \<and> lv_renewal s' = RenewalIdle)"
proof -
  from assms have run: "live_event d e s = Some s'" by (simp add: live_exec_def split: if_splits)
  show thesis
  proof (cases e)
    case (Edit f)
    with run show thesis by (intro edited [OF Edit]) (auto simp: edited_def)
  next
    case (RenewalMoved faults)
    with run moved show thesis by (auto simp: renewal_move_def split: renewal_phase.splits prod.splits)
  next
    case (Moved i)
    with run obtain t where "live_move (d_net d) (d_http d) i t s = Some s'" by (auto split: option.splits)
    then show thesis by (intro kept) (auto simp: live_move_def split: prod.splits if_splits)
  qed (use run in \<open>auto intro!: kept split: live_splits\<close>)
qed

text \<open>The store holds the tokens of the order in progress, and nothing when there is none.\<close>

definition store_ok ::
  "('w, 'm, 's, 'cert, 'key, 'srv, 'acc, 'acct, 'ord, 'par, 'kp, 'csr, 'io, 'c, 'h, 'b) deps \<Rightarrow>
   ('w, 'm, 'acc, 'acct, 'ord, 'kp, 'io, 'c, 'h, 'b) live \<Rightarrow> bool" where
  "store_ok d s \<longleftrightarrow>
     (case lv_renewal s of
        RenewalOrdering c tc ph \<Rightarrow> order_store (d_acme d) ph (pv_store (nd_prov (lv_node s)))
      | _ \<Rightarrow> pv_store (nd_prov (lv_node s)) = Map.empty)"

lemma store_ok_cong:
  "lv_renewal s' = lv_renewal s \<Longrightarrow> pv_store (nd_prov (lv_node s')) = pv_store (nd_prov (lv_node s)) \<Longrightarrow>
   store_ok d s' = store_ok d s"
  by (simp add: store_ok_def split: renewal_phase.split)

lemma live_exec_store_ok:
  assumes "live_exec d e s = Some s'" "store_ok d s"
  shows "store_ok d s'"
  using assms(1)
proof (cases rule: live_exec_prov)
  case (moved faults c tc ph ph1)
  with assms(2) order_step_store [OF moved(3)] have "order_store (d_acme d) ph1 (pv_store (nd_prov (lv_node s')))"
    by (simp add: store_ok_def)
  with moved(4) show ?thesis by (cases rule: after_order_cases [of ph1 c tc]) (auto simp: store_ok_def)
next
  case kept
  from kept(3) show ?thesis
  proof (elim disjE exE conjE)
    fix faults assume "lv_renewal s = RenewalIdle" "lv_renewal s' =
      renewal_begin (d_toml d) (d_acme d) faults (d_config_path d) (nd_prov (lv_node s))"
    with assms(2) kept(2) renewal_begin_cases [of "d_toml d" "d_acme d" faults "d_config_path d" "nd_prov (lv_node s)"]
    show ?thesis by (auto simp: store_ok_def)
  next
    fix c assume "lv_renewal s = RenewalBuilding c" "lv_renewal s' = RenewalIdle"
    with assms(2) kept(2) show ?thesis by (simp add: store_ok_def)
  qed (use assms(2) kept(2) store_ok_cong in blast)
qed (use assms(2) store_ok_cong in auto)

text \<open>The pair of the directory the renewal works in, when the operator keeps out of it.\<close>

fun spares :: "path \<Rightarrow> ('w, 'm, 's, 'h, 'b) event \<Rightarrow> bool" where
  "spares dir (Edit f) = (\<forall>fs. \<forall>p \<in> cache_files dir. f fs p = fs p)"
| "spares dir _ = True"

definition renewal_disk ::
  "path \<Rightarrow> string option \<times> string option \<Rightarrow> ('w, 'm, 'acc, 'acct, 'ord, 'kp, 'io, 'c, 'h, 'b) live \<Rightarrow> bool" where
  "renewal_disk dir old s \<longleftrightarrow>
     (case lv_renewal s of
        RenewalIdle \<Rightarrow> True
      | RenewalOrdering c tc ph \<Rightarrow> cache_dir tc = dir \<and> order_disk dir old ph (pv_files (nd_prov (lv_node s)))
      | RenewalBuilding c \<Rightarrow>
          \<exists>cert key. pair_on dir (pv_files (nd_prov (lv_node s))) = (Some cert, Some key))"

lemma live_exec_renewal_disk:
  assumes "live_exec d e s = Some s'" "spares dir e" "\<And>f. e \<noteq> RenewalTurn f" "renewal_disk dir old s"
  shows "renewal_disk dir old s'"
  using assms(1)
proof (cases rule: live_exec_prov)
  case (edited f)
  let ?fs = "pv_files (nd_prov (lv_node s))"
  have same: "f ?fs p = ?fs p" if "p \<in> cache_files dir" for p using assms(2) edited(1) that by simp
  then have "pair_on dir (f ?fs) = pair_on dir ?fs" by (simp add: pair_on_def cache_files_def)
  moreover have "order_disk dir old ph (f ?fs) = order_disk dir old ph ?fs" for ph by (rule order_disk_cong) (rule same)
  ultimately show ?thesis using assms(4) edited(2,4) by (auto simp: renewal_disk_def split: renewal_phase.splits)
next
  case (moved faults c tc ph ph1)
  with assms(4) order_step_disk [OF moved(3)]
  have "cache_dir tc = dir" "order_disk dir old ph1 (pv_files (nd_prov (lv_node s')))"
    by (auto simp: renewal_disk_def)
  with moved(4) show ?thesis
    by (cases rule: after_order_cases [of ph1 c tc]) (auto simp: renewal_disk_def order_disk_def dest: sym)
next
  case kept
  with assms(3,4) show ?thesis by (auto simp: renewal_disk_def split: renewal_phase.splits)
qed

text \<open>Nothing but the order's own steps, and its end, moves a renewal on.\<close>

lemma live_run_order:
  assumes "order_run (d_acme d) faults tc n (ph, nd_prov (lv_node s)) = (Ordered r, pv)" "\<And>r. ph \<noteq> Ordered r"
    and "lv_renewal s = RenewalOrdering c tc ph" "lv_ended s = None"
  shows "\<exists>m \<le> n. live_run d (replicate m (RenewalMoved faults)) s =
    Some (s\<lparr>lv_renewal := after_order c tc (Ordered r), lv_node := (lv_node s)\<lparr>nd_prov := pv\<rparr>\<rparr>)"
  using assms
proof (induction n arbitrary: ph s)
  case 0
  then show ?case by simp
next
  case (Suc n)
  obtain ph1 pv1 where step: "order_step (d_acme d) faults tc ph (nd_prov (lv_node s)) = (ph1, pv1)" by force
  let ?s = "s\<lparr>lv_renewal := after_order c tc ph1, lv_node := (lv_node s)\<lparr>nd_prov := pv1\<rparr>\<rparr>"
  have one: "live_exec d (RenewalMoved faults) s = Some ?s"
    using Suc.prems(3,4) step by (simp add: live_exec_def renewal_move_def)
  from Suc.prems(1) step have rest: "order_run (d_acme d) faults tc n (ph1, pv1) = (Ordered r, pv)" by simp
  show ?case
  proof (cases "\<exists>r1. ph1 = Ordered r1")
    case True
    then obtain r1 where r1: "ph1 = Ordered r1" by blast
    have "order_run (d_acme d) faults tc n (Ordered r1, pv1) = (Ordered r1, pv1)" by (induction n) simp_all
    with rest r1 one show ?thesis by (intro exI [of _ 1]) simp
  next
    case False
    then have "after_order c tc ph1 = RenewalOrdering c tc ph1" by (cases rule: after_order_cases [of ph1 c tc]) auto
    with Suc.IH [of ph1 ?s] rest False Suc.prems(4) obtain m where "m \<le> n"
      "live_run d (replicate m (RenewalMoved faults)) ?s =
        Some (?s\<lparr>lv_renewal := after_order c tc (Ordered r), lv_node := (lv_node ?s)\<lparr>nd_prov := pv\<rparr>\<rparr>)"
      by auto
    with one show ?thesis by (intro exI [of _ "Suc m"]) simp
  qed
qed

lemma run_store_ok:
  assumes "boot d faults fuel env hp pv = Some (Returned (Ok rn))" "live_run d es (live_of rn) = Some s"
  shows "store_ok d s"
proof (rule live_run_invariant [OF assms(2), of "store_ok d" "\<lambda>_. True"])
  have "pv_store (nd_prov (run_node rn)) = Map.empty" by (rule start_hot_Ok [OF assms(1) [unfolded boot_def]])
  then show "store_ok d (live_of rn)" by (simp add: store_ok_def)
qed (auto simp: list_all_iff intro: live_exec_store_ok)

text \<open>The pair on disk from the beginning of a renewal to its end.\<close>

lemma run_renewal_disk:
  assumes "live_exec d (RenewalTurn faults) s0 = Some s1" "lv_renewal s1 = RenewalOrdering c tc ph1"
    and "live_run d es s1 = Some s2" "list_all (\<lambda>e. (\<forall>f. e \<noteq> RenewalTurn f) \<and> spares (cache_dir tc) e) es"
  shows "renewal_disk (cache_dir tc) (pair_on (cache_dir tc) (pv_files (nd_prov (lv_node s1)))) s2"
proof (rule live_run_invariant [OF assms(3) _ assms(4)])
  have "ph1 = CheckLock"
    using assms(1,2) renewal_begin_cases [of "d_toml d" "d_acme d" faults "d_config_path d" "nd_prov (lv_node s0)"]
    by (auto simp: live_exec_def split: if_splits)
  with assms(2) show "renewal_disk (cache_dir tc) (pair_on (cache_dir tc) (pv_files (nd_prov (lv_node s1)))) s1"
    by (simp add: renewal_disk_def order_disk_def)
qed (auto intro: live_exec_renewal_disk)

subsection \<open>Properties\<close>

text \<open>
  C29: until a renewal that has begun ends, and whatever else runs, the cache directory holds the pair it
  found, then the new one. In between, from the first rename to the second, the new chain stands beside
  the old key (\<open>pair_in\<close>); once the order has succeeded the pair is complete.
\<close>
theorem torn_pair_only_between_renames:
  assumes "live_exec d (RenewalTurn faults) s0 = Some s1" "lv_renewal s1 = RenewalOrdering c tc ph1"
    and "live_run d es s1 = Some s2" "list_all (\<lambda>e. (\<forall>f. e \<noteq> RenewalTurn f) \<and> spares (cache_dir tc) e) es"
  shows "(\<forall>c' tc' ph. lv_renewal s2 = RenewalOrdering c' tc' ph \<longrightarrow>
      pair_in (pair_on (cache_dir tc) (pv_files (nd_prov (lv_node s1)))) ph \<in>
        {None, Some (pair_on (cache_dir tc) (pv_files (nd_prov (lv_node s2))))}) \<and>
    (\<forall>c'. lv_renewal s2 = RenewalBuilding c' \<longrightarrow>
      (\<exists>cert key. pair_on (cache_dir tc) (pv_files (nd_prov (lv_node s2))) = (Some cert, Some key)))"
  using run_renewal_disk [OF assms] by (auto simp: renewal_disk_def order_disk_def)

text \<open>
  A reload at that moment builds its TLS state from the two halves; whether it is served is up to the
  check \<open>rustls\<close> makes of the pair.
\<close>
theorem reload_between_renames_reads_torn_pair:
  assumes "live_exec d (RenewalTurn faults) s0 = Some s1" "lv_renewal s1 = RenewalOrdering c tc ph1"
    and "live_run d es s1 = Some s2" "list_all (\<lambda>e. (\<forall>f. e \<noteq> RenewalTurn f) \<and> spares (cache_dir tc) e) es"
    and "lv_renewal s2 = RenewalOrdering c' tc' (RenameKey cert key)"
    and "config_from_file (d_toml d) faults' (pv_files (nd_prov (lv_node s2))) (d_config_path d) = Ok c2"
      "tls c2 = Some tc2" "cache_dir tc2 = cache_dir tc"
    and "live_exec d (ReloadTurn st faults' wasm) s2 = Some s3" "nd_state (lv_node s3) \<noteq> nd_state (lv_node s2)"
      "app_tls (nd_state (lv_node s3)) = Some ts"
  shows "\<exists>old_key. pv_files (nd_prov (lv_node s1)) (key_pem_path (cache_dir tc)) = Some old_key \<and>
    build_tls_state (d_tls d) tc2 cert old_key = Ok ts"
proof -
  let ?fs = "pv_files (nd_prov (lv_node s2))"
  from run_renewal_disk [OF assms(1-4)] assms(5)
  have pair: "?fs (cert_pem_path (cache_dir tc)) = Some cert"
    "?fs (key_pem_path (cache_dir tc)) = pv_files (nd_prov (lv_node s1)) (key_pem_path (cache_dir tc))"
    by (auto simp: renewal_disk_def order_disk_def pair_on_def)
  from assms(9) have s3: "s3 = live_reload (d_toml d) (d_tls d) (d_config_path d) st faults' wasm s2"
    by (simp add: live_exec_def split: if_splits)
  let ?env = "\<lparr>te_stat = st, te_faults = faults', te_files = ?fs, te_wasm = wasm\<rparr>"
  from assms(10) s3 obtain st' hp where
    "try_reload (d_toml d) (d_tls d) (d_config_path d) ?env (nd_heap (lv_node s2)) = (Ok st', hp)" "nd_state (lv_node s3) = st'"
    by (auto simp: live_reload_def reload_tick_def Let_def split: stat_result.splits if_splits prod.splits sum.splits)
  with try_reload_Ok [OF this(1)] assms(6) obtain hp' where
    "build_state wasm (d_tls d) faults' ?fs c2 (nd_heap (lv_node s2)) = (Ok (nd_state (lv_node s3)), hp')"
    by auto
  with build_state_Ok [OF this] assms(7,11) have "build_tls (d_tls d) faults' ?fs (Some tc2) = Inr (Some ts)" by simp
  from build_tls_present [OF this] pair assms(8) show ?thesis by (auto simp: cert_files)
qed

text \<open>
  C17: in a running server whose redirect server is bound, from before the first challenge of an order is
  announced until the order is finalised, and whatever runs meanwhile, the redirect server answers a
  request for the token of each authorization's HTTP-01 challenge with its key authorization, when the
  tokens differ; outside an order it answers no such request with a 200.
\<close>
theorem challenges_answered_while_renewing:
  assumes "boot d faults fuel env hp pv = Some (Returned (Ok rn))" "live_run d es (live_of rn) = Some s"
    and "lv_ended s = None" "lv_redirect s = Some port"
  shows "(\<forall>c tc ph ord auths cs ch.
       lv_renewal s = RenewalOrdering c tc ph \<and> validating ph = Some (ord, auths) \<and>
       map http01_challenge auths = map Ok cs \<and> distinct (map ch_token cs) \<and> ch \<in> set cs \<and>
       uri_path (req_uri req) = challenge_prefix @ ch_token ch \<longrightarrow>
       (\<exists>resp s'. live_exec d (Asked req) s = Some s' \<and> lv_plain s' = lv_plain s @ [resp] \<and>
          resp_status resp = 200 \<and> resp_body resp = acme_key_authorization (d_acme d) ord ch)) \<and>
    (\<forall>s' resp. (\<forall>c tc ph. lv_renewal s \<noteq> RenewalOrdering c tc ph) \<and> live_exec d (Asked req) s = Some s' \<and>
       lv_plain s' = lv_plain s @ [resp] \<longrightarrow> resp_status resp \<noteq> 200)"
proof (intro conjI allI impI)
  have store: "store_ok d s" by (rule run_store_ok [OF assms(1,2)])
  fix c tc ph ord auths cs ch
  assume "lv_renewal s = RenewalOrdering c tc ph \<and> validating ph = Some (ord, auths) \<and>
       map http01_challenge auths = map Ok cs \<and> distinct (map ch_token cs) \<and> ch \<in> set cs \<and>
       uri_path (req_uri req) = challenge_prefix @ ch_token ch"
  then have asking: "lv_renewal s = RenewalOrdering c tc ph" "validating ph = Some (ord, auths)"
    and ch: "map http01_challenge auths = map Ok cs" "distinct (map ch_token cs)" "ch \<in> set cs"
      "uri_path (req_uri req) = challenge_prefix @ ch_token ch" by blast+
  from store asking(1) have "order_store (d_acme d) ph (pv_store (nd_prov (lv_node s)))"
    by (simp add: store_ok_def)
  from validating_store [OF this asking(2)] obtain all where
    "collect_challenges (d_acme d) ord auths Map.empty [] = Ok (pv_store (nd_prov (lv_node s)), all)" by blast
  from challenges_are_answered [OF this ch, of "d_http d" port] assms(3,4)
  show "\<exists>resp s'. live_exec d (Asked req) s = Some s' \<and> lv_plain s' = lv_plain s @ [resp] \<and>
          resp_status resp = 200 \<and> resp_body resp = acme_key_authorization (d_acme d) ord ch"
    by (auto simp: live_exec_def)
next
  have store: "store_ok d s" by (rule run_store_ok [OF assms(1,2)])
  fix s' resp
  assume asked: "(\<forall>c tc ph. lv_renewal s \<noteq> RenewalOrdering c tc ph) \<and> live_exec d (Asked req) s = Some s' \<and>
       lv_plain s' = lv_plain s @ [resp]"
  with store have "pv_store (nd_prov (lv_node s)) = Map.empty"
    by (auto simp: store_ok_def split: renewal_phase.splits)
  with asked assms(3,4) have "redirect_handler (d_http d) port Map.empty req = Returned resp"
    by (auto simp: live_exec_def split: outcome.splits)
  then show "resp_status resp \<noteq> 200" by (rule rd.serves_nothing)
qed

lemma keep_idle: "lv_renewal s = ph \<Longrightarrow> s\<lparr>lv_renewal := ph\<rparr> = s"
  by (cases s) simp

lemma renewal_order_uninterrupted:
  assumes "lv_ended s = None" "lv_renewal s = RenewalOrdering c tc CheckLock"
    and prov: "provision_with_store (d_acme d) faults fuel tc (nd_prov (lv_node s)) = Some (r, pv)"
  shows "\<exists>n fin. fin \<in> {[], [RenewalFinish faults wasm]} \<and>
    live_run d (replicate n (RenewalMoved faults) @ fin) s = Some (s\<lparr>lv_renewal := RenewalIdle,
      lv_node := (case r of Inl e \<Rightarrow> (lv_node s)\<lparr>nd_prov := pv\<rparr>
        | Inr ck \<Rightarrow> renewal_finish wasm (d_tls d) faults c ((lv_node s)\<lparr>nd_prov := pv\<rparr>))\<rparr>)"
proof -
  let ?s1 = "s\<lparr>lv_renewal := after_order c tc (Ordered r), lv_node := (lv_node s)\<lparr>nd_prov := pv\<rparr>\<rparr>"
  from order_run_provision [OF prov] obtain n where "order_run (d_acme d) faults tc n (CheckLock, nd_prov (lv_node s)) = (Ordered r, pv)"
    by (auto simp: leads_def)
  with live_run_order [of d faults tc n CheckLock s r pv c] assms(1,2)
  obtain m where moves: "live_run d (replicate m (RenewalMoved faults)) s = Some ?s1" by auto
  show ?thesis
  proof (cases r)
    case (Inl e)
    with moves show ?thesis by (intro exI [of _ m] exI [of _ "[]"]) (simp add: after_order_def)
  next
    case (Inr ck)
    with assms(1) have "live_exec d (RenewalFinish faults wasm) ?s1 = Some (s\<lparr>lv_renewal := RenewalIdle,
        lv_node := renewal_finish wasm (d_tls d) faults c ((lv_node s)\<lparr>nd_prov := pv\<rparr>)\<rparr>)"
      by (simp add: live_exec_def after_order_def)
    with moves Inr show ?thesis
      by (intro exI [of _ m] exI [of _ "[RenewalFinish faults wasm]"]) (simp add: live_run_append)
  qed
qed

text \<open>
  C21: a renewal nothing interrupts is one turn of the renewal loop: its events end in the state
  \<open>renewal_tick\<close> computes.
\<close>
theorem renewal_turn_uninterrupted:
  assumes "lv_ended s = None" "lv_renews s" "lv_renewal s = RenewalIdle"
    and "renewal_tick (d_toml d) wasm (d_tls d) (d_acme d) faults fuel True (d_config_path d) (lv_node s) = Some nd'"
  shows "\<exists>n fin. fin \<in> {[], [RenewalFinish faults wasm]} \<and>
    live_run d (RenewalTurn faults # replicate n (RenewalMoved faults) @ fin) s = Some (s\<lparr>lv_node := nd'\<rparr>)"
proof -
  let ?started = "renewal_begin (d_toml d) (d_acme d) faults (d_config_path d) (nd_prov (lv_node s))"
  let ?s = "s\<lparr>lv_renewal := ?started\<rparr>"
  have turn: "live_exec d (RenewalTurn faults) s = Some ?s" using assms(1-3) by (simp add: live_exec_def)
  note tick = assms(4) [unfolded renewal_tick_phases]
  note begins = renewal_begin_cases [of "d_toml d" "d_acme d" faults "d_config_path d" "nd_prov (lv_node s)"]
  show ?thesis
  proof (cases "?started")
    case (RenewalOrdering c tc ph)
    with begins have ph: "ph = CheckLock" by auto
    with tick RenewalOrdering obtain r pv where prov: "provision_with_store (d_acme d) faults fuel tc (nd_prov (lv_node s)) = Some (r, pv)"
      by (auto split: option.splits)
    from tick RenewalOrdering ph prov have "nd' = (case r of Inl e \<Rightarrow> (lv_node s)\<lparr>nd_prov := pv\<rparr>
        | Inr ck \<Rightarrow> renewal_finish wasm (d_tls d) faults c ((lv_node s)\<lparr>nd_prov := pv\<rparr>))"
      by (cases r) (simp_all add: after_order_def)
    with turn renewal_order_uninterrupted [of ?s c tc d faults fuel r pv wasm] RenewalOrdering ph prov assms(1)
    show ?thesis by (cases r) (simp_all add: keep_idle [OF assms(3)])
  next
    case RenewalIdle
    with tick have "nd' = lv_node s" by simp
    with turn RenewalIdle show ?thesis by (intro exI [of _ 0] exI [of _ "[]"]) (simp add: keep_idle [OF assms(3)])
  next
    case (RenewalBuilding c)
    with begins show ?thesis by simp
  qed
qed

text \<open>
  C28: a renewal in progress can be brought to its end from every one of its phases, when the clock runs
  on: some number of its own steps leaves the loop idle, or with the new pair and the state to be built.
\<close>
theorem renewal_can_be_finished:
  assumes "clock_laws (d_acme d)" "lv_ended s = None" "lv_renewal s = RenewalOrdering c tc ph"
  shows "\<exists>n s'. live_run d (replicate n (RenewalMoved faults)) s = Some s' \<and>
    lv_renewal s' \<in> {RenewalIdle, RenewalBuilding c}"
proof -
  show ?thesis
  proof (cases "\<exists>r. ph = Ordered r")
    case True
    then obtain r where "ph = Ordered r" by blast
    with assms(2,3) after_order_result(3) [of c tc r] show ?thesis
      by (intro exI [of _ 1]) (simp add: live_exec_def renewal_move_def)
  next
    case False
    from order_always_ends [OF assms(1), of faults tc ph "nd_prov (lv_node s)"] obtain n r pv where
      "order_run (d_acme d) faults tc n (ph, nd_prov (lv_node s)) = (Ordered r, pv)"
      by (auto simp: order_ends_def leads_def)
    from live_run_order [OF this _ assms(3,2)] False obtain m where
      "live_run d (replicate m (RenewalMoved faults)) s =
        Some (s\<lparr>lv_renewal := after_order c tc (Ordered r), lv_node := (lv_node s)\<lparr>nd_prov := pv\<rparr>\<rparr>)" by blast
    then show ?thesis using after_order_result(3) by (intro exI [of _ m]) auto
  qed
qed

text \<open>
  C34: a renewal installs the configuration it read when it began, even when reloads have installed newer
  ones while it was provisioning; and as long as the file's modification time is the one the last reload
  recorded, no turn of the reload loop brings the newer one back.
\<close>
theorem renewal_reverts_reload:
  assumes "live_exec d (RenewalTurn faults0) s0 = Some s1"
    and "config_from_file (d_toml d) faults0 (pv_files (nd_prov (lv_node s0))) (d_config_path d) = Ok c"
    and "live_run d es s1 = Some s2" "list_all (\<lambda>e. \<forall>f. e \<noteq> RenewalTurn f) es"
    and "live_exec d (RenewalFinish faults wasm) s2 = Some s3" "nd_state (lv_node s3) \<noteq> nd_state (lv_node s2)"
  shows "map rs_route (app_routes (nd_state (lv_node s3))) = routes c \<and>
    (\<forall>mtime faults' wasm' s4. mtime \<le> lv_mtime s2 \<and>
       live_exec d (ReloadTurn (Modified mtime) faults' wasm') s3 = Some s4 \<longrightarrow> nd_state (lv_node s4) = nd_state (lv_node s3))"
proof -
  have "renews_with c s1"
    using assms(1,2) renewal_begin_cases [of "d_toml d" "d_acme d" faults0 "d_config_path d" "nd_prov (lv_node s0)"]
    by (auto simp: live_exec_def renews_with_def split: if_splits)
  with assms(3,4) have "renews_with c s2"
    by (auto elim!: live_run_invariant [of d es s1 s2 "renews_with c"] intro: live_exec_renews_with)
  with assms(5) have s3: "s3 = s2\<lparr>lv_renewal := RenewalIdle, lv_node := renewal_finish wasm (d_tls d) faults c (lv_node s2)\<rparr>"
    by (auto simp: live_exec_def renews_with_def split: if_splits renewal_phase.splits)
  obtain st hp where "build_state wasm (d_tls d) faults (pv_files (nd_prov (lv_node s2))) c (nd_heap (lv_node s2)) = (Ok st, hp)"
      "renewal_finish wasm (d_tls d) faults c (lv_node s2) = (lv_node s2)\<lparr>nd_state := st, nd_heap := hp\<rparr>"
    using assms(6) s3 by (cases rule: renewal_finish_cases [of wasm "d_tls d" faults "lv_node s2" c]) auto
  with build_state_Ok [OF this(1)] s3 show ?thesis
    by (auto simp: live_exec_def live_reload_def reload_tick_def split: if_splits)
qed

subsection \<open>Examples\<close>

text \<open>A certificate that has gone is renewed while the operator drops a route; the route comes back.\<close>

definition example_renewing :: "(nat, example_module, example_instance, (string \<times> string) list, string) event list" where
  "example_renewing =
     [Edit (\<lambda>fs. fs(''proxy.toml'' \<mapsto> ''one route'')), ReloadTurn (Modified (SystemTime 200 0)) Map.empty example_wasm] @ replicate 27 (RenewalMoved Map.empty)"

definition example_due :: "(nat, example_module, string, unit, unit, unit, string, nat, (string \<times> string) list, string) live" where
  "example_due = \<lparr>lv_node = example_node ''two routes'', lv_pool = pool_new 1, lv_metrics = metrics_new, lv_health = [],
     lv_mtime = SystemTime 100 0, lv_renews = True, lv_renewal = RenewalIdle, lv_binding = None,
     lv_redirect = Some 443, lv_conns = Map.empty,
     lv_tasks = Map.empty, lv_ended = None, lv_opened = Map.empty, lv_answers = [], lv_plain = []\<rparr>"

definition example_read :: "(nat, example_module, string, unit, unit, unit, string, nat, (string \<times> string) list, string) live" where
  "example_read = example_due\<lparr>lv_renewal := renewal_begin example_live_toml (example_acme True) Map.empty ''proxy.toml''
     (nd_prov (lv_node example_due))\<rparr>"

definition example_provisioned ::
  "(nat, example_module, string, unit, unit, unit, string, nat, (string \<times> string) list, string) live option" where
  "example_provisioned = live_run example_deps example_renewing example_read"

definition prefixes_of :: "('w, 'm, 'acc, 'acct, 'ord, 'kp, 'io, 'c, 'h, 'b) live \<Rightarrow> string list" where
  "prefixes_of s = map (path_prefix \<circ> rs_route) (app_routes (nd_state (lv_node s)))"

lemma example_renewing_report:
  "map_option (\<lambda>s. (prefixes_of s, map_option prefixes_of (live_exec example_deps (RenewalFinish Map.empty example_wasm) s)))
     example_provisioned = Some ([''/a''], Some [''/a'', ''/b''])"
  by code_simp

lemma example_renewing_steps:
  "live_exec example_deps (RenewalTurn Map.empty) example_due = Some example_read"
  "\<exists>s2 s3. live_run example_deps example_renewing example_read = Some s2 \<and> prefixes_of s2 = [''/a''] \<and>
     live_exec example_deps (RenewalFinish Map.empty example_wasm) s2 = Some s3 \<and> prefixes_of s3 = [''/a'', ''/b'']"
  using example_renewing_report
  by (auto simp: live_exec_def example_due_def example_read_def example_deps_def example_provisioned_def)

theorem renewal_reverts_reload_witness:
  "\<exists>s2 s3. live_run example_deps example_renewing example_read = Some s2 \<and> prefixes_of s2 = [''/a''] \<and>
     live_exec example_deps (RenewalFinish Map.empty example_wasm) s2 = Some s3 \<and>
     map (path_prefix \<circ> rs_route) (app_routes (nd_state (lv_node s3))) = [''/a'', ''/b'']"
proof -
  let ?c = "config_from_file (d_toml example_deps) Map.empty (pv_files (nd_prov (lv_node example_due)))
      (d_config_path example_deps)"
  have "is_ok ?c" and prefixes: "map path_prefix (routes (projr ?c)) = [''/a'', ''/b'']" by code_simp+
  then have c: "?c = Ok (projr ?c)" by (auto simp: is_ok_iff)
  have quiet: "list_all (\<lambda>e. \<forall>f. e \<noteq> RenewalTurn f) example_renewing"
    by (auto simp: example_renewing_def list_all_iff)
  obtain s2 s3 where s2: "live_run example_deps example_renewing example_read = Some s2" "prefixes_of s2 = [''/a'']"
    and s3: "live_exec example_deps (RenewalFinish Map.empty example_wasm) s2 = Some s3" "prefixes_of s3 = [''/a'', ''/b'']"
    using example_renewing_steps(2) by blast
  then have "nd_state (lv_node s3) \<noteq> nd_state (lv_node s2)" by (auto simp: prefixes_of_def)
  from renewal_reverts_reload [OF example_renewing_steps(1) c s2(1) quiet s3(1) this]
  have "map rs_route (app_routes (nd_state (lv_node s3))) = routes (projr ?c)" by blast
  with prefixes have "map (path_prefix \<circ> rs_route) (app_routes (nd_state (lv_node s3))) = [''/a'', ''/b'']"
    by (metis list.map_comp)
  with s2 s3 show ?thesis by (intro exI [of _ s2] exI [of _ s3]) simp
qed

text \<open>The same renewal stopped between the two renames.\<close>

definition example_moves :: "nat \<Rightarrow> (nat, example_module, example_instance, (string \<times> string) list, string) event list" where
  "example_moves n = replicate n (RenewalMoved Map.empty)"

lemma example_read_ordering: "\<exists>c tc ph. lv_renewal example_read = RenewalOrdering c tc ph \<and> cache_dir tc = ''certs''"
proof -
  have "case lv_renewal example_read of RenewalOrdering c tc ph \<Rightarrow> cache_dir tc = ''certs'' | _ \<Rightarrow> False" by code_simp
  then show ?thesis by (auto split: renewal_phase.splits)
qed

lemma example_torn_report:
  "map_option (\<lambda>s. (case lv_renewal s of RenewalOrdering c tc (RenameKey cert key) \<Rightarrow> Some (cert, key) | _ \<Rightarrow> None))
     (live_run example_deps (example_moves 23) example_read) = Some (Some (''CERT2'', ''KEY2''))"
  "pair_on ''certs'' (pv_files (nd_prov (lv_node example_read))) = (Some ''CERT'', Some ''KEY'')"
  by code_simp+

theorem torn_pair_only_between_renames_witness:
  "\<exists>s2. live_run example_deps (example_moves 23) example_read = Some s2 \<and>
     pair_on ''certs'' (pv_files (nd_prov (lv_node s2))) = (Some ''CERT2'', Some ''KEY'')"
proof -
  obtain c tc ph where read: "lv_renewal example_read = RenewalOrdering c tc ph" "cache_dir tc = ''certs''"
    using example_read_ordering by blast
  obtain s2 where s2: "live_run example_deps (example_moves 23) example_read = Some s2"
    and "(case lv_renewal s2 of RenewalOrdering c tc (RenameKey cert key) \<Rightarrow> Some (cert, key) | _ \<Rightarrow> None) = Some (''CERT2'', ''KEY2'')"
    using example_torn_report(1) by auto
  then obtain c' tc' where key: "lv_renewal s2 = RenewalOrdering c' tc' (RenameKey ''CERT2'' ''KEY2'')"
    by (auto split: renewal_phase.splits ordering.splits)
  have "list_all (\<lambda>e. (\<forall>f. e \<noteq> RenewalTurn f) \<and> spares (cache_dir tc) e) (example_moves 23)"
    by (simp add: example_moves_def list_all_iff)
  from torn_pair_only_between_renames [OF example_renewing_steps(1) read(1) s2 this] key read(2) example_torn_report(2)
  have "pair_on ''certs'' (pv_files (nd_prov (lv_node s2))) = (Some ''CERT2'', Some ''KEY'')" by auto
  with s2 show ?thesis by blast
qed

theorem renewal_can_be_finished_witness:
  "\<exists>n s' c. live_run example_deps (example_moves n) example_read = Some s' \<and>
     lv_renewal s' \<in> {RenewalIdle, RenewalBuilding c}"
proof -
  obtain c tc ph where read: "lv_renewal example_read = RenewalOrdering c tc ph" using example_read_ordering by blast
  have "clock_laws (d_acme example_deps)" "lv_ended example_read = None"
    by (simp_all add: example_deps_def example_acme_clock example_read_def example_due_def)
  from renewal_can_be_finished [OF this read, of Map.empty] show ?thesis unfolding example_moves_def by blast
qed

theorem renewal_turn_uninterrupted_witness:
  "\<exists>n fin. live_run (example_deps\<lparr>d_toml := example_toml_tls\<rparr>) (RenewalTurn Map.empty # example_moves n @ fin) example_due =
     Some (example_due\<lparr>lv_node := the (example_renewal True ''two routes'')\<rparr>)"
proof -
  have "renewal_tick (d_toml (example_deps\<lparr>d_toml := example_toml_tls\<rparr>)) example_wasm
      (d_tls (example_deps\<lparr>d_toml := example_toml_tls\<rparr>)) (d_acme (example_deps\<lparr>d_toml := example_toml_tls\<rparr>)) Map.empty 41 True
      (d_config_path (example_deps\<lparr>d_toml := example_toml_tls\<rparr>)) (lv_node example_due) =
      Some (the (example_renewal True ''two routes''))"
    using example_renewal_some(1) by (simp add: example_renewal_def example_deps_def example_due_def)
  moreover have "lv_ended example_due = None" "lv_renews example_due" "lv_renewal example_due = RenewalIdle"
    by (simp_all add: example_due_def)
  ultimately show ?thesis
    using renewal_turn_uninterrupted [of example_due "example_deps\<lparr>d_toml := example_toml_tls\<rparr>"]
    unfolding example_moves_def by blast
qed

text \<open>
  In a started server: the redirect server is up, the certificate's date is lost, and an order is under
  way, about to announce its challenge after seven steps.
\<close>

definition example_validating :: "(nat, example_module, example_instance, (string \<times> string) list, string) event list" where
  "example_validating = [Bound (Ok ()), Edit (\<lambda>fs. fs(''certs/issued_at'' := None)), RenewalTurn Map.empty] @ example_moves 7"

lemma example_validating_report:
  "map_option (\<lambda>s. (case lv_renewal s of RenewalOrdering c tc (Announce ord auths urls) \<Rightarrow> Some (auths, urls) | _ \<Rightarrow> None,
      lv_redirect s, Option.is_none (lv_ended s))) (example_run example_validating) =
   Some (Some ([example_challenges], [''https://ca/c/2'']), Some 8080, True)"
  by code_simp

theorem challenges_answered_while_renewing_witness:
  "\<exists>resp s'. live_exec example_deps (Asked (example_redirect ''a'' ''/.well-known/acme-challenge/tok''))
       (example_after example_validating) = Some s' \<and>
     lv_plain s' = lv_plain (example_after example_validating) @ [resp] \<and> resp_status resp = 200 \<and>
     resp_body resp = ''tok.thumbprint''"
proof -
  let ?s = "example_after example_validating" and ?c = "example_challenges ! 1"
  let ?req = "example_redirect ''a'' ''/.well-known/acme-challenge/tok''"
  from example_validating_report have "example_run example_validating \<noteq> None" by auto
  then have run: "live_run example_deps example_validating (live_of example_rn) = Some ?s" by (rule example_after)
  from example_validating_report have report: "(case lv_renewal ?s of RenewalOrdering c tc (Announce ord auths urls) \<Rightarrow>
      Some (auths, urls) | _ \<Rightarrow> None) = Some ([example_challenges], [''https://ca/c/2''])"
    "lv_redirect ?s = Some 8080" "lv_ended ?s = None"
    by (auto simp: example_after_def Option.is_none_def split: option.splits)
  from report(1) obtain c tc ord urls where asking: "lv_renewal ?s = RenewalOrdering c tc (Announce ord [example_challenges] urls)"
    by (auto split: renewal_phase.splits ordering.splits)
  have chosen: "map http01_challenge [example_challenges] = map Ok [?c]" "distinct (map ch_token [?c])" "?c \<in> set [?c]"
    "uri_path (req_uri ?req) = challenge_prefix @ ch_token ?c"
    by (simp_all add: http01_challenge_def example_challenges_def example_redirect_def challenge_prefix_def)
  have "acme_key_authorization (d_acme example_deps) ord ?c = ''tok.thumbprint''"
    by (simp add: example_deps_def example_acme_def example_challenges_def)
  with challenges_answered_while_renewing [OF example_boot run report(3,2), of ?req] asking chosen validating.simps(1)
  show ?thesis by metis
qed

end
