(* ===== verification/Order_Contest.thy ===== *)
theory Order_Contest
  imports Order_Laws Provisioning
begin

section \<open>Several proxies on one cache directory (\<open>src/acme.rs\<close>)\<close>

text \<open>
  The lock file \<open>.renewing\<close> is there for proxies that share a cache directory: each runs its own orders,
  with its own world and challenge store, on the same files. \<open>contest_exec\<close> is one step of one of them.
  The lock excludes all orders but one when nothing comes between looking for it and writing it
  (\<open>one_order_at_a_time\<close>), which the code does not ensure (\<open>lock_race_mixes_pair\<close>).
\<close>

subsection \<open>Orders side by side\<close>

record ('w, 'acct, 'ord, 'kp) contender =
  cd_tls :: tls_config
  cd_phase :: "('acct, 'ord, 'kp) ordering"
  cd_prov :: "'w prov"

record ('w, 'acct, 'ord, 'kp) contest =
  ct_files :: files
  ct_orders :: "('w, 'acct, 'ord, 'kp) contender list"

text \<open>\<open>Steps k faults\<close>: the next step of order \<open>k\<close>. \<open>Again k\<close>: its proxy begins another one.\<close>

datatype contest_event = Steps nat faults | Again nat

fun is_ordered :: "('acct, 'ord, 'kp) ordering \<Rightarrow> bool" where
  "is_ordered (Ordered r) = True"
| "is_ordered _ = False"

definition order_on ::
  "('w, 'acct, 'ord, 'par, 'kp, 'csr) acme_api \<Rightarrow> faults \<Rightarrow> files \<Rightarrow> ('w, 'acct, 'ord, 'kp) contender \<Rightarrow>
   ('acct, 'ord, 'kp) ordering \<times> 'w prov" where
  "order_on api faults fs cd = order_step api faults (cd_tls cd) (cd_phase cd) ((cd_prov cd)\<lparr>pv_files := fs\<rparr>)"

fun contest_exec ::
  "('w, 'acct, 'ord, 'par, 'kp, 'csr) acme_api \<Rightarrow> contest_event \<Rightarrow> ('w, 'acct, 'ord, 'kp) contest \<Rightarrow>
   ('w, 'acct, 'ord, 'kp) contest option" where
  "contest_exec api (Steps k faults) s =
     (if k < length (ct_orders s) then
        (case order_on api faults (ct_files s) (ct_orders s ! k) of
           (ph, pv) \<Rightarrow> Some \<lparr>ct_files = pv_files pv,
             ct_orders = (ct_orders s)[k := (ct_orders s ! k)\<lparr>cd_phase := ph, cd_prov := pv\<rparr>]\<rparr>)
      else None)"
| "contest_exec api (Again k) s =
     (if k < length (ct_orders s) \<and> is_ordered (cd_phase (ct_orders s ! k)) then
        Some (s\<lparr>ct_orders := (ct_orders s)[k := (ct_orders s ! k)\<lparr>cd_phase := CheckLock\<rparr>]\<rparr>)
      else None)"

fun contest_run ::
  "('w, 'acct, 'ord, 'par, 'kp, 'csr) acme_api \<Rightarrow> contest_event list \<Rightarrow> ('w, 'acct, 'ord, 'kp) contest \<Rightarrow>
   ('w, 'acct, 'ord, 'kp) contest option" where
  "contest_run api [] s = Some s"
| "contest_run api (e # es) s = (case contest_exec api e s of None \<Rightarrow> None | Some s1 \<Rightarrow> contest_run api es s1)"

subsection \<open>Holding the lock\<close>

fun holds_lock :: "('acct, 'ord, 'kp) ordering \<Rightarrow> bool" where
  "holds_lock CheckLock = False"
| "holds_lock TakeLock = False"
| "holds_lock (ClearStore r) = False"
| "holds_lock (Ordered r) = False"
| "holds_lock _ = True"

fun takes_lock :: "('acct, 'ord, 'kp) ordering \<Rightarrow> bool" where
  "takes_lock TakeLock = True"
| "takes_lock _ = False"

definition active :: "('w, 'acct, 'ord, 'kp) contender \<Rightarrow> bool" where
  "active cd \<longleftrightarrow> holds_lock (cd_phase cd) \<or> takes_lock (cd_phase cd)"

text \<open>
  An event that comes between no other order's look at the lock file and its writing it, and in which the
  file system does not fail to say whether the lock file is there.
\<close>

fun undivided :: "path \<Rightarrow> ('w, 'acct, 'ord, 'kp) contest \<Rightarrow> contest_event \<Rightarrow> bool" where
  "undivided dir s (Steps k faults) \<longleftrightarrow>
     faults (FsStat (lock_path dir)) = None \<and>
     list_all (\<lambda>j. j = k \<or> \<not> takes_lock (cd_phase (ct_orders s ! j))) [0..<length (ct_orders s)]"
| "undivided dir s (Again k) \<longleftrightarrow> True"

fun undivided_run ::
  "path \<Rightarrow> ('w, 'acct, 'ord, 'par, 'kp, 'csr) acme_api \<Rightarrow> contest_event list \<Rightarrow> ('w, 'acct, 'ord, 'kp) contest \<Rightarrow> bool" where
  "undivided_run dir api [] s \<longleftrightarrow> True"
| "undivided_run dir api (e # es) s \<longleftrightarrow>
     undivided dir s e \<and> (case contest_exec api e s of None \<Rightarrow> True | Some s1 \<Rightarrow> undivided_run dir api es s1)"

subsection \<open>What a step does to the lock\<close>

lemma order_step_lock_kept:
  assumes "order_step api faults tc ph s = (ph', s')" "holds_lock ph" "holds_lock ph'"
  shows "pv_files s' (lock_path (cache_dir tc)) = pv_files s (lock_path (cache_dir tc))"
  using order_step_files [OF assms(1)] assms(2,3)
  by (cases ph) (auto simp: cache_paths intro: fs_write_frame fs_rename_frame)

text \<open>Only \<open>TakeLock\<close> leads to a phase with the lock, and it has just written it.\<close>

lemma order_step_enters:
  assumes "order_step api faults tc ph s = (ph', s')" "\<not> holds_lock ph" "holds_lock ph'"
  shows "ph = TakeLock \<and> ph' = CreateAccount \<and> pv_files s' (lock_path (cache_dir tc)) \<noteq> None"
  using assms by (cases ph) (auto split: sum.splits prod.splits if_splits dest: fs_write_Ok)

text \<open>Without the lock a step leaves the files alone, and sees a lock that is there.\<close>

lemma order_step_passive:
  assumes "order_step api faults tc ph s = (ph', s')" "\<not> holds_lock ph" "\<not> takes_lock ph"
  shows "pv_files s' = pv_files s" "\<not> holds_lock ph'"
    and "faults (FsStat (lock_path (cache_dir tc))) = None \<Longrightarrow> pv_files s (lock_path (cache_dir tc)) \<noteq> None \<Longrightarrow>
      \<not> takes_lock ph'"
  using assms by (cases ph; auto simp: fs_exists_def split: sum.splits if_splits)+

subsection \<open>At most one order at a time\<close>

definition exclusive :: "path \<Rightarrow> ('w, 'acct, 'ord, 'kp) contest \<Rightarrow> bool" where
  "exclusive dir s \<longleftrightarrow>
     (\<forall>i < length (ct_orders s). cache_dir (cd_tls (ct_orders s ! i)) = dir) \<and>
     (\<forall>i < length (ct_orders s). \<forall>j < length (ct_orders s).
        active (ct_orders s ! i) \<and> active (ct_orders s ! j) \<longrightarrow> i = j) \<and>
     (\<forall>i < length (ct_orders s). holds_lock (cd_phase (ct_orders s ! i)) \<longrightarrow>
        ct_files s (lock_path dir) \<noteq> None \<and> (\<exists>old. order_disk dir old (cd_phase (ct_orders s ! i)) (ct_files s)))"

lemma exclusive_orders:
  assumes "exclusive dir s" "i < length (ct_orders s)"
  shows "cache_dir (cd_tls (ct_orders s ! i)) = dir"
    and "j < length (ct_orders s) \<Longrightarrow> active (ct_orders s ! i) \<Longrightarrow> active (ct_orders s ! j) \<Longrightarrow> i = j"
    and "holds_lock (cd_phase (ct_orders s ! i)) \<Longrightarrow>
      ct_files s (lock_path dir) \<noteq> None \<and> (\<exists>old. order_disk dir old (cd_phase (ct_orders s ! i)) (ct_files s))"
  using assms unfolding exclusive_def by blast+

lemma exclusive_update:
  assumes "exclusive dir s" "k < length (ct_orders s)" "cache_dir (cd_tls cd) = dir"
    and "\<And>j. active cd \<Longrightarrow> j < length (ct_orders s) \<Longrightarrow> active (ct_orders s ! j) \<Longrightarrow> j = k"
    and "holds_lock (cd_phase cd) \<Longrightarrow> fs (lock_path dir) \<noteq> None \<and> (\<exists>old. order_disk dir old (cd_phase cd) fs)"
    and "\<And>j. j < length (ct_orders s) \<Longrightarrow> j \<noteq> k \<Longrightarrow> holds_lock (cd_phase (ct_orders s ! j)) \<Longrightarrow> fs = ct_files s"
  shows "exclusive dir \<lparr>ct_files = fs, ct_orders = (ct_orders s)[k := cd]\<rparr>"
proof -
  note ex = exclusive_orders [OF assms(1)]
  have at: "(ct_orders s)[k := cd] ! i = (if i = k then cd else ct_orders s ! i)" if "i < length (ct_orders s)" for i
    using that by (simp add: nth_list_update)
  have "cache_dir (cd_tls ((ct_orders s)[k := cd] ! i)) = dir" if "i < length (ct_orders s)" for i
    using ex(1) [OF that] assms(3) by (simp add: at [OF that])
  moreover have "i = j" if "i < length (ct_orders s)" "j < length (ct_orders s)"
      "active ((ct_orders s)[k := cd] ! i)" "active ((ct_orders s)[k := cd] ! j)" for i j
  proof (cases "i = k \<or> j = k")
    case True
    with that assms(4) [OF _ that(1)] assms(4) [OF _ that(2)] show ?thesis by (auto simp: at [OF that(1)] at [OF that(2)] split: if_splits)
  next
    case False
    with that(3,4) ex(2) [OF that(1,2)] show ?thesis by (simp add: at [OF that(1)] at [OF that(2)])
  qed
  moreover have "fs (lock_path dir) \<noteq> None \<and> (\<exists>old. order_disk dir old (cd_phase ((ct_orders s)[k := cd] ! i)) fs)"
    if "i < length (ct_orders s)" "holds_lock (cd_phase ((ct_orders s)[k := cd] ! i))" for i
    using that ex(3) [OF that(1)] assms(5,6) by (cases "i = k") (simp_all add: at)
  ultimately show ?thesis unfolding exclusive_def by auto
qed

text \<open>A step of an order while no other is active.\<close>

lemma order_on_alone:
  assumes "order_on api faults fs cd = (ph, pv)"
    and "holds_lock (cd_phase cd) \<Longrightarrow>
      fs (lock_path (cache_dir (cd_tls cd))) \<noteq> None \<and> (\<exists>old. order_disk (cache_dir (cd_tls cd)) old (cd_phase cd) fs)"
    and "holds_lock ph"
  shows "pv_files pv (lock_path (cache_dir (cd_tls cd))) \<noteq> None \<and>
    (\<exists>old. order_disk (cache_dir (cd_tls cd)) old ph (pv_files pv))"
proof (cases "holds_lock (cd_phase cd)")
  case True
  note step = assms(1) [unfolded order_on_def]
  from assms(2) [OF True] obtain old where "order_disk (cache_dir (cd_tls cd)) old (cd_phase cd) fs"
    and lock: "fs (lock_path (cache_dir (cd_tls cd))) \<noteq> None" by blast
  then have "order_disk (cache_dir (cd_tls cd)) old ph (pv_files pv)"
    using order_step_disk [OF step] by simp
  moreover from lock have "pv_files pv (lock_path (cache_dir (cd_tls cd))) \<noteq> None"
    using order_step_lock_kept [OF step True assms(3)] by simp
  ultimately show ?thesis by blast
next
  case False
  from order_step_enters [OF assms(1) [unfolded order_on_def] False assms(3)]
  show ?thesis by (simp add: order_disk_def)
qed

text \<open>A step of an order while another is active.\<close>

lemma order_on_excluded:
  assumes "order_on api faults fs cd = (ph, pv)" "\<not> active cd"
    and "faults (FsStat (lock_path (cache_dir (cd_tls cd)))) = None" "fs (lock_path (cache_dir (cd_tls cd))) \<noteq> None"
  shows "pv_files pv = fs" "\<not> holds_lock ph" "\<not> takes_lock ph"
  using order_step_passive [OF assms(1) [unfolded order_on_def]] assms(2-4) by (auto simp: active_def)

lemma contest_exec_exclusive:
  assumes "contest_exec api e s = Some s'" "undivided dir s e" "exclusive dir s"
  shows "exclusive dir s'"
proof (cases e)
  case (Again k)
  with assms(1) have k: "k < length (ct_orders s)"
    and "s' = \<lparr>ct_files = ct_files s, ct_orders = (ct_orders s)[k := (ct_orders s ! k)\<lparr>cd_phase := CheckLock\<rparr>]\<rparr>"
    by (auto split: if_splits)
  moreover have "exclusive dir \<dots>"
    by (rule exclusive_update [OF assms(3) k]) (use exclusive_orders(1) [OF assms(3) k] in \<open>auto simp: active_def\<close>)
  ultimately show ?thesis by simp
next
  case (Steps k faults)
  let ?cd = "ct_orders s ! k"
  obtain ph pv where step: "order_on api faults (ct_files s) ?cd = (ph, pv)" by force
  from assms(1) Steps step have k: "k < length (ct_orders s)"
    and s': "s' = \<lparr>ct_files = pv_files pv, ct_orders = (ct_orders s)[k := ?cd\<lparr>cd_phase := ph, cd_prov := pv\<rparr>]\<rparr>"
    by (auto split: if_splits)
  note ex = exclusive_orders [OF assms(3)]
  have dir: "cache_dir (cd_tls ?cd) = dir" by (rule ex(1) [OF k])
  show ?thesis
  proof (cases "\<exists>j < length (ct_orders s). j \<noteq> k \<and> active (ct_orders s ! j)")
    case True
    then obtain j where j: "j < length (ct_orders s)" "j \<noteq> k" "active (ct_orders s ! j)" by blast
    with assms(2) Steps have "holds_lock (cd_phase (ct_orders s ! j))"
      by (auto simp: active_def list_all_iff)
    with ex(3) [OF j(1)] have "ct_files s (lock_path dir) \<noteq> None" by blast
    moreover have "\<not> active ?cd" using ex(2) [OF j(1) k j(3)] j(2) by blast
    ultimately have "pv_files pv = ct_files s" "\<not> holds_lock ph" "\<not> takes_lock ph"
      using order_on_excluded [OF step] assms(2) Steps dir by auto
    then show ?thesis unfolding s' using dir
      by (intro exclusive_update [OF assms(3) k]) (simp_all add: active_def)
  next
    case False
    then have others: "\<not> active (ct_orders s ! j)" if "j < length (ct_orders s)" "j \<noteq> k" for j using that by blast
    have "pv_files pv (lock_path dir) \<noteq> None \<and> (\<exists>old. order_disk dir old ph (pv_files pv))" if "holds_lock ph"
      using order_on_alone [OF step _ that] ex(3) [OF k] dir by simp
    then show ?thesis unfolding s' using dir others
      by (intro exclusive_update [OF assms(3) k]) (auto simp: active_def)
  qed
qed

lemma contest_run_exclusive:
  "contest_run api es s = Some s' \<Longrightarrow> undivided_run dir api es s \<Longrightarrow> exclusive dir s \<Longrightarrow> exclusive dir s'"
  by (induction es arbitrary: s) (auto split: option.splits intro: contest_exec_exclusive)

text \<open>
  C25: when nothing comes between an order's look at the lock file and its writing it, of any number of
  proxies that share a cache directory at most one has an order that holds the lock, and when its order
  succeeds the directory holds the certificate and the key of that order.
\<close>
theorem one_order_at_a_time:
  assumes "contest_run api es s = Some s'" "undivided_run dir api es s"
    and "list_all (\<lambda>cd. cd_phase cd = CheckLock \<and> cache_dir (cd_tls cd) = dir) (ct_orders s)"
    and "i < length (ct_orders s')" "holds_lock (cd_phase (ct_orders s' ! i))"
  shows "(\<forall>j < length (ct_orders s'). holds_lock (cd_phase (ct_orders s' ! j)) \<longrightarrow> j = i) \<and>
    (\<forall>cert key. cd_phase (ct_orders s' ! i) = CleanUp (Ok (cert, key)) \<longrightarrow>
       pair_on dir (ct_files s') = (Some cert, Some key))"
proof -
  have "exclusive dir s" using assms(3) by (auto simp: exclusive_def active_def list_all_length)
  with assms(1,2) have "exclusive dir s'" by (rule contest_run_exclusive)
  note ex = exclusive_orders [OF this assms(4)]
  from ex(2) assms(5) have "j = i" if "j < length (ct_orders s')" "holds_lock (cd_phase (ct_orders s' ! j))" for j
    using that by (auto simp: active_def)
  moreover from ex(3) [OF assms(5)] obtain old where "order_disk dir old (cd_phase (ct_orders s' ! i)) (ct_files s')" by blast
  ultimately show ?thesis by (auto simp: order_disk_def)
qed

subsection \<open>A lock left behind\<close>

text \<open>
  A proxy that is killed while it holds the lock leaves the file behind. From then on no order of any
  proxy gets further than looking at it, and the certificate on disk is never renewed again, until
  someone removes the file.
\<close>

definition turned_away :: "('w, 'acct, 'ord, 'kp) contender \<Rightarrow> bool" where
  "turned_away cd \<longleftrightarrow> cd_phase cd = CheckLock \<or> (\<exists>e. cd_phase cd = Ordered (Err e))"

fun lock_seen :: "path \<Rightarrow> contest_event \<Rightarrow> bool" where
  "lock_seen dir (Steps k faults) \<longleftrightarrow> faults (FsStat (lock_path dir)) = None"
| "lock_seen dir (Again k) \<longleftrightarrow> True"

lemma order_on_turned_away:
  assumes "order_on api faults fs cd = (ph, pv)" "turned_away cd"
    and "faults (FsStat (lock_path (cache_dir (cd_tls cd)))) = None" "fs (lock_path (cache_dir (cd_tls cd))) \<noteq> None"
  shows "pv_files pv = fs" "\<exists>e. ph = Ordered (Err e)"
  using assms by (auto simp: order_on_def turned_away_def fs_exists_def dest: sym split: sum.splits)

lemma contest_exec_turned_away:
  assumes "contest_exec api e s = Some s'" "lock_seen dir e" "ct_files s (lock_path dir) \<noteq> None"
    and "list_all (\<lambda>cd. turned_away cd \<and> cache_dir (cd_tls cd) = dir) (ct_orders s)"
  shows "ct_files s' = ct_files s \<and> list_all (\<lambda>cd. turned_away cd \<and> cache_dir (cd_tls cd) = dir) (ct_orders s')"
proof (cases e)
  case (Again k)
  with assms(1,4) show ?thesis
    by (auto simp: list_all_length nth_list_update turned_away_def split: if_splits)
next
  case (Steps k faults)
  let ?cd = "ct_orders s ! k"
  obtain ph pv where step: "order_on api faults (ct_files s) ?cd = (ph, pv)" by force
  from assms(1) Steps step have k: "k < length (ct_orders s)"
    and s': "s' = \<lparr>ct_files = pv_files pv, ct_orders = (ct_orders s)[k := ?cd\<lparr>cd_phase := ph, cd_prov := pv\<rparr>]\<rparr>"
    by (auto split: if_splits)
  with assms(4) have away: "turned_away ?cd" "cache_dir (cd_tls ?cd) = dir" by (auto simp: list_all_length)
  with order_on_turned_away [OF step] assms(2,3) Steps have "pv_files pv = ct_files s" "\<exists>e. ph = Ordered (Err e)" by auto
  with assms(4) away s' k show ?thesis
    by (auto simp: list_all_length nth_list_update turned_away_def)
qed

theorem stale_lock_stops_renewal:
  assumes "contest_run api es s = Some s'" "list_all (lock_seen dir) es" "ct_files s (lock_path dir) \<noteq> None"
    and "list_all (\<lambda>cd. turned_away cd \<and> cache_dir (cd_tls cd) = dir) (ct_orders s)"
  shows "ct_files s' = ct_files s \<and> list_all turned_away (ct_orders s')"
proof -
  have "ct_files s' = ct_files s \<and> list_all (\<lambda>cd. turned_away cd \<and> cache_dir (cd_tls cd) = dir) (ct_orders s')"
    using assms
  proof (induction es arbitrary: s)
    case (Cons e es)
    then obtain s1 where s1: "contest_exec api e s = Some s1" "contest_run api es s1 = Some s'"
      by (auto split: option.splits)
    with contest_exec_turned_away [OF s1(1) _ Cons.prems(3,4)] Cons.prems(2) Cons.prems(3)
    have "ct_files s1 = ct_files s" "list_all (\<lambda>cd. turned_away cd \<and> cache_dir (cd_tls cd) = dir) (ct_orders s1)" by auto
    with Cons.IH [OF s1(2)] Cons.prems(2,3) show ?case by simp
  qed simp
  then show ?thesis by (auto simp: list_all_iff)
qed

subsection \<open>Two proxies\<close>

text \<open>An authority that delivers at once; the certificate and the key bear the number of the proxy.\<close>

definition example_ca :: "(nat, unit, unit, unit, nat, unit) acme_api" where
  "example_ca =
     \<lparr>acme_account = (\<lambda>contact dir w. (Ok (), w)),
      acme_new_order = (\<lambda>a ds w. (Ok (), w)),
      acme_authorizations = (\<lambda>ord w. (Ok [example_challenges], w)),
      acme_key_authorization = (\<lambda>ord c. ch_token c @ ''.thumbprint''),
      acme_set_ready = (\<lambda>ord url w. (Ok (), w)),
      acme_refresh = (\<lambda>ord w. (Ok OrderReady, w)),
      acme_finalize = (\<lambda>ord csr w. (Ok (), w)),
      acme_certificate = (\<lambda>ord w. (Ok (Some (''CERT'' @ dec w)), w)),
      rcgen_params = (\<lambda>ds. Ok ()), rcgen_key = (\<lambda>w. (Ok w, w)), rcgen_csr = (\<lambda>par kp. Ok ()),
      rcgen_key_pem = (\<lambda>kp. ''KEY'' @ dec kp),
      acme_bind = (\<lambda>a w. (Ok (), w)),
      acme_sleep = (\<lambda>n w. w),
      acme_instant = (\<lambda>w. 0),
      acme_unix_now = (\<lambda>w. 1700000000)\<rparr>"

definition example_contest :: "(nat, unit, unit, nat) contest" where
  "example_contest =
     \<lparr>ct_files = example_files,
      ct_orders = map (\<lambda>n. \<lparr>cd_tls = example_tls_config, cd_phase = CheckLock,
        cd_prov = \<lparr>pv_world = n, pv_files = example_files, pv_server = None, pv_store = Map.empty\<rparr>\<rparr>) [0, 1]\<rparr>"

definition example_steps :: "(nat \<times> nat) list \<Rightarrow> contest_event list" where
  "example_steps ks = concat (map (\<lambda>(n, k). replicate n (Steps k Map.empty)) ks)"

text \<open>
  Both look for the lock before either has written it. Order 1 then installs the certificate that order
  0 has staged in its place, with its own key, and reports success; order 0 fails.
\<close>

definition example_race :: "contest_event list" where
  "example_race = example_steps [(1, 0), (14, 1), (13, 0), (1, 1), (2, 0), (6, 1), (3, 0)]"

definition example_results ::
  "(nat, unit, unit, nat) contest \<Rightarrow> (proxy_error + string \<times> string) option list \<times> string option \<times> string option" where
  "example_results s =
     (map (\<lambda>cd. case cd_phase cd of Ordered r \<Rightarrow> Some r | _ \<Rightarrow> None) (ct_orders s), pair_on ''certs'' (ct_files s))"

theorem lock_race_mixes_pair:
  "map_option example_results (contest_run example_ca example_race example_contest) =
     Some ([Some (Err (AcmeError (''rename cert.pem: '' @ no_such_file))), Some (Ok (''CERT1'', ''KEY1''))],
           Some ''CERT0'', Some ''KEY1'')"
  by code_simp

text \<open>One after the other: order 1 finds the lock and gives up.\<close>

definition example_turns :: "contest_event list" where
  "example_turns = example_steps [(14, 0), (1, 1), (5, 0)]"

lemma example_turns_report:
  "map_option (\<lambda>s. map (\<lambda>cd. case cd_phase cd of CleanUp r \<Rightarrow> Some r | _ \<Rightarrow> None) (ct_orders s))
     (contest_run example_ca example_turns example_contest) = Some [Some (Ok (''CERT0'', ''KEY0'')), None]"
  "undivided_run ''certs'' example_ca example_turns example_contest"
  by code_simp+

theorem one_order_at_a_time_witness:
  "\<exists>s. contest_run example_ca example_turns example_contest = Some s \<and>
     pair_on ''certs'' (ct_files s) = (Some ''CERT0'', Some ''KEY0'')"
proof -
  from example_turns_report(1) obtain s where s: "contest_run example_ca example_turns example_contest = Some s"
    and report: "map (\<lambda>cd. case cd_phase cd of CleanUp r \<Rightarrow> Some r | _ \<Rightarrow> None) (ct_orders s) = [Some (Ok (''CERT0'', ''KEY0'')), None]"
    by auto
  then obtain cd0 cd1 where orders: "ct_orders s = [cd0, cd1]" by (auto simp: map_eq_Cons_conv)
  with report have phase: "cd_phase (ct_orders s ! 0) = CleanUp (Ok (''CERT0'', ''KEY0''))" by (auto split: ordering.splits)
  have "list_all (\<lambda>cd. cd_phase cd = CheckLock \<and> cache_dir (cd_tls cd) = ''certs'') (ct_orders example_contest)"
    by (simp add: example_contest_def example_tls_config_def)
  from one_order_at_a_time [OF s example_turns_report(2) this, of 0] orders phase s show ?thesis by simp
qed

end
