(* ===== verification/Unit_Tests.thy ===== *)
theory Unit_Tests
  imports Server
begin

section \<open>The repository's unit tests\<close>

text \<open>
  The tests beside the code in \<open>src/src/\<close>, as statements about the model: a test is the conjunction of
  its assertions, and an \<open>unwrap\<close> of an error fails it. What a library does with a text of a test (the
  TOML and PEM texts, the WAT modules) is a hypothesis with that text in it; the bodies of the WAT
  modules are functions on the bytes of their memory.
\<close>

definition unwrapped :: "'e + 'a \<Rightarrow> ('a \<Rightarrow> bool) \<Rightarrow> bool" where
  "unwrapped r P = (case r of Inl _ \<Rightarrow> False | Inr x \<Rightarrow> P x)"

fun contains :: "string \<Rightarrow> string \<Rightarrow> bool" where
  "contains needle [] = (needle = [])"
| "contains needle (c # s) = (starts_with needle (c # s) \<or> contains needle s)"

lemma contains_append: "contains needle s \<Longrightarrow> contains needle (t @ s)"
  by (induction t) auto

lemma unwrapped_Ok [simp]: "unwrapped (Inr x) P = P x"
  by (simp add: unwrapped_def)

subsection \<open>\<open>config.rs\<close>\<close>

definition text_of :: "string list \<Rightarrow> string" where
  "text_of ls = newline @ concat (map (\<lambda>l. l @ newline) ls)"

definition entry :: "string \<Rightarrow> string \<Rightarrow> string" where
  "entry key val = key @ '' = '' @ dquoted val"

definition pair_entry :: "string \<Rightarrow> string \<Rightarrow> string \<Rightarrow> string" where
  "pair_entry key a b = key @ '' = ['' @ dquoted a @ '', '' @ dquoted b @ '']''"

definition valid_config_text :: string where
  "valid_config_text = text_of
     [''[server]'', entry ''listen'' ''127.0.0.1:8080'', [],
      ''[[routes]]'', entry ''path_prefix'' ''/api'', entry ''upstream'' ''127.0.0.1:3000'', [],
      ''[[routes]]'', entry ''path_prefix'' ''/'', entry ''upstream'' ''127.0.0.1:8000'']"

definition missing_server_text :: string where
  "missing_server_text = ''[[routes]]'' @ newline @ entry ''path_prefix'' ''/'' @ newline @ entry ''upstream'' ''x''"

definition server_only_text :: string where
  "server_only_text = ''[server]'' @ newline @ entry ''listen'' ''0.0.0.0:80''"

definition route_with_plugins_text :: string where
  "route_with_plugins_text = text_of
     [''[server]'', entry ''listen'' ''127.0.0.1:8080'', [],
      ''[[routes]]'', entry ''path_prefix'' ''/api'', entry ''upstream'' ''127.0.0.1:3000'',
      pair_entry ''plugins'' ''./plugins/auth.wasm'' ''./plugins/rate.wasm'']"

definition route_without_plugins_text :: string where
  "route_without_plugins_text = text_of
     [''[server]'', entry ''listen'' ''127.0.0.1:8080'', [],
      ''[[routes]]'', entry ''path_prefix'' ''/'', entry ''upstream'' ''127.0.0.1:8000'']"

definition tls_config_text :: string where
  "tls_config_text = text_of
     [''[server]'', entry ''listen'' ''0.0.0.0:443'', entry ''http_challenge_listen'' ''0.0.0.0:80'', [],
      ''[tls]'', entry ''acme_email'' ''admin@example.com'', entry ''cache_dir'' ''./certs'',
      pair_entry ''domains'' ''example.com'' ''www.example.com'', [],
      ''[[routes]]'', entry ''path_prefix'' ''/'', entry ''upstream'' ''127.0.0.1:3000'']"

definition test_parse_valid_config :: "toml \<Rightarrow> bool" where
  "test_parse_valid_config toml_from_str \<longleftrightarrow>
     unwrapped (config_parse toml_from_str valid_config_text) (\<lambda>cfg.
       listen (server cfg) = ''127.0.0.1:8080'' \<and> max_idle_connections (server cfg) = 10 \<and>
       length (routes cfg) = 2 \<and> (case routes cfg of [] \<Rightarrow> False | r # _ \<Rightarrow> path_prefix r = ''/api''))"

definition test_missing_server_fails :: "toml \<Rightarrow> bool" where
  "test_missing_server_fails toml_from_str \<longleftrightarrow> \<not> is_ok (config_parse toml_from_str missing_server_text)"

definition test_empty_routes_ok :: "toml \<Rightarrow> bool" where
  "test_empty_routes_ok toml_from_str \<longleftrightarrow>
     unwrapped (config_parse toml_from_str server_only_text) (\<lambda>cfg. routes cfg = [])"

definition test_default_max_idle :: "toml \<Rightarrow> bool" where
  "test_default_max_idle toml_from_str \<longleftrightarrow>
     unwrapped (config_parse toml_from_str server_only_text) (\<lambda>cfg. max_idle_connections (server cfg) = 10)"

definition test_route_with_plugins_parses :: "toml \<Rightarrow> bool" where
  "test_route_with_plugins_parses toml_from_str \<longleftrightarrow>
     unwrapped (config_parse toml_from_str route_with_plugins_text) (\<lambda>cfg.
       case routes cfg of
         [] \<Rightarrow> False
       | r # _ \<Rightarrow> length (route_plugins r) = 2 \<and>
           (case route_plugins r of [] \<Rightarrow> False | p # _ \<Rightarrow> p = ''./plugins/auth.wasm''))"

definition test_route_without_plugins_defaults_empty :: "toml \<Rightarrow> bool" where
  "test_route_without_plugins_defaults_empty toml_from_str \<longleftrightarrow>
     unwrapped (config_parse toml_from_str route_without_plugins_text) (\<lambda>cfg.
       case routes cfg of [] \<Rightarrow> False | r # _ \<Rightarrow> route_plugins r = [])"

definition test_tls_config_parses :: "toml \<Rightarrow> bool" where
  "test_tls_config_parses toml_from_str \<longleftrightarrow>
     unwrapped (config_parse toml_from_str tls_config_text) (\<lambda>cfg.
       case tls cfg of
         None \<Rightarrow> False
       | Some tc \<Rightarrow> acme_email tc = ''admin@example.com'' \<and> length (domains tc) = 2 \<and>
           acme_directory tc = ''https://acme-v02.api.letsencrypt.org/directory'' \<and>
           http_challenge_listen (server cfg) = Some ''0.0.0.0:80'')"

definition test_missing_tls_defaults_none :: "toml \<Rightarrow> bool" where
  "test_missing_tls_defaults_none toml_from_str \<longleftrightarrow>
     unwrapped (config_parse toml_from_str server_only_text) (\<lambda>cfg.
       tls cfg = None \<and> http_challenge_listen (server cfg) = None)"

text \<open>What \<open>toml\<close> reads from these texts.\<close>

definition plain_server :: "string \<Rightarrow> raw_server" where
  "plain_server addr =
     \<lparr>raw_listen = addr, raw_max_idle_connections = None, raw_timeout_ms = None, raw_http_challenge_listen = None\<rparr>"

definition plain_route :: "string \<Rightarrow> string \<Rightarrow> raw_route" where
  "plain_route path addr = \<lparr>raw_path_prefix = path, raw_upstream = addr, raw_plugins = None\<rparr>"

definition reads_texts :: "toml \<Rightarrow> bool" where
  "reads_texts toml_from_str \<longleftrightarrow>
     toml_from_str valid_config_text = Ok \<lparr>raw_server_table = plain_server ''127.0.0.1:8080'',
       raw_routes = Some [plain_route ''/api'' ''127.0.0.1:3000'', plain_route ''/'' ''127.0.0.1:8000''],
       raw_tls_table = None\<rparr> \<and>
     \<not> is_ok (toml_from_str missing_server_text) \<and>
     toml_from_str server_only_text = Ok \<lparr>raw_server_table = plain_server ''0.0.0.0:80'',
       raw_routes = None, raw_tls_table = None\<rparr> \<and>
     toml_from_str route_with_plugins_text = Ok \<lparr>raw_server_table = plain_server ''127.0.0.1:8080'',
       raw_routes = Some [(plain_route ''/api'' ''127.0.0.1:3000'')
         \<lparr>raw_plugins := Some [''./plugins/auth.wasm'', ''./plugins/rate.wasm'']\<rparr>],
       raw_tls_table = None\<rparr> \<and>
     toml_from_str route_without_plugins_text = Ok \<lparr>raw_server_table = plain_server ''127.0.0.1:8080'',
       raw_routes = Some [plain_route ''/'' ''127.0.0.1:8000''], raw_tls_table = None\<rparr> \<and>
     toml_from_str tls_config_text = Ok
       \<lparr>raw_server_table = (plain_server ''0.0.0.0:443'')\<lparr>raw_http_challenge_listen := Some ''0.0.0.0:80''\<rparr>,
        raw_routes = Some [plain_route ''/'' ''127.0.0.1:3000''],
        raw_tls_table = Some \<lparr>raw_acme_email = ''admin@example.com'', raw_acme_directory = None,
          raw_cache_dir = ''./certs'', raw_domains = [''example.com'', ''www.example.com'']\<rparr>\<rparr>"

lemmas raw_defs =
  config_parse_def config_of_raw_def server_of_raw_def route_of_raw_def tls_of_raw_def or_default_def
  plain_server_def plain_route_def result_simps default_max_idle_def default_acme_directory_def

theorem config_tests_pass:
  assumes "reads_texts toml_from_str"
  shows "test_parse_valid_config toml_from_str" "test_missing_server_fails toml_from_str"
    "test_empty_routes_ok toml_from_str" "test_default_max_idle toml_from_str"
    "test_route_with_plugins_parses toml_from_str" "test_route_without_plugins_defaults_empty toml_from_str"
    "test_tls_config_parses toml_from_str" "test_missing_tls_defaults_none toml_from_str"
proof -
  note reads = assms [unfolded reads_texts_def]
  show "test_parse_valid_config toml_from_str" using reads by (simp add: test_parse_valid_config_def raw_defs)
  show "test_missing_server_fails toml_from_str" using reads
    by (cases "toml_from_str missing_server_text") (simp_all add: test_missing_server_fails_def raw_defs)
  show "test_empty_routes_ok toml_from_str" using reads by (simp add: test_empty_routes_ok_def raw_defs)
  show "test_default_max_idle toml_from_str" using reads by (simp add: test_default_max_idle_def raw_defs)
  show "test_route_with_plugins_parses toml_from_str" using reads
    by (simp add: test_route_with_plugins_parses_def raw_defs)
  show "test_route_without_plugins_defaults_empty toml_from_str" using reads
    by (simp add: test_route_without_plugins_defaults_empty_def raw_defs)
  show "test_tls_config_parses toml_from_str" using reads by (simp add: test_tls_config_parses_def raw_defs)
  show "test_missing_tls_defaults_none toml_from_str" using reads
    by (simp add: test_missing_tls_defaults_none_def raw_defs)
qed

subsection \<open>\<open>plugin.rs\<close>: the modules\<close>

text \<open>
  A module's text and the body of its \<open>on_request\<close>: a function on the bytes of the memory and the
  arguments \<open>mp\<close>, \<open>ml\<close>, \<open>pp\<close>, \<open>pl\<close>.
\<close>

type_synonym wasm_memory = "nat \<Rightarrow> nat \<Rightarrow> string"
type_synonym wasm_body = "wasm_memory \<Rightarrow> i32 \<times> i32 \<times> i32 \<times> i32 \<Rightarrow> i32"

definition load8_u :: "wasm_memory \<Rightarrow> i32 \<Rightarrow> i32" where
  "load8_u mem a = of_char (hd (mem (unat a) 1))"

definition memory_line :: string where
  "memory_line = ''  (memory (export '' @ dquoted ''memory'' @ '') 1)''"

definition function_line :: string where
  "function_line = ''  (func (export '' @ dquoted ''on_request'' @ '') (param i32 i32 i32 i32) (result i32)''"

definition constant_wat :: "string \<Rightarrow> string" where
  "constant_wat k = text_of [''(module'', memory_line, function_line, ''    i32.const '' @ k @ ''))'']"

definition named_params :: "string list" where
  "named_params =
     [''  (func (export '' @ dquoted ''on_request'' @ '')'',
      ''    (param $mp i32) (param $ml i32) (param $pp i32) (param $pl i32)'', ''    (result i32)'']"

definition block_path_wat :: string where
  "block_path_wat = text_of ([''(module'', memory_line] @ named_params @
     [''    (if (i32.lt_u (local.get $pl) (i32.const 6)) (then (return (i32.const 0))))'',
      ''    (if (i32.ne (i32.load8_u (local.get $pp))                          (i32.const 47))  (then (return (i32.const 0))))'',
      ''    (if (i32.ne (i32.load8_u (i32.add (local.get $pp) (i32.const 1))) (i32.const 98))  (then (return (i32.const 0))))'',
      ''    (if (i32.ne (i32.load8_u (i32.add (local.get $pp) (i32.const 2))) (i32.const 108)) (then (return (i32.const 0))))'',
      ''    (if (i32.ne (i32.load8_u (i32.add (local.get $pp) (i32.const 3))) (i32.const 111)) (then (return (i32.const 0))))'',
      ''    (if (i32.ne (i32.load8_u (i32.add (local.get $pp) (i32.const 4))) (i32.const 99))  (then (return (i32.const 0))))'',
      ''    (if (i32.ne (i32.load8_u (i32.add (local.get $pp) (i32.const 5))) (i32.const 107)) (then (return (i32.const 0))))'',
      ''    i32.const 1)'', '')''])"

fun block_path_body :: wasm_body where
  "block_path_body mem (mp, ml, pp, pl) =
     (if pl < 6 then 0
      else if load8_u mem pp \<noteq> 47 then 0
      else if load8_u mem (pp + 1) \<noteq> 98 then 0
      else if load8_u mem (pp + 2) \<noteq> 108 then 0
      else if load8_u mem (pp + 3) \<noteq> 111 then 0
      else if load8_u mem (pp + 4) \<noteq> 99 then 0
      else if load8_u mem (pp + 5) \<noteq> 107 then 0
      else 1)"

definition no_memory_wat :: string where
  "no_memory_wat = text_of [''(module'', function_line, ''    i32.const 0))'']"

definition no_fn_wat :: string where
  "no_fn_wat = text_of [''(module'', memory_line @ '')'']"

definition method_check_wat :: string where
  "method_check_wat = text_of ([''(module'', memory_line] @ named_params @
     [''    ;; Block if first byte of method is '' @ quoted ''G'' @ '' = 71'',
      ''    (if (i32.eqz (local.get $ml)) (then (return (i32.const 0))))'',
      ''    (if (i32.eq (i32.load8_u (local.get $mp)) (i32.const 71))'',
      ''      (then (return (i32.const 1))))'',
      ''    i32.const 0)'', '')''])"

fun method_check_body :: wasm_body where
  "method_check_body mem (mp, ml, pp, pl) = (if ml = 0 then 0 else if load8_u mem mp = 71 then 1 else 0)"

text \<open>
  What \<open>wasmtime\<close> makes of a text: a module whose instances have a memory of one page or none, and
  export \<open>on_request\<close> with a body or do not.
\<close>

definition module_is :: "('m, 's) wasm_api \<Rightarrow> 'm \<Rightarrow> bool \<Rightarrow> wasm_body option \<Rightarrow> bool" where
  "module_is wasm m with_memory body \<longleftrightarrow>
     (\<exists>instances s0. wasm_instantiate wasm m = Ok s0 \<and> s0 \<in> instances \<and>
        (\<forall>s \<in> instances.
           wasm_has_memory wasm s = with_memory \<and>
           (\<forall>off bs. with_memory \<and> off + length bs \<le> 65536 \<longrightarrow>
              (\<exists>s' \<in> instances. wasm_write wasm s off bs = Ok s')) \<and>
           (is_ok (wasm_get_on_request wasm s) \<longleftrightarrow> body \<noteq> None) \<and>
           (\<forall>f args. body = Some f \<longrightarrow> wasm_call wasm s args = Ok (f (wasm_read wasm s) args))))"

definition compiles :: "('m, 's) wasm_api \<Rightarrow> (string \<Rightarrow> string + 'm) \<Rightarrow> string \<Rightarrow> bool \<Rightarrow> wasm_body option \<Rightarrow> bool" where
  "compiles wasm new_module wat with_memory body \<longleftrightarrow>
     (\<exists>m. new_module wat = Ok m \<and> module_is wasm m with_memory body)"

text \<open>A byte is read the same alone and among others.\<close>

definition reads_bytes :: "('m, 's) wasm_api \<Rightarrow> bool" where
  "reads_bytes wasm \<longleftrightarrow> (\<forall>s a n i. i < n \<longrightarrow> wasm_read wasm s (a + i) 1 = [wasm_read wasm s a n ! i])"

lemma run_module:
  assumes "wasm_laws wasm" "module_is wasm m True (Some f)" "length meth \<le> 256" "length path \<le> 65280"
  obtains s where
    "run_plugin wasm meth path (plugin_from_module name m) =
       Ok (f (wasm_read wasm s) (0, of_nat (length meth), 256, of_nat (length path)) \<noteq> 0)"
    "wasm_read wasm s 0 (length meth) = meth" "wasm_read wasm s 256 (length path) = path"
proof -
  from assms(2) obtain I s0 where s0: "wasm_instantiate wasm m = Ok s0" "s0 \<in> I"
    and I: "\<And>s. s \<in> I \<Longrightarrow> wasm_has_memory wasm s \<and> is_ok (wasm_get_on_request wasm s)"
      "\<And>s off bs. s \<in> I \<Longrightarrow> off + length bs \<le> 65536 \<Longrightarrow> \<exists>s' \<in> I. wasm_write wasm s off bs = Ok s'"
      "\<And>s args. s \<in> I \<Longrightarrow> wasm_call wasm s args = Ok (f (wasm_read wasm s) args)"
    unfolding module_is_def by auto
  from I(2) [OF s0(2), of 0 meth] assms(3) obtain s1 where s1: "s1 \<in> I" "wasm_write wasm s0 0 meth = Ok s1" by auto
  from I(2) [OF s1(1), of 256 path] assms(4) obtain s2 where s2: "s2 \<in> I" "wasm_write wasm s1 256 path = Ok s2" by auto
  have "wasm_read wasm s2 0 (length meth) = meth" "wasm_read wasm s2 256 (length path) = path"
    using assms(1,3) s1(2) s2(2) unfolding wasm_laws_def by (metis add_0)+
  moreover have "run_plugin wasm meth path (plugin_from_module name m) =
      Ok (f (wasm_read wasm s2) (0, of_nat (length meth), 256, of_nat (length path)) \<noteq> 0)"
    using assms(3) s0 s1 s2 I(1) [OF s0(2)] I(1) [OF s2(1)] I(3) [OF s2(1)]
    by (auto simp: run_plugin_def plugin_from_module_def result_simps is_ok_iff)
  ultimately show thesis by (rule that [rotated])
qed

subsection \<open>\<open>plugin.rs\<close>: the tests\<close>

definition pushed ::
  "(string \<Rightarrow> string + 'm) \<Rightarrow> string \<Rightarrow> string \<Rightarrow> 'm plugin_runtime \<Rightarrow> ('m plugin_runtime \<Rightarrow> bool) \<Rightarrow> bool" where
  "pushed new_module name wat rt P \<longleftrightarrow> unwrapped (new_module wat) (\<lambda>m. P (push_module name m rt))"

definition test_runtime_initializes :: "('m, 's) wasm_api \<Rightarrow> bool" where
  "test_runtime_initializes wasm \<longleftrightarrow>
     unwrapped plugin_runtime_new (\<lambda>rt :: 'm plugin_runtime. plugins rt = [])"

definition test_load_nonexistent_file_fails :: "('m, 's) wasm_api \<Rightarrow> bool" where
  "test_load_nonexistent_file_fails wasm \<longleftrightarrow>
     unwrapped plugin_runtime_new (\<lambda>rt. \<not> is_ok (plugin_load wasm ''nonexistent.wasm'' rt))"

definition test_empty_runtime_always_passes :: "('m, 's) wasm_api \<Rightarrow> bool" where
  "test_empty_runtime_always_passes wasm \<longleftrightarrow>
     unwrapped plugin_runtime_new (\<lambda>rt. unwrapped (run_on_request wasm rt ''GET'' ''/anything'') (\<lambda>blocked. \<not> blocked))"

definition test_block_all_plugin_blocks_request :: "('m, 's) wasm_api \<Rightarrow> (string \<Rightarrow> string + 'm) \<Rightarrow> bool" where
  "test_block_all_plugin_blocks_request wasm new_module \<longleftrightarrow>
     unwrapped plugin_runtime_new (\<lambda>rt. pushed new_module ''block-all'' (constant_wat ''1'') rt (\<lambda>rt.
       unwrapped (run_on_request wasm rt ''GET'' ''/anything'') (\<lambda>blocked. blocked)))"

definition test_pass_all_plugin_passes_request :: "('m, 's) wasm_api \<Rightarrow> (string \<Rightarrow> string + 'm) \<Rightarrow> bool" where
  "test_pass_all_plugin_passes_request wasm new_module \<longleftrightarrow>
     unwrapped plugin_runtime_new (\<lambda>rt. pushed new_module ''pass-all'' (constant_wat ''0'') rt (\<lambda>rt.
       unwrapped (run_on_request wasm rt ''POST'' ''/data'') (\<lambda>blocked. \<not> blocked)))"

definition test_path_checking_plugin_blocks_correct_path :: "('m, 's) wasm_api \<Rightarrow> (string \<Rightarrow> string + 'm) \<Rightarrow> bool" where
  "test_path_checking_plugin_blocks_correct_path wasm new_module \<longleftrightarrow>
     unwrapped plugin_runtime_new (\<lambda>rt. pushed new_module ''block-path'' block_path_wat rt (\<lambda>rt.
       unwrapped (run_on_request wasm rt ''GET'' ''/blocked'') (\<lambda>blocked. blocked) \<and>
       unwrapped (run_on_request wasm rt ''GET'' ''/blockme'') (\<lambda>blocked. blocked) \<and>
       unwrapped (run_on_request wasm rt ''GET'' ''/other'') (\<lambda>blocked. \<not> blocked) \<and>
       unwrapped (run_on_request wasm rt ''GET'' ''/'') (\<lambda>blocked. \<not> blocked)))"

definition fails_with :: "string \<Rightarrow> proxy_error + 'a \<Rightarrow> bool" where
  "fails_with text r \<longleftrightarrow> (case r of Inl e \<Rightarrow> contains text (proxy_error_to_string e) | Inr _ \<Rightarrow> False)"

definition test_missing_memory_export_returns_error :: "('m, 's) wasm_api \<Rightarrow> (string \<Rightarrow> string + 'm) \<Rightarrow> bool" where
  "test_missing_memory_export_returns_error wasm new_module \<longleftrightarrow>
     unwrapped plugin_runtime_new (\<lambda>rt. pushed new_module ''no-memory'' no_memory_wat rt (\<lambda>rt.
       fails_with (''missing '' @ quoted ''memory'' @ '' export'') (run_on_request wasm rt ''GET'' ''/test'')))"

definition test_missing_on_request_export_returns_error :: "('m, 's) wasm_api \<Rightarrow> (string \<Rightarrow> string + 'm) \<Rightarrow> bool" where
  "test_missing_on_request_export_returns_error wasm new_module \<longleftrightarrow>
     unwrapped plugin_runtime_new (\<lambda>rt. pushed new_module ''no-fn'' no_fn_wat rt (\<lambda>rt.
       fails_with (''missing '' @ quoted ''on_request'' @ '' export'') (run_on_request wasm rt ''GET'' ''/test'')))"

definition test_first_block_wins_ordering :: "('m, 's) wasm_api \<Rightarrow> (string \<Rightarrow> string + 'm) \<Rightarrow> bool" where
  "test_first_block_wins_ordering wasm new_module \<longleftrightarrow>
     unwrapped plugin_runtime_new (\<lambda>rt.
       pushed new_module ''block'' (constant_wat ''1'') rt (\<lambda>rt.
       pushed new_module ''pass'' (constant_wat ''0'') rt (\<lambda>rt.
         unwrapped (run_on_request wasm rt ''GET'' ''/test'') (\<lambda>blocked. blocked)))) \<and>
     unwrapped plugin_runtime_new (\<lambda>rt.
       pushed new_module ''pass'' (constant_wat ''0'') rt (\<lambda>rt.
       pushed new_module ''block'' (constant_wat ''1'') rt (\<lambda>rt.
         unwrapped (run_on_request wasm rt ''GET'' ''/test'') (\<lambda>blocked. blocked)))) \<and>
     unwrapped plugin_runtime_new (\<lambda>rt.
       pushed new_module ''pass1'' (constant_wat ''0'') rt (\<lambda>rt.
       pushed new_module ''pass2'' (constant_wat ''0'') rt (\<lambda>rt.
         unwrapped (run_on_request wasm rt ''GET'' ''/test'') (\<lambda>blocked. \<not> blocked))))"

definition test_method_bytes_written_to_plugin_memory :: "('m, 's) wasm_api \<Rightarrow> (string \<Rightarrow> string + 'm) \<Rightarrow> bool" where
  "test_method_bytes_written_to_plugin_memory wasm new_module \<longleftrightarrow>
     unwrapped plugin_runtime_new (\<lambda>rt. pushed new_module ''method-check'' method_check_wat rt (\<lambda>rt.
       unwrapped (run_on_request wasm rt ''GET'' ''/test'') (\<lambda>blocked. blocked) \<and>
       unwrapped (run_on_request wasm rt ''POST'' ''/test'') (\<lambda>blocked. \<not> blocked)))"

definition compiles_texts :: "('m, 's) wasm_api \<Rightarrow> (string \<Rightarrow> string + 'm) \<Rightarrow> bool" where
  "compiles_texts wasm new_module \<longleftrightarrow>
     compiles wasm new_module (constant_wat ''0'') True (Some (\<lambda>_ _. 0)) \<and>
     compiles wasm new_module (constant_wat ''1'') True (Some (\<lambda>_ _. 1)) \<and>
     compiles wasm new_module block_path_wat True (Some block_path_body) \<and>
     compiles wasm new_module no_memory_wat False (Some (\<lambda>_ _. 0)) \<and>
     compiles wasm new_module no_fn_wat True None \<and>
     compiles wasm new_module method_check_wat True (Some method_check_body)"

lemma pushed_compiled:
  assumes "compiles wasm new_module wat with_memory body"
    and "\<And>m. module_is wasm m with_memory body \<Longrightarrow> P (push_module name m rt)"
  shows "pushed new_module name wat rt P"
  using assms by (auto simp: pushed_def compiles_def)

lemma constant_runs:
  assumes "wasm_laws wasm" "module_is wasm m True (Some (\<lambda>_ _. k))" "length meth \<le> 256" "length path \<le> 65280"
  shows "run_plugin wasm meth path (plugin_from_module name m) = Ok (k \<noteq> 0)"
  by (rule run_module [OF assms]) simp

text \<open>The bytes of the memory from its words.\<close>

lemma load8_u_in:
  assumes "reads_bytes wasm" "wasm_read wasm s a (length bs) = bs" "i < length bs" "unat p = a + i"
  shows "load8_u (wasm_read wasm s) p = of_char (bs ! i)"
  using assms unfolding load8_u_def reads_bytes_def by simp

lemma of_char_i32: "of_char a = (of_char b :: i32) \<longleftrightarrow> a = b"
proof -
  have "unat (of_char c :: i32) = of_char c" for c :: char
    using unat_of_nat [of "of_char c :: nat", where 'a = 32] nat_of_char_less_256 [of c]
    by (simp add: of_nat_of_char)
  then show ?thesis by (metis of_char_eq_iff)
qed

lemma block_path_runs:
  assumes "wasm_laws wasm" "reads_bytes wasm" "module_is wasm m True (Some block_path_body)" "length path \<le> 65280"
  shows "run_plugin wasm ''GET'' path (plugin_from_module name m) = Ok (starts_with ''/block'' path)"
proof -
  obtain s where run: "run_plugin wasm ''GET'' path (plugin_from_module name m) =
      Ok (block_path_body (wasm_read wasm s) (0, of_nat (length ''GET''), 256, of_nat (length path)) \<noteq> 0)"
    and mem: "wasm_read wasm s 256 (length path) = path"
    by (rule run_module [OF assms(1,3) _ assms(4), of "''GET''" name]) simp
  have short: "of_nat (length path) < (6 :: i32) \<longleftrightarrow> length path < 6"
    using assms(4) by (simp add: word_less_nat_alt unat_of_nat)
  show ?thesis
  proof (cases "length path < 6")
    case True
    then show ?thesis using run short by (auto simp: starts_with_def dest: arg_cong [of _ _ length])
  next
    case False
    then obtain a b c d e f rest where path: "path = a # b # c # d # e # f # rest"
      by (auto simp: not_less numeral_eq_Suc Suc_le_length_iff)
    note byte = load8_u_in [OF assms(2) mem]
    have bytes: "load8_u (wasm_read wasm s) 256 = of_char a" "load8_u (wasm_read wasm s) (256 + 1) = of_char b"
      "load8_u (wasm_read wasm s) (256 + 2) = of_char c" "load8_u (wasm_read wasm s) (256 + 3) = of_char d"
      "load8_u (wasm_read wasm s) (256 + 4) = of_char e" "load8_u (wasm_read wasm s) (256 + 5) = of_char f"
      using byte [of 0] byte [of 1] byte [of 2] byte [of 3] byte [of 4] byte [of 5] by (simp_all add: path)
    have "block_path_body (wasm_read wasm s) (0, of_nat (length ''GET''), 256, of_nat (length path)) \<noteq> 0 \<longleftrightarrow>
        [a, b, c, d, e, f] = ''/block''"
      using False short bytes of_char_i32 [of _ "CHR ''/''"] of_char_i32 [of _ "CHR ''b''"] of_char_i32 [of _ "CHR ''l''"]
        of_char_i32 [of _ "CHR ''o''"] of_char_i32 [of _ "CHR ''c''"] of_char_i32 [of _ "CHR ''k''"] by simp
    with run show ?thesis by (simp add: starts_with_def path)
  qed
qed

lemma method_check_runs:
  assumes "wasm_laws wasm" "reads_bytes wasm" "module_is wasm m True (Some method_check_body)"
    and "meth \<noteq> []" "length meth \<le> 256" "length path \<le> 65280"
  shows "run_plugin wasm meth path (plugin_from_module name m) = Ok (hd meth = CHR ''G'')"
proof -
  obtain s where run: "run_plugin wasm meth path (plugin_from_module name m) =
      Ok (method_check_body (wasm_read wasm s) (0, of_nat (length meth), 256, of_nat (length path)) \<noteq> 0)"
    and mem: "wasm_read wasm s 0 (length meth) = meth"
    by (rule run_module [OF assms(1,3,5,6), of name])
  have "load8_u (wasm_read wasm s) 0 = of_char (hd meth)"
    using load8_u_in [OF assms(2) mem, of 0 0] assms(4) by (simp add: hd_conv_nth)
  moreover have "(of_nat (length meth) :: i32) \<noteq> 0"
    using assms(4,5) by (simp add: unat_eq_zero [symmetric] unat_of_nat)
  ultimately show ?thesis using run of_char_i32 [of "hd meth" "CHR ''G''"] by simp
qed

lemma no_memory_fails:
  assumes "module_is wasm m False body" "length meth \<le> 256"
  shows "run_plugin wasm meth path (plugin_from_module name m) =
    Err (PluginError (quoted name @ '' missing '' @ quoted ''memory'' @ '' export''))"
proof -
  from assms(1) obtain s0 where "wasm_instantiate wasm m = Ok s0" "\<not> wasm_has_memory wasm s0"
    unfolding module_is_def by auto
  with assms(2) show ?thesis by (simp add: run_plugin_def plugin_from_module_def result_simps)
qed

lemma no_function_fails:
  assumes "module_is wasm m True None" "length meth \<le> 256" "length path \<le> 65280"
  shows "\<exists>e. run_plugin wasm meth path (plugin_from_module name m) =
    Err (PluginError (quoted name @ '' missing '' @ quoted ''on_request'' @ '' export: '' @ e))"
proof -
  from assms(1) obtain I s0 where s0: "wasm_instantiate wasm m = Ok s0" "s0 \<in> I"
    and I: "\<And>s. s \<in> I \<Longrightarrow> wasm_has_memory wasm s \<and> \<not> is_ok (wasm_get_on_request wasm s)"
      "\<And>s off bs. s \<in> I \<Longrightarrow> off + length bs \<le> 65536 \<Longrightarrow> \<exists>s' \<in> I. wasm_write wasm s off bs = Ok s'"
    unfolding module_is_def by auto
  from I(2) [OF s0(2), of 0 meth] assms(2) obtain s1 where s1: "s1 \<in> I" "wasm_write wasm s0 0 meth = Ok s1" by auto
  from I(2) [OF s1(1), of 256 path] assms(3) obtain s2 where s2: "s2 \<in> I" "wasm_write wasm s1 256 path = Ok s2" by auto
  from I(1) [OF s2(1)] obtain e where "wasm_get_on_request wasm s2 = Err e" by (cases "wasm_get_on_request wasm s2") auto
  with assms(2) s0 s1 s2 I(1) [OF s0(2)] show ?thesis
    by (intro exI [of _ e]) (simp add: run_plugin_def plugin_from_module_def result_simps)
qed

lemma contains_middle: "contains needle (before @ needle @ after)"
proof -
  have "contains needle (needle @ after)"
    using starts_with_append [of needle after] by (cases "needle @ after") (simp_all del: starts_with_append)
  then show ?thesis by (rule contains_append)
qed

lemmas push_simps = plugin_runtime_new_def push_module_def run_on_request_def result_simps

text \<open>
  C39: the unit tests of \<open>plugin.rs\<close> hold of the model, when \<open>wasmtime\<close> compiles the texts of their modules
  to what the texts say, its memory keeps what is written and there is no file \<open>nonexistent.wasm\<close>.
\<close>
theorem plugin_tests_pass:
  assumes "wasm_laws wasm" "reads_bytes wasm" "compiles_texts wasm new_module"
    and "\<not> is_ok (wasm_compile wasm ''nonexistent.wasm'')"
  shows "test_runtime_initializes wasm \<and> test_load_nonexistent_file_fails wasm \<and>
    test_empty_runtime_always_passes wasm \<and> test_block_all_plugin_blocks_request wasm new_module \<and>
    test_pass_all_plugin_passes_request wasm new_module \<and>
    test_path_checking_plugin_blocks_correct_path wasm new_module \<and>
    test_missing_memory_export_returns_error wasm new_module \<and>
    test_missing_on_request_export_returns_error wasm new_module \<and>
    test_first_block_wins_ordering wasm new_module \<and>
    test_method_bytes_written_to_plugin_memory wasm new_module"
proof (intro conjI)
  have passing: "compiles wasm new_module (constant_wat ''0'') True (Some (\<lambda>_ _. 0))"
    and blocking: "compiles wasm new_module (constant_wat ''1'') True (Some (\<lambda>_ _. 1))"
    and path_check: "compiles wasm new_module block_path_wat True (Some block_path_body)"
    and no_memory: "compiles wasm new_module no_memory_wat False (Some (\<lambda>_ _. 0))"
    and no_function: "compiles wasm new_module no_fn_wat True None"
    and method_check: "compiles wasm new_module method_check_wat True (Some method_check_body)"
    using assms(3) unfolding compiles_texts_def by blast+
  show "test_runtime_initializes wasm" by (simp add: test_runtime_initializes_def push_simps)
  show "test_load_nonexistent_file_fails wasm"
    using assms(4) by (cases "wasm_compile wasm ''nonexistent.wasm''")
      (simp_all add: test_load_nonexistent_file_fails_def push_simps plugin_load_def plugin_from_file_def Let_def)
  show "test_empty_runtime_always_passes wasm" by (simp add: test_empty_runtime_always_passes_def push_simps)
  show "test_block_all_plugin_blocks_request wasm new_module"
    unfolding test_block_all_plugin_blocks_request_def plugin_runtime_new_def unwrapped_Ok
    by (intro pushed_compiled [OF blocking]) (simp add: push_simps constant_runs [OF assms(1)])
  show "test_pass_all_plugin_passes_request wasm new_module"
    unfolding test_pass_all_plugin_passes_request_def plugin_runtime_new_def unwrapped_Ok
    by (intro pushed_compiled [OF passing]) (simp add: push_simps constant_runs [OF assms(1)])
  show "test_path_checking_plugin_blocks_correct_path wasm new_module"
    unfolding test_path_checking_plugin_blocks_correct_path_def plugin_runtime_new_def unwrapped_Ok
    by (intro pushed_compiled [OF path_check]) (simp add: push_simps block_path_runs [OF assms(1,2)] starts_with_def)
  show "test_missing_memory_export_returns_error wasm new_module"
    unfolding test_missing_memory_export_returns_error_def plugin_runtime_new_def unwrapped_Ok
  proof (rule pushed_compiled [OF no_memory])
    fix m assume m: "module_is wasm m False (Some (\<lambda>_ _. 0))"
    show "fails_with (''missing '' @ quoted ''memory'' @ '' export'')
        (run_on_request wasm (push_module ''no-memory'' m \<lparr>plugins = []\<rparr>) ''GET'' ''/test'')"
      using contains_middle [of "''missing '' @ quoted ''memory'' @ '' export''" "''plugin: '' @ quoted ''no-memory'' @ '' ''" "[]"]
      by (simp add: fails_with_def push_simps no_memory_fails [OF m])
  qed
  show "test_missing_on_request_export_returns_error wasm new_module"
    unfolding test_missing_on_request_export_returns_error_def plugin_runtime_new_def unwrapped_Ok
  proof (rule pushed_compiled [OF no_function])
    fix m assume m: "module_is wasm m True None"
    obtain e where "run_plugin wasm ''GET'' ''/test'' (plugin_from_module ''no-fn'' m) =
        Err (PluginError (quoted ''no-fn'' @ '' missing '' @ quoted ''on_request'' @ '' export: '' @ e))"
      using no_function_fails [OF m, of "''GET''" "''/test''" "''no-fn''"] by auto
    then show "fails_with (''missing '' @ quoted ''on_request'' @ '' export'')
        (run_on_request wasm (push_module ''no-fn'' m \<lparr>plugins = []\<rparr>) ''GET'' ''/test'')"
      using contains_middle [of "''missing '' @ quoted ''on_request'' @ '' export''" "''plugin: '' @ quoted ''no-fn'' @ '' ''" "'': '' @ e"]
      by (simp add: fails_with_def push_simps)
  qed
  show "test_first_block_wins_ordering wasm new_module"
    unfolding test_first_block_wins_ordering_def plugin_runtime_new_def unwrapped_Ok
    by (intro conjI pushed_compiled [OF passing] pushed_compiled [OF blocking])
      (simp_all add: push_simps constant_runs [OF assms(1)])
  show "test_method_bytes_written_to_plugin_memory wasm new_module"
    unfolding test_method_bytes_written_to_plugin_memory_def plugin_runtime_new_def unwrapped_Ok
    by (intro pushed_compiled [OF method_check]) (simp add: push_simps method_check_runs [OF assms(1,2)])
qed

text \<open>An engine in which the texts compile so.\<close>

type_synonym test_module = "bool \<times> wasm_body option"

definition test_modules :: "(string \<times> test_module) list" where
  "test_modules =
     [(constant_wat ''0'', (True, Some (\<lambda>_ _. 0))), (constant_wat ''1'', (True, Some (\<lambda>_ _. 1))),
      (block_path_wat, (True, Some block_path_body)), (no_memory_wat, (False, Some (\<lambda>_ _. 0))),
      (no_fn_wat, (True, None)), (method_check_wat, (True, Some method_check_body))]"

definition test_new_module :: "string \<Rightarrow> string + test_module" where
  "test_new_module wat = ok_or ''syntax error'' (map_of test_modules wat)"

definition test_engine :: "(test_module, test_module \<times> (nat \<Rightarrow> char)) wasm_api" where
  "test_engine =
     \<lparr>wasm_compile = (\<lambda>p. Err no_such_file),
      wasm_instantiate = (\<lambda>m. Ok (m, \<lambda>_. CHR 0x00)),
      wasm_has_memory = (\<lambda>s. fst (fst s)),
      wasm_write = (\<lambda>s off bs. map_sum id (Pair (fst s)) (mem_write (snd s) off bs)),
      wasm_read = (\<lambda>s a n. mem_read (snd s) a n),
      wasm_get_on_request = (\<lambda>s. ok_or ''unknown export'' (map_option (\<lambda>_. ()) (snd (fst s)))),
      wasm_call = (\<lambda>s args. ok_or ''no function'' (map_option (\<lambda>f. f (mem_read (snd s)) args) (snd (fst s))))\<rparr>"

lemma test_engine_module: "module_is test_engine (with_memory, body) with_memory body"
proof -
  let ?m = "(with_memory, body)"
  have "\<exists>s' \<in> {s. fst s = ?m}. wasm_write test_engine s off bs = Ok s'"
    if "fst s = ?m" "off + length bs \<le> 65536" for s off bs
    using that by (cases s) (auto simp: test_engine_def mem_write_def)
  moreover have "wasm_instantiate test_engine ?m = Ok (?m, \<lambda>_. CHR 0x00)" by (simp add: test_engine_def)
  moreover have "is_ok (wasm_get_on_request test_engine s) \<longleftrightarrow> body \<noteq> None" if "fst s = ?m" for s
    using that by (cases body) (simp_all add: test_engine_def)
  ultimately show ?thesis unfolding module_is_def
    by (intro exI [of _ "{s. fst s = ?m}"] exI [of _ "(?m, \<lambda>_. CHR 0x00)"]) (auto simp: test_engine_def)
qed

lemma test_engine_laws: "wasm_laws test_engine" "reads_bytes test_engine"
proof -
  have "wasm_read test_engine s' off (length bs) = bs \<and>
      (\<forall>a n. a + n \<le> off \<or> off + length bs \<le> a \<longrightarrow> wasm_read test_engine s' a n = wasm_read test_engine s a n)"
    if w: "wasm_write test_engine s off bs = Inr s'" for s off bs s'
  proof -
    from w obtain mem' where "mem_write (snd s) off bs = Inr mem'" "s' = (fst s, mem')"
      by (cases "mem_write (snd s) off bs") (auto simp: test_engine_def)
    with mem_read_written mem_read_elsewhere show ?thesis by (simp add: test_engine_def)
  qed
  then show "wasm_laws test_engine" unfolding wasm_laws_def by blast
  show "reads_bytes test_engine" by (simp add: reads_bytes_def test_engine_def mem_read_def)
qed

lemma test_texts:
  "distinct [constant_wat ''0'', constant_wat ''1'', block_path_wat, no_memory_wat, no_fn_wat, method_check_wat]"
  by code_simp

lemma test_compiled:
  assumes "(wat, with_memory, body) \<in> set test_modules"
  shows "compiles test_engine test_new_module wat with_memory body"
proof -
  have "distinct (map fst test_modules)" using test_texts by (simp add: test_modules_def)
  with assms have "test_new_module wat = Ok (with_memory, body)" by (simp add: test_new_module_def)
  then show ?thesis unfolding compiles_def using test_engine_module by blast
qed

lemma test_compiles: "compiles_texts test_engine test_new_module"
  unfolding compiles_texts_def by (intro conjI test_compiled) (simp_all add: test_modules_def)

theorem plugin_tests_pass_witness:
  "test_path_checking_plugin_blocks_correct_path test_engine test_new_module \<and>
   test_method_bytes_written_to_plugin_memory test_engine test_new_module"
proof -
  have "\<not> is_ok (wasm_compile test_engine ''nonexistent.wasm'')" by (simp add: test_engine_def)
  from plugin_tests_pass [OF test_engine_laws test_compiles this] show ?thesis by blast
qed

subsection \<open>\<open>state.rs\<close>\<close>

definition test_server_config :: server_config where
  "test_server_config =
     \<lparr>listen = ''127.0.0.1:8080'', max_idle_connections = 10, timeout_ms = 5000, http_challenge_listen = None\<rparr>"

text \<open>The flag heap and the files are whatever the test process has.\<close>

definition test_build_state_with_no_plugins_succeeds ::
  "('m, 's) wasm_api \<Rightarrow> ('cert, 'key, 'srv, 'acc) tls_api \<Rightarrow> files \<Rightarrow> flag_heap \<Rightarrow> bool" where
  "test_build_state_with_no_plugins_succeeds wasm tapi fs hp \<longleftrightarrow>
     (let config = \<lparr>server = test_server_config,
        routes = [\<lparr>path_prefix = ''/api'', upstream = ''127.0.0.1:3000'', route_plugins = []\<rparr>,
                  \<lparr>path_prefix = ''/'', upstream = ''127.0.0.1:8000'', route_plugins = []\<rparr>],
        tls = None\<rparr>
      in unwrapped (fst (build_state wasm tapi Map.empty fs config hp)) (\<lambda>st.
           length (app_routes st) = 2 \<and>
           (case app_routes st of [] \<Rightarrow> False | rs # _ \<Rightarrow> path_prefix (rs_route rs) = ''/api'') \<and>
           app_timeout_ms st = 5000 \<and> app_tls st = None))"

definition test_build_state_with_missing_plugin_fails ::
  "('m, 's) wasm_api \<Rightarrow> ('cert, 'key, 'srv, 'acc) tls_api \<Rightarrow> files \<Rightarrow> flag_heap \<Rightarrow> bool" where
  "test_build_state_with_missing_plugin_fails wasm tapi fs hp \<longleftrightarrow>
     (let config = \<lparr>server = test_server_config,
        routes = [\<lparr>path_prefix = ''/api'', upstream = ''127.0.0.1:3000'', route_plugins = [''nonexistent.wasm'']\<rparr>],
        tls = None\<rparr>
      in \<not> is_ok (fst (build_state wasm tapi Map.empty fs config hp)))"

definition test_build_state_without_tls_config_has_no_tls ::
  "('m, 's) wasm_api \<Rightarrow> ('cert, 'key, 'srv, 'acc) tls_api \<Rightarrow> files \<Rightarrow> flag_heap \<Rightarrow> bool" where
  "test_build_state_without_tls_config_has_no_tls wasm tapi fs hp \<longleftrightarrow>
     (let config = \<lparr>server = test_server_config, routes = [], tls = None\<rparr>
      in unwrapped (fst (build_state wasm tapi Map.empty fs config hp)) (\<lambda>st. app_tls st = None))"

definition test_build_state_with_tls_but_no_cert_files_returns_no_tls ::
  "('m, 's) wasm_api \<Rightarrow> ('cert, 'key, 'srv, 'acc) tls_api \<Rightarrow> files \<Rightarrow> flag_heap \<Rightarrow> bool" where
  "test_build_state_with_tls_but_no_cert_files_returns_no_tls wasm tapi fs hp \<longleftrightarrow>
     (let config = \<lparr>server = test_server_config\<lparr>http_challenge_listen := Some ''127.0.0.1:8081''\<rparr>,
        routes = [],
        tls = Some \<lparr>acme_email = ''test@example.com'',
          acme_directory = ''https://acme-staging-v02.api.letsencrypt.org/directory'',
          cache_dir = ''/nonexistent/path/that/does/not/exist'', domains = [''example.com'']\<rparr>\<rparr>
      in unwrapped (fst (build_state wasm tapi Map.empty fs config hp)) (\<lambda>st. app_tls st = None))"

theorem state_tests_pass:
  assumes "\<not> is_ok (wasm_compile wasm ''nonexistent.wasm'')"
    and "fs ''/nonexistent/path/that/does/not/exist/cert.pem'' = None"
  shows "test_build_state_with_no_plugins_succeeds wasm tapi fs hp"
    "test_build_state_with_missing_plugin_fails wasm tapi fs hp"
    "test_build_state_without_tls_config_has_no_tls wasm tapi fs hp"
    "test_build_state_with_tls_but_no_cert_files_returns_no_tls wasm tapi fs hp"
proof -
  note built = build_state_def build_tls_def plugin_runtime_new_def result_simps test_server_config_def
  show "test_build_state_with_no_plugins_succeeds wasm tapi fs hp"
    by (simp add: test_build_state_with_no_plugins_succeeds_def built split: prod.split)
  show "test_build_state_with_missing_plugin_fails wasm tapi fs hp"
    using assms(1) by (cases "wasm_compile wasm ''nonexistent.wasm''")
      (simp_all add: test_build_state_with_missing_plugin_fails_def built plugin_load_def plugin_from_file_def Let_def)
  show "test_build_state_without_tls_config_has_no_tls wasm tapi fs hp"
    by (simp add: test_build_state_without_tls_config_has_no_tls_def built)
  show "test_build_state_with_tls_but_no_cert_files_returns_no_tls wasm tapi fs hp"
    using assms(2) by (simp add: test_build_state_with_tls_but_no_cert_files_returns_no_tls_def built cert_file_def
        fs_exists_def path_join_def starts_with_def)
qed

subsection \<open>\<open>tls.rs\<close>\<close>

definition test_tls_config :: tls_config where
  "test_tls_config =
     \<lparr>acme_email = ''test@example.com'', acme_directory = ''https://acme-staging-v02.api.letsencrypt.org/directory'',
      cache_dir = ''./certs'', domains = [''localhost'']\<rparr>"

text \<open>The self-signed pair \<open>rcgen\<close> has generated is \<open>cert_pem\<close> and \<open>key_pem\<close>.\<close>

definition test_build_tls_state_with_valid_cert_succeeds ::
  "('cert, 'key, 'srv, 'acc) tls_api \<Rightarrow> string \<Rightarrow> string \<Rightarrow> bool" where
  "test_build_tls_state_with_valid_cert_succeeds tapi cert_pem key_pem \<longleftrightarrow>
     unwrapped (build_tls_state tapi test_tls_config cert_pem key_pem) (\<lambda>st. tls_domains st = [''localhost''])"

definition test_build_tls_state_with_invalid_pem_fails :: "('cert, 'key, 'srv, 'acc) tls_api \<Rightarrow> bool" where
  "test_build_tls_state_with_invalid_pem_fails tapi \<longleftrightarrow>
     fails_with ''tls:'' (build_tls_state tapi test_tls_config ''not-a-cert'' ''not-a-key'')"

theorem tls_tests_pass:
  assumes "pem_certs tapi cert_pem = [Ok cert]" "pem_private_key tapi key_pem = Ok (Some key)"
    and "with_single_cert tapi [cert] key = Ok srv"
    and "pem_certs tapi ''not-a-cert'' = []"
  shows "test_build_tls_state_with_valid_cert_succeeds tapi cert_pem key_pem"
    "test_build_tls_state_with_invalid_pem_fails tapi"
  using assms by (simp_all add: test_build_tls_state_with_valid_cert_succeeds_def
      test_build_tls_state_with_invalid_pem_fails_def build_tls_state_def test_tls_config_def result_simps
      fails_with_def starts_with_def)

subsection \<open>\<open>acme.rs\<close>\<close>

text \<open>
  The challenge server gets one connection with a \<open>GET\<close> for the path, and is then shut down; \<open>req\<close> is the
  request \<open>reqwest\<close> sends.
\<close>

definition challenge_answers ::
  "'h header_api \<Rightarrow> (string \<rightharpoonup> string) \<Rightarrow> ('h, 'b) request \<Rightarrow> ('h, string) response outcome list" where
  "challenge_answers api challenges req =
     map (challenge_handler api challenges) (challenge_accepts [Accepted req, ShutdownFired])"

definition test_challenge_server_responds_to_well_known_path :: "'h header_api \<Rightarrow> ('h, 'b) request \<Rightarrow> bool" where
  "test_challenge_server_responds_to_well_known_path api req \<longleftrightarrow>
     (case challenge_answers api [''test-token-123'' \<mapsto> ''test-token-123.keyauth456''] req of
        [Returned resp] \<Rightarrow> resp_status resp = 200 \<and> resp_body resp = ''test-token-123.keyauth456''
      | _ \<Rightarrow> False)"

definition test_challenge_server_returns_404_for_unknown_token :: "'h header_api \<Rightarrow> ('h, 'b) request \<Rightarrow> bool" where
  "test_challenge_server_returns_404_for_unknown_token api req \<longleftrightarrow>
     (case challenge_answers api Map.empty req of
        [Returned resp] \<Rightarrow> resp_status resp = 404
      | _ \<Rightarrow> False)"

text \<open>The clock when the test writes \<open>issued_at\<close> and when the check reads it: \<open>written\<close> and \<open>now\<close>.\<close>

definition test_cert_needs_renewal_returns_true_when_cert_missing :: "files \<Rightarrow> u64 \<Rightarrow> bool" where
  "test_cert_needs_renewal_returns_true_when_cert_missing fs now \<longleftrightarrow>
     cert_needs_renewal Map.empty fs now ''/nonexistent/path/certdir''"

definition test_cert_needs_renewal_returns_false_when_recently_issued ::
  "path \<Rightarrow> files \<Rightarrow> u64 \<Rightarrow> u64 \<Rightarrow> bool" where
  "test_cert_needs_renewal_returns_false_when_recently_issued dir fs written now \<longleftrightarrow>
     (case fs_write Map.empty fs (path_join dir ''cert.pem'') ''dummy'' of
        (Inl _, _) \<Rightarrow> False
      | (Inr _, fs1) \<Rightarrow>
          (case fs_write Map.empty fs1 (path_join dir ''issued_at'') (dec (unat written)) of
             (Inl _, _) \<Rightarrow> False
           | (Inr _, fs2) \<Rightarrow> \<not> cert_needs_renewal Map.empty fs2 now dir))"

definition test_cert_needs_renewal_returns_true_when_issued_at_old :: "path \<Rightarrow> files \<Rightarrow> u64 \<Rightarrow> bool" where
  "test_cert_needs_renewal_returns_true_when_issued_at_old dir fs now \<longleftrightarrow>
     (case fs_write Map.empty fs (path_join dir ''cert.pem'') ''dummy'' of
        (Inl _, _) \<Rightarrow> False
      | (Inr _, fs1) \<Rightarrow>
          (case fs_write Map.empty fs1 (path_join dir ''issued_at'') ''0'' of
             (Inl _, _) \<Rightarrow> False
           | (Inr _, fs2) \<Rightarrow> cert_needs_renewal Map.empty fs2 now dir))"

theorem acme_tests_pass:
  assumes "uri_path (req_uri req) = ''/.well-known/acme-challenge/test-token-123''"
    and "uri_path (req_uri req') = ''/.well-known/acme-challenge/unknown''"
    and "fs ''/nonexistent/path/certdir/cert.pem'' = None"
    and "unat written + 5184000 < 2 ^ 64" "unat now \<le> unat written + 60" "5184000 < unat now"
  shows "test_challenge_server_responds_to_well_known_path api req"
    "test_challenge_server_returns_404_for_unknown_token api req'"
    "test_cert_needs_renewal_returns_true_when_cert_missing fs now"
    "test_cert_needs_renewal_returns_false_when_recently_issued dir fs written now"
    "test_cert_needs_renewal_returns_true_when_issued_at_old dir fs now"
proof -
  note handled = challenge_answers_def challenge_handler_def find_challenge_def challenge_prefix_def
    strip_prefix_def starts_with_def not_found_def
  show "test_challenge_server_responds_to_well_known_path api req"
    using assms(1) by (simp add: test_challenge_server_responds_to_well_known_path_def handled make_response_def)
  show "test_challenge_server_returns_404_for_unknown_token api req'"
    using assms(2) by (simp add: test_challenge_server_returns_404_for_unknown_token_def handled)
  show "test_cert_needs_renewal_returns_true_when_cert_missing fs now"
    using assms(3) by (simp add: test_cert_needs_renewal_returns_true_when_cert_missing_def cert_needs_renewal_def
        cert_pem_path_def fs_exists_def path_join_def starts_with_def)
  have "read_issued_at Map.empty fs' dir = written"
    if "fs' (issued_at_path dir) = Some (dec (unat written))" for fs'
    by (rule read_issued_at_written) (simp_all add: that)
  moreover have "\<not> written + renewal_age < now" using renewal_age_exceeded [OF assms(4)] assms(5) by simp
  ultimately show "test_cert_needs_renewal_returns_false_when_recently_issued dir fs written now"
    by (simp add: test_cert_needs_renewal_returns_false_when_recently_issued_def fs_write_def fs_exists_def
        cert_needs_renewal_def flip: cert_pem_path_def issued_at_path_def)
  have zero: "dec 0 = ''0''" by code_simp
  have "read_issued_at Map.empty fs' dir = 0" if "fs' (issued_at_path dir) = Some ''0''" for fs'
    using read_issued_at_written [of Map.empty dir fs' 0] that zero by simp
  moreover have "(0 :: u64) + renewal_age < now" using renewal_age_exceeded [of 0 now] assms(6) by simp
  ultimately show "test_cert_needs_renewal_returns_true_when_issued_at_old dir fs now"
    by (simp add: test_cert_needs_renewal_returns_true_when_issued_at_old_def fs_write_def fs_exists_def
        cert_needs_renewal_def flip: cert_pem_path_def issued_at_path_def)
qed

end
