(* ===== verification/Spec2Isabelle.thy ===== *)
theory Spec2Isabelle
  imports Server_Laws Forward_Tasks Request_Runs Reload_Runs Renewal_Runs Order_Contest Unit_Tests
begin

text \<open>
  PrismProxy (\<open>src/src/\<close>) is a reverse proxy: it reads a TOML configuration, matches requests to
  routes by path prefix, runs each route's WASM plugins on a request, forwards it to the route's
  upstream over pooled HTTP/1.1 connections, polls the upstreams' health, reloads its
  configuration when the file changes, terminates TLS with certificates it gets itself by ACME
  HTTP-01, renews them, and redirects plain HTTP. This development models all of it that is not a
  library call or a log line.

  Theories, in the order the code depends on them:
  \<^item> \<open>Proxy_Prelude\<close>: integer widths, \<open>Result\<close> as a sum, panics as an outcome, the \<open>str\<close> operations
    and decimal printing the code uses. A \<open>String\<close> is the list of its UTF-8 bytes.
  \<^item> \<open>Rust_Net\<close>, \<open>Rust_Fs\<close>: the parts of \<open>std::net\<close> (parsing and printing of socket addresses) and
    \<open>std::fs\<close> (a store of files in which any call may fail) that the code uses.
  \<^item> \<open>Proxy_Errors\<close> (\<open>error.rs\<close>), \<open>Proxy_Config\<close> (\<open>config.rs\<close>), \<open>Metrics\<close> (\<open>metrics.rs\<close>).
  \<^item> \<open>Http_Types\<close>: requests, responses, header maps and the network, which are \<open>http\<close>, \<open>hyper\<close> and
    \<open>tokio\<close> and so parameters, with the documented laws of header maps.
  \<^item> \<open>Pool\<close> (\<open>pool.rs\<close>): idle connections. \<open>Proxy_Forward\<close> (\<open>proxy.rs\<close>): forwarding, once as it is
    written (\<open>forward_inner\<close>) and once as the state machine of its suspension points (\<open>fwd_step\<close>),
    which is what the timeout of \<open>forward\<close> cuts and what other requests interleave with.
    \<open>Forward_Wire\<close>: what is sent and passed back. \<open>Forward_Tasks\<close>: any number of requests in
    flight on one pool, as a step relation.
  \<^item> \<open>Health_Check\<close> (\<open>health_check.rs\<close>): the polling loop and the flag cells it shares with the
    routes.
  \<^item> \<open>Plugin\<close> (\<open>plugin.rs\<close>), \<open>Tls_State\<close> (\<open>tls.rs\<close>), \<open>App_State\<close> (\<open>state.rs\<close>): what a configuration
    is built into.
  \<^item> \<open>Handler\<close> (\<open>handler.rs\<close>): one request, from routing to its recorded response.
  \<^item> \<open>Reload\<close> (\<open>server.rs\<close>): the hot-reload task.
  \<^item> \<open>Cert_Store\<close>, \<open>Acme\<close>, \<open>Acme_Laws\<close>, \<open>Provisioning\<close>, \<open>Renewal\<close> (\<open>acme.rs\<close>): the certificate
    cache, both provisioning functions, their contract, and the renewal task. \<open>Challenge_Http\<close>:
    the handlers of the challenge server (\<open>acme.rs\<close>) and of the redirect server (\<open>server.rs\<close>).
  \<^item> \<open>Server\<close>, \<open>Server_Laws\<close> (\<open>server.rs\<close>, \<open>main.rs\<close>): startup, accept loops, connections.
  \<^item> \<open>Request_Task\<close>, \<open>Order_Task\<close>, \<open>Renewal_Task\<close>: \<open>handle\<close>, \<open>provision_with_store\<close> and a renewal
    turn cut where they suspend, and proved equal to the uncut functions. \<open>Order_Laws\<close>: every
    order ends, and what the disk and the challenge store hold in each of its phases.
    \<open>Proxy_System\<close>: all tasks of a running server as one system of events (\<open>live_exec\<close>) and its
    interleavings (\<open>live_run\<close>). \<open>System_Laws\<close>: what each event keeps. \<open>Proxy_Runs\<close>: what holds in
    every run of a started server. \<open>Request_Runs\<close>: requests left alone, and requests a reload
    overtakes. \<open>Reload_Runs\<close>: where the served configuration comes from. \<open>Renewal_Runs\<close>: renewals
    in such a run.
  \<^item> \<open>Order_Contest\<close>: the orders of several proxies that share a cache directory, and the lock
    file.
  \<^item> \<open>Unit_Tests\<close>: the tests beside the code, as statements that hold of the model.
  \<^item> this theory: properties that span components.

  Interfaces are locales, each interpreted on the model: \<open>conn_store\<close> (what forwarding relies on
  of the pool: \<open>cp\<close>), \<open>thresholds\<close> (the health loop with positive thresholds: \<open>hc\<close>, at the
  server's 3 and 2), \<open>state_loader\<close> (whatever builds a new application state gives it new flags,
  all up: \<open>bs\<close> for \<open>build_state\<close>, \<open>tr\<close> for \<open>try_reload\<close>), \<open>provisioner\<close> (what a provisioning
  function leaves on disk: \<open>pv\<close> for \<open>provision\<close>, \<open>ps\<close> for \<open>provision_with_store\<close>) and
  \<open>challenge_responder\<close> (what the certificate authority relies on: \<open>cs\<close> for the challenge server,
  \<open>rd\<close> for the redirect server).

  How the code's state appears:
  \<^item> \<open>ConnectionPool\<close> is the record \<open>pool\<close>; a lock held over a block of code makes the block one
    step.
  \<^item> \<open>Arc<AtomicBool>\<close> health flags are addresses in a \<open>flag_heap\<close>, so that sharing, and flags that
    are no longer shared, can be stated. \<open>ArcSwap<AppState>\<close> is the current \<open>app_state\<close>, loaded
    once per request.
  \<^item> \<open>Metrics\<close> is a record of 64-bit words; recording is a list of atomic additions, any
    interleaving of which gives the same counters.
  \<^item> \<open>ChallengeStore\<close> is the map \<open>pv_store\<close>; the challenge server of \<open>provision_inner\<close> is
    \<open>pv_server\<close>.
  \<^item> What libraries and the outside world do is a parameter (\<open>net\<close>, \<open>probe_net\<close>, \<open>wasm_api\<close>,
    \<open>tls_api\<close>, \<open>acme_api\<close>, \<open>toml\<close>) acting on an unspecified world; nothing is assumed of them but
    \<open>header_laws\<close>, \<open>wasm_laws\<close>, \<open>clock_laws\<close> and \<open>issues_new\<close>, which are their documentation, and
    in \<open>Unit_Tests\<close> what they make of the texts of the tests.

  Bounds and fuel. The state machine of \<open>forward\<close> ends within ten steps, so a timer that leaves it
  ten does not fire (C6). The polling loops of provisioning take fuel: with a clock that sleeps at
  least as long as asked, 41 turns reach the deadlines of \<open>provision_with_store\<close> (C15); the
  download loop of \<open>provision_inner\<close> has no deadline, and it returns exactly when some poll brings
  something (\<open>download_returns_iff_delivered\<close>). The health loop's 32-bit counters are exact for \<open>2
  ^ 32\<close> polls (C10); the counters of \<open>/metrics\<close> are words and the mean is exact while the sum fits
  them (\<open>metrics_mean_exact\<close>). The age check wraps around at \<open>2 ^ 64\<close> seconds.

  What the properties show, by group: C1, C19, C30 and C33 the requests of a running server and
  the pool they share; C5, C6 and C24 forwarding; C2, C3, C4 and C11 the handler; C7, C10, C32 and
  C35 health checks, C7 as long as the first state is served; C12, C13, C14, C26 and C38 reload,
  C38 being a weakness of it; C8 and C27 startup; C9, C15, C16, C25 and C31 provisioning; C17,
  C21, C28, C29 and C34 renewals in a running proxy, C29 and C34 with a weakness of them; C18, C36
  and C40 metrics; C20 configuration; C22, C23 and C39 plugins; C37 redirects. The properties of
  \<open>Proxy_Runs\<close>, \<open>Request_Runs\<close>, \<open>Reload_Runs\<close> and \<open>Renewal_Runs\<close> quantify over every list of
  events after a start that succeeded.

  What one event is. A request runs from one suspension point of \<open>forward_inner\<close> to the next, a
  health loop does one poll, the reload loop one turn; a renewal turn is the reading of the
  configuration, one event for each call of the ACME client, sleep, write to the challenge store
  or file operation of the order, and the building of the new state. The redirect server answers
  one request. Recording a response is one event: however its additions interleave with others,
  the counters end the same (C18). Requests of an HTTP/2 connection are concurrent; those of an
  HTTP/1.1 connection are the interleavings in which they follow each other (\<open>serve_requests\<close> is
  that case). A shutdown or an error of \<open>accept\<close> ends every task at once.

  Coarser than the code: a turn of the reload loop, and the building of a state, reads the
  configuration, the certificate and the key at one moment (what the two files of the pair hold
  between the renames of a renewal is C29, what a reload makes of it
  \<open>reload_between_renames_reads_torn_pair\<close>); and during one start the same file operations fail.

  Not modelled: the tests under \<open>src/tests/\<close>, which observe a server in real time, log lines, the
  contents of the TOML, WASM, TLS and HTTP libraries, the HTTP version of forwarded requests, the
  time a handshake without a timeout may take, the creation of directories (only its failure), and
  two spellings of one file name.
\<close>

section \<open>Properties across components\<close>

subsection \<open>Health checks and requests\<close>

text \<open>
  C7: in a running server, while it still serves the state it started with, three polls of a route's
  upstream that failed in a row make every request for that route be answered with 503, until two polls
  in a row have succeeded; nothing else changes but the counters. (A reload ends this: C38.)
\<close>
theorem failing_upstream_is_refused:
  assumes "boot d faults fuel env hp pv = Some (Returned (Ok rn))" "live_run d es (live_of rn) = Some s"
    and "header_laws (d_http d)" "nd_state (lv_node s) = nd_state (run_node rn)"
    and "k < length (app_routes (nd_state (lv_node s)))"
    and "find_route (app_routes (nd_state (lv_node s))) (uri_path (req_uri req)) =
      Some (app_routes (nd_state (lv_node s)) ! k)"
    and "uri_path (req_uri req) \<notin> {''/metrics'', ''/health''}"
    and "polls_of k es = earlier @ [False, False, False] @ later" "\<not> sublist [True, True] later"
      "length (polls_of k es) < 2 ^ 32"
    and "live_exec d (Arrived j i uptime ms req) s = Some s'"
  shows "\<exists>resp ob. resp_status resp = 503 \<and>
    s' = s\<lparr>lv_metrics := metrics_record 503 ms False (lv_metrics s),
           lv_answers := lv_answers s @ [\<lparr>an_request = i, an_response = resp, an_observed = Some ob\<rparr>]\<rparr>"
proof -
  let ?st = "nd_state (lv_node s)" and ?hp = "nd_heap (lv_node s)"
  have spawned: "run_health rn = spawn_health ?st"
    unfolding assms(4) by (rule start_hot_Ok [OF assms(1) [unfolded boot_def]])
  then have k: "k < length (run_health rn)" "snd (run_health rn ! k) = rs_healthy (app_routes ?st ! k)"
    using assms(5) by (simp_all add: spawn_health_def)
  have "\<not> flag_load ?hp (rs_healthy (app_routes ?st ! k))"
    using health_flags_down [OF assms(1,2) k(1) assms(8,9,10)] k(2) by simp
  then have begun: "route_begin (d_http d) (d_wasm d) e ?st ?hp req =
      Decided (Err (UpstreamUnhealthy (upstream (rs_route (app_routes ?st ! k)))))" for e
    using assms(6,7) by (simp add: route_begin_def)
  obtain addr tls_on where "lv_tasks s i = None" and s': "s' = live_arrive (d_http d) (d_wasm d) j i
      \<lparr>env_client = addr, env_is_tls = tls_on, env_uptime = uptime, env_elapsed_ms = ms, env_steps = 0\<rparr> req s"
    using assms(11) by (auto simp: live_exec_def split: option.splits if_splits)
  then have "(lv_tasks s)(i := None) = lv_tasks s" by auto
  moreover have "handle_end (d_http d) ms (Err (UpstreamUnhealthy u)) (lv_metrics s) =
      (Returned (error_response (d_http d) (UpstreamUnhealthy u)), metrics_record 503 ms False (lv_metrics s))"
    "resp_status (error_response (d_http d) (UpstreamUnhealthy u)) = 503" for u
    by (simp_all add: handle_end_def resp_status_error)
  ultimately show ?thesis
    using s' assms(7) by (auto simp: live_arrive_def begun live_answer_returned)
qed

text \<open>The first route's upstream fails twice, answers once, fails three times and answers once again.\<close>

definition example_failing :: "(nat, example_module, example_instance, (string \<times> string) list, string) event list" where
  "example_failing = Connected 7 (client_addr example_ctx) (Ok ()) # map (Polled 0) [False, False, True, False, False, False, True]"

lemma example_failing_report:
  "map_option (\<lambda>s. map (path_prefix \<circ> rs_route) (app_routes (nd_state (lv_node s)))) (example_run example_failing) =
     Some [''/a'', ''/b'']"
  "map_option (\<lambda>s. Option.is_none (live_exec example_deps (Arrived 7 0 ''1.0'' 3 (example_get ''/a'')) s))
     (example_run example_failing) = Some False"
  by code_simp+

lemma polls_keep_state:
  "live_run d (map (Polled k) oks) s = Some s' \<Longrightarrow> nd_state (lv_node s') = nd_state (lv_node s)"
proof (induction oks arbitrary: s)
  case (Cons ok oks)
  then obtain s1 where s1: "live_exec d (Polled k ok) s = Some s1" "live_run d (map (Polled k) oks) s1 = Some s'"
    by (auto split: option.splits)
  then have "nd_state (lv_node s1) = nd_state (lv_node s)"
    by (auto simp: live_exec_def live_poll_def split: if_splits prod.splits)
  with Cons.IH [OF s1(2)] show ?case by simp
qed simp

theorem failing_upstream_is_refused_witness:
  "map_option (\<lambda>s'. map (\<lambda>a. resp_status (an_response a)) (lv_answers s'))
     (live_exec example_deps (Arrived 7 0 ''1.0'' 3 (example_get ''/a'')) (example_after example_failing)) =
   Some (map (\<lambda>a. resp_status (an_response a)) (lv_answers (example_after example_failing)) @ [503])"
proof -
  let ?s = "example_after example_failing" and ?req = "example_get ''/a''"
  let ?routes = "app_routes (nd_state (lv_node ?s))"
  from example_failing_report(1) have "example_run example_failing \<noteq> None" by auto
  then have run: "live_run example_deps example_failing (live_of example_rn) = Some ?s" by (rule example_after)
  from example_failing_report have report:
    "map (path_prefix \<circ> rs_route) ?routes = [''/a'', ''/b'']"
    and "\<not> Option.is_none (live_exec example_deps (Arrived 7 0 ''1.0'' 3 ?req) ?s)"
    by (auto simp: example_after_def split: option.splits)
  then obtain s' where s': "live_exec example_deps (Arrived 7 0 ''1.0'' 3 ?req) ?s = Some s'"
    by (auto simp: Option.is_none_def)
  obtain s1 where "live_exec example_deps (Connected 7 (client_addr example_ctx) (Ok ())) (live_of example_rn) = Some s1"
    and polled: "live_run example_deps (map (Polled 0) [False, False, True, False, False, False, True]) s1 = Some ?s"
    using run unfolding example_failing_def by (auto simp del: list.map split: option.splits)
  then have "nd_state (lv_node s1) = nd_state (run_node example_rn)"
    by (auto simp: live_exec_def live_of_def split: option.splits if_splits)
  with polls_keep_state [OF polled] have initial: "nd_state (lv_node ?s) = nd_state (run_node example_rn)" by simp
  from report obtain r1 r2 where routes: "?routes = [r1, r2]" "path_prefix (rs_route r1) = ''/a''" by auto
  then have first: "0 < length ?routes" "find_route ?routes (uri_path (req_uri ?req)) = Some (?routes ! 0)"
    by (simp_all add: find_route_def starts_with_def)
  have path: "uri_path (req_uri ?req) \<notin> {''/metrics'', ''/health''}" by simp
  have polls: "polls_of 0 example_failing = [False, False, True] @ [False, False, False] @ [True]"
    "\<not> sublist [True, True] [True]" "length (polls_of 0 example_failing) < 2 ^ 32"
    by code_simp+
  from failing_upstream_is_refused [OF example_boot run example_http initial first path polls s']
  obtain resp ob where "resp_status resp = 503"
    "lv_answers s' = lv_answers ?s @ [\<lparr>an_request = 0, an_response = resp, an_observed = Some ob\<rparr>]" by auto
  with s' show ?thesis by simp
qed

subsection \<open>Reload and health checks\<close>

text \<open>
  Once a started server has reloaded its configuration, its health loops no longer have a say:
  whatever they store into their flags, every route of the new state stays marked healthy.
\<close>
theorem reload_silences_health_loops:
  assumes "start_hot toml_from_str wasm tapi api faults fuel config_path env hp pv = Some (Returned (Ok rn))"
    and "rl = \<lparr>rl_state = nd_state (run_node rn), rl_heap = nd_heap (run_node rn), rl_last_mtime = run_mtime rn\<rparr>"
    and "te_stat tick = Modified mtime" "run_mtime rn < mtime"
    and "try_reload toml_from_str tapi config_path tick (nd_heap (run_node rn)) = (Ok st, hp')"
    and "fst ` set stores \<subseteq> snd ` set (run_health rn)"
  shows "rl_state (reload_tick toml_from_str tapi config_path tick rl) = st \<and>
    (\<forall>rs \<in> set (app_routes st). flag_load
       (fold (\<lambda>(a, b) h. flag_store h a b) stores (rl_heap (reload_tick toml_from_str tapi config_path tick rl)))
       (rs_healthy rs))"
proof -
  have tick: "reload_tick toml_from_str tapi config_path tick rl = rl\<lparr>rl_state := st, rl_heap := hp', rl_last_mtime := mtime\<rparr>"
    by (rule reload_tick_newer) (use assms(2-5) in simp_all)
  from start_hot_built [OF assms(1)] obtain fs c hp0 where
    built: "build_state wasm tapi faults fs c hp0 = (Ok (nd_state (run_node rn)), nd_heap (run_node rn))" by blast
  have "run_health rn = spawn_health (nd_state (run_node rn))" by (rule start_hot_Ok [OF assms(1)])
  then have "snd ` set (run_health rn) = set (cells (nd_state (run_node rn)))"
    by (auto simp: spawn_health_def cells_def image_image)
  then have old: "a < length (nd_heap (run_node rn))" if "a \<in> fst ` set stores" for a
    using that assms(6) build_state_cells [OF built] by blast
  have new: "length (nd_heap (run_node rn)) \<le> x" if "x \<in> set (cells st)" for x
    using tr.load_cells [of "(toml_from_str, tapi, config_path, tick)" "nd_heap (run_node rn)" st hp' x] assms(5) that by simp
  have up: "flag_load hp' x" if "x \<in> set (cells st)" for x
    using tr.load_healthy [of "(toml_from_str, tapi, config_path, tick)" "nd_heap (run_node rn)" st hp' x] assms(5) that by simp
  have "flag_load (fold (\<lambda>(a, b) h. flag_store h a b) stores hp') (rs_healthy rs)" if "rs \<in> set (app_routes st)" for rs
  proof -
    have cell: "rs_healthy rs \<in> set (cells st)" using that by (simp add: cells_def)
    have "\<forall>a \<in> fst ` set stores. a \<noteq> rs_healthy rs" using old new [OF cell] by fastforce
    with up [OF cell] show ?thesis by (simp add: stores_elsewhere)
  qed
  with tick show ?thesis by simp
qed

text \<open>
  From a successful start on, through any number of reloads of whatever the configuration file
  becomes, the routes served are ones a valid configuration may have.
\<close>
theorem valid_routes_from_start_on:
  assumes "start_hot toml_from_str wasm tapi api faults fuel config_path env hp pv = Some (Returned (Ok rn))"
  shows "routes_ok (map rs_route (app_routes (rl_state (reload_loop toml_from_str tapi config_path ticks
    \<lparr>rl_state = nd_state (run_node rn), rl_heap = nd_heap (run_node rn), rl_last_mtime = run_mtime rn\<rparr>))))"
proof -
  from start_hot_built [OF assms] build_state_serving_ok
  have "serving_ok (nd_state (run_node rn))" by blast
  then show ?thesis
    using reload_loop_serving_ok [of "\<lparr>rl_state = nd_state (run_node rn), rl_heap = nd_heap (run_node rn),
      rl_last_mtime = run_mtime rn\<rparr>"] by (simp add: serving_ok_def)
qed

theorem valid_routes_from_start_on_witness:
  "routes_ok (map rs_route (app_routes (rl_state (reload_loop example_start_toml example_tls ''proxy.toml''
     [example_tick ''same route twice''] \<lparr>rl_state = nd_state (run_node example_running),
      rl_heap = nd_heap (run_node example_running), rl_last_mtime = run_mtime example_running\<rparr>))))"
  by (rule valid_routes_from_start_on [OF example_started [unfolded example_started_def]])

definition example_retick :: "(example_module, example_instance) tick_env" where
  "example_retick = (example_tick ''two routes'')\<lparr>te_files := [''proxy.toml'' \<mapsto> ''two routes'']\<rparr>"

theorem reload_silences_health_loops_witness:
  "\<exists>st hp'. try_reload example_start_toml example_tls ''proxy.toml'' example_retick (nd_heap (run_node example_running)) =
       (Ok st, hp') \<and> app_routes st \<noteq> [] \<and>
     (\<forall>rs \<in> set (app_routes st). flag_load
       (fold (\<lambda>(a, b) h. flag_store h a b) [(snd (hd (run_health example_running)), False)]
         (rl_heap (reload_tick example_start_toml example_tls ''proxy.toml'' example_retick
           \<lparr>rl_state = nd_state (run_node example_running), rl_heap = nd_heap (run_node example_running),
            rl_last_mtime = run_mtime example_running\<rparr>))) (rs_healthy rs))"
proof -
  let ?load = "try_reload example_start_toml example_tls ''proxy.toml'' example_retick (nd_heap (run_node example_running))"
  have pre: "is_ok (fst ?load)" "te_stat example_retick = Modified (SystemTime 100 5)"
    "run_mtime example_running < SystemTime 100 5" "length (app_routes (projr (fst ?load))) = 2"
    "length (run_health example_running) = 2"
    by code_simp+
  have run: "?load = (Ok (projr (fst ?load)), snd ?load)" using is_ok_projr [OF pre(1) refl] .
  have "fst ` set [(snd (hd (run_health example_running)), False)] \<subseteq> snd ` set (run_health example_running)"
    using pre(5) by (cases "run_health example_running") auto
  from reload_silences_health_loops [OF example_started [unfolded example_started_def] refl pre(2,3) run this] run pre(4)
  show ?thesis by (intro exI [of _ "projr (fst ?load)"] exI [of _ "snd ?load"]) auto
qed

subsection \<open>A connection's requests\<close>

text \<open>
  On a connection that is served, every request is answered, in order, and the counter of requests
  grows by one for each of them that is not for \<open>/metrics\<close> (modulo \<open>2 ^ 64\<close>).
\<close>
theorem connection_answers_every_request:
  assumes "header_laws api" "app_tls st = None \<or> is_ok (tls_accept (acceptor (the (app_tls st))))"
  shows "\<exists>rs p' w' m'. serve_connection api net wasm addr tls_accept st ts p w m = (rs, p', w', m') \<and>
     length rs = length ts \<and>
     requests_total m' = requests_total m +
       of_nat (length (filter (\<lambda>t. uri_path (req_uri (tn_request t)) \<noteq> ''/metrics'') ts))"
proof -
  have "\<exists>rs p' w' m'. serve_requests api net wasm addr b ts p w m = (rs, p', w', m') \<and> length rs = length ts \<and>
     requests_total m' = requests_total m +
       of_nat (length (filter (\<lambda>t. uri_path (req_uri (tn_request t)) \<noteq> ''/metrics'') ts))" for b
  proof (induction ts arbitrary: p w m)
    case Nil
    then show ?case by simp
  next
    case (Cons t ts)
    let ?run = "handle api net wasm ((tn_env t)\<lparr>env_client := addr, env_is_tls := b\<rparr>) (tn_state t) (tn_heap t)
      (tn_request t) p w m"
    have "\<exists>resp p1 w1 m1. ?run = (Returned resp, p1, w1, m1) \<and>
        requests_total m1 = requests_total m + (if uri_path (req_uri (tn_request t)) = ''/metrics'' then 0 else 1)"
      using handle_records [OF assms(1), of "tn_request t" net wasm _ "tn_state t" "tn_heap t" p w m]
      by (cases "uri_path (req_uri (tn_request t)) = ''/metrics''")
        (fastforce simp: handle_metrics metrics_record_total)+
    then obtain resp p1 w1 m1 where run: "?run = (Returned resp, p1, w1, m1)"
      "requests_total m1 = requests_total m + (if uri_path (req_uri (tn_request t)) = ''/metrics'' then 0 else 1)"
      by blast
    from Cons.IH [of p1 w1 m1] run show ?case by auto
  qed
  then show ?thesis
    using assms(2) by (auto simp: serve_connection_def serve_plain_def serve_tls_def is_ok_iff split: option.splits)
qed

theorem connection_answers_every_request_witness:
  "\<exists>rs p' w' m'. serve_connection list_headers (numbered_net {0}) example_wasm (client_addr example_ctx)
       (\<lambda>acc. Ok ()) example_state
       [\<lparr>tn_env = example_env, tn_state = example_state, tn_heap = [False, True, True], tn_request = example_get ''/a''\<rparr>,
        \<lparr>tn_env = example_env, tn_state = example_state, tn_heap = [], tn_request = example_get ''/metrics''\<rparr>]
       (pool_new 1) 0 metrics_new = (rs, p', w', m') \<and> length rs = 2 \<and> requests_total m' = 1"
  using connection_answers_every_request [OF list_headers_laws, of example_state "\<lambda>acc. Ok ()" "numbered_net {0}"
      example_wasm "client_addr example_ctx"
      "[\<lparr>tn_env = example_env, tn_state = example_state, tn_heap = [False, True, True], tn_request = example_get ''/a''\<rparr>,
        \<lparr>tn_env = example_env, tn_state = example_state, tn_heap = [], tn_request = example_get ''/metrics''\<rparr>]"
      "pool_new 1" 0 metrics_new]
  by (simp add: metrics_new_def numeral_2_eq_2)

end
